theory Spec2Isabelle
  imports Main "HOL-Library.Word"
begin

unbundle bit_operations_syntax

section \<open>The atomic display state-transaction engine (drm\_atomic.c)\<close>

text \<open>
  A shallow embedding of the atomic mode-setting core.  C pointers to mode objects
  (CRTCs, planes, connectors) are their dense indices (\<open>drm_crtc_index\<close> and friends);
  pointers to duplicated state objects are addresses into per-kind memories; functions
  returning an \<open>int\<close> return 0 or a negated errno, functions returning \<open>ERR_PTR\<close>
  values return \<open>Inl\<close> of the negated errno or \<open>Inr\<close> of the address.
\<close>

subsection \<open>Error numbers\<close>

abbreviation ENOENT :: int where "ENOENT \<equiv> 2"
abbreviation ENOMEM :: int where "ENOMEM \<equiv> 12"
abbreviation EFAULT :: int where "EFAULT \<equiv> 14"
abbreviation EINVAL :: int where "EINVAL \<equiv> 22"
abbreviation ENOSPC :: int where "ENOSPC \<equiv> 28"
abbreviation ERANGE :: int where "ERANGE \<equiv> 34"
abbreviation EDEADLK :: int where "EDEADLK \<equiv> 35"

subsection \<open>Data model\<close>

type_synonym addr = nat
type_synonym u32 = "32 word"
type_synonym u64 = "64 word"

text \<open>\<open>INT_MAX\<close> of a 32-bit \<open>int\<close>.\<close>

abbreviation INT_MAX :: int where "INT_MAX \<equiv> 2147483647"

record drm_framebuffer =
  fb_id :: nat
  width :: u32
  height :: u32
  pixel_format :: u32

text \<open>
  \<open>struct drm_plane_state\<close>.  \<open>crtc_x\<close> and \<open>crtc_y\<close> are \<open>int32_t\<close> in C and are read
  with \<open>sint\<close>; the other geometry fields are \<open>uint32_t\<close>.  The back pointer
  \<open>state\<close> to the owning transaction is implicit: a world holds one transaction.
\<close>

record drm_plane_state =
  ps_plane :: nat
  ps_crtc :: "nat option"
  ps_fb :: "drm_framebuffer option"
  ps_fence :: "nat option"
  crtc_x :: u32
  crtc_y :: u32
  crtc_w :: u32
  crtc_h :: u32
  src_x :: u32
  src_y :: u32
  src_h :: u32
  src_w :: u32
  rotation :: u32
  zpos :: u32

record drm_property_blob =
  blob_id :: nat
  blob_length :: nat
  blob_data :: "nat list"

text \<open>\<open>struct drm_crtc_state\<close>; \<open>cs_mode\<close> stands for the embedded display mode.\<close>

record drm_crtc_state =
  cs_crtc :: nat
  enable :: bool
  active :: bool
  planes_changed :: bool
  mode_changed :: bool
  active_changed :: bool
  connectors_changed :: bool
  color_mgmt_changed :: bool
  plane_mask :: u32
  connector_mask :: u32
  cs_mode :: "nat list"
  mode_blob :: "drm_property_blob option"
  degamma_lut :: "drm_property_blob option"
  ctm :: "drm_property_blob option"
  gamma_lut :: "drm_property_blob option"
  event :: "addr option"

record drm_connector_state =
  cns_connector :: nat
  cns_crtc :: "nat option"

text \<open>\<open>struct drm_pending_vblank_event\<close>, as far as this file reads and writes it.\<close>

record drm_pending_vblank_event =
  ev_user_data :: u64
  ev_fence :: "nat option"
  ev_file_priv :: bool

record drm_crtc_commit =
  commit_ref :: int
  commit_event :: "addr option"

text \<open>The mode objects of the device, with the fields this file uses.\<close>

record drm_crtc =
  crtc_state_ptr :: addr

record drm_plane =
  possible_crtcs :: u32
  plane_state_ptr :: addr
  zpos_property :: "nat option"
  plane_fb :: "drm_framebuffer option"
  plane_old_fb :: "drm_framebuffer option"
  plane_crtc :: "nat option"

record drm_connector =
  connector_state_ptr :: addr
  dpms :: int

text \<open>
  \<open>struct drm_mode_config\<close>: the object counts and the identities of the registered
  core property descriptors (properties are compared by pointer).
\<close>

record drm_mode_config =
  num_crtc :: nat
  num_total_plane :: nat
  num_connector :: nat
  async_page_flip :: bool
  prop_active :: nat
  prop_mode_id :: nat
  degamma_lut_property :: nat
  ctm_property :: nat
  gamma_lut_property :: nat
  prop_out_fence_ptr :: nat
  prop_fb_id :: nat
  prop_in_fence_fd :: nat
  prop_crtc_id :: nat
  prop_crtc_x :: nat
  prop_crtc_y :: nat
  prop_crtc_w :: nat
  prop_crtc_h :: nat
  prop_src_x :: nat
  prop_src_y :: nat
  prop_src_w :: nat
  prop_src_h :: nat
  rotation_property :: nat
  dpms_property :: nat

record drm_device =
  mode_config :: drm_mode_config
  driver_atomic :: bool
  crtcs_of :: "nat \<Rightarrow> drm_crtc"
  planes_of :: "nat \<Rightarrow> drm_plane"
  connectors_of :: "nat \<Rightarrow> drm_connector"

text \<open>
  The per-kind entries of a transaction (\<open>struct __drm_crtcs_state\<close>,
  \<open>__drm_planes_state\<close>, \<open>__drm_connnectors_state\<close>) and the transaction itself
  (\<open>struct drm_atomic_state\<close>).  \<open>num_connector\<close> of the transaction is the length of
  \<open>connectors\<close>.
\<close>

record crtc_entry =
  ce_ptr :: "nat option"
  ce_state :: "addr option"
  ce_commit :: "addr option"
  ce_out_fence_ptr :: "u64 option"

record plane_entry =
  pe_ptr :: "nat option"
  pe_state :: "addr option"

record connector_entry =
  cne_ptr :: "nat option"
  cne_state :: "addr option"

record drm_atomic_state =
  allow_modeset :: bool
  acquire_ctx :: "nat option"
  crtcs :: "crtc_entry list"
  planes :: "plane_entry list"
  connectors :: "connector_entry list"

datatype lock = Crtc_mutex nat | Plane_mutex nat | Connection_mutex

text \<open>
  A mode object of one of the three kinds this file handles, by index; and what an object
  lookup by id returns: the kind (\<open>None\<close> for any other type of object) and whether
  the object has a property list.
\<close>

datatype mode_object = Crtc nat | Plane nat | Connector nat

record drm_mode_object =
  obj_type :: "mode_object option"
  obj_has_properties :: bool

text \<open>The argument of the atomic ioctl and the four user arrays it points to.\<close>

record drm_mode_atomic =
  flags :: u32
  count_objs :: u32
  reserved :: u64
  arg_user_data :: u64

datatype user_array = Objs_ptr | Count_props_ptr | Props_ptr | Prop_values_ptr

record drm_file =
  atomic :: bool

record drm_out_fence_state =
  out_fence_ptr :: u64
  sync_file :: "addr option"
  fd :: int

text \<open>
  Calls that leave this file are recorded in a trace, in the order in which the code
  makes them.
\<close>

datatype call =
    Modeset_lock lock int
  | Crtc_duplicate_state nat "addr option"
  | Plane_duplicate_state nat "addr option"
  | Connector_duplicate_state nat "addr option"
  | Crtc_destroy_state nat "addr option"
  | Plane_destroy_state nat "addr option"
  | Connector_destroy_state nat "addr option"
  | Connector_reference nat
  | Connector_unreference nat
  | Framebuffer_reference nat
  | Framebuffer_unreference nat
  | Blob_reference nat
  | Blob_unreference nat
  | Fence_put nat
  | Kfree_event addr
  | Kfree_commit addr
  | Atomic_check
  | Atomic_commit bool
  | Atomic_state_clear
  | Atomic_state_free
  | Release_arrays
  | Modeset_backoff
  | Modeset_drop_locks
  | Put_user u64 int
  | Fd_install int addr
  | Fput addr
  | Put_unused_fd int
  | Event_cancel_free addr
  | Kfree_fence_state
  | Boost_kick

text \<open>
  The world: the device with its committed object states, the one transaction in flight,
  the memories that hold state objects, events and commit records, the trace, the
  state \<open>ext\<close> of everything outside this file (locks, drivers, user memory), and
  \<open>fault\<close>, set when the code dereferences a \<open>NULL\<close> pointer.
\<close>

record 'e world =
  dev :: drm_device
  txn :: drm_atomic_state
  crtc_mem :: "addr \<Rightarrow> drm_crtc_state"
  plane_mem :: "addr \<Rightarrow> drm_plane_state"
  conn_mem :: "addr \<Rightarrow> drm_connector_state"
  event_mem :: "addr \<Rightarrow> drm_pending_vblank_event"
  commit_mem :: "addr \<Rightarrow> drm_crtc_commit"
  next_addr :: addr
  trace :: "call list"
  fault :: bool
  ext :: 'e


subsection \<open>Collaborators outside this file\<close>

text \<open>
  Everything this file calls but does not define is a field of \<open>hooks\<close>: the lock
  primitive, the per-kind driver callbacks, the global driver callbacks, the object and
  blob lookups, the allocator, the event and fence helpers, the reads of user memory and
  the variable \<open>boost_gpu\<close>.  Small callbacks read the world and change only
  \<open>ext\<close>; the driver callbacks that receive the whole transaction may change the world.
  Optional callbacks (a \<open>NULL\<close> function pointer in C) are \<open>None\<close>.
\<close>

record 'e hooks =
  modeset_lock :: "lock \<Rightarrow> 'e \<Rightarrow> int \<times> 'e"
  crtc_duplicate_state :: "nat \<Rightarrow> 'e world \<Rightarrow> drm_crtc_state option \<times> 'e"
  plane_duplicate_state :: "nat \<Rightarrow> 'e world \<Rightarrow> drm_plane_state option \<times> 'e"
  connector_duplicate_state :: "nat \<Rightarrow> 'e world \<Rightarrow> drm_connector_state option \<times> 'e"
  crtc_destroy_state :: "nat \<Rightarrow> addr option \<Rightarrow> 'e \<Rightarrow> 'e"
  plane_destroy_state :: "nat \<Rightarrow> addr option \<Rightarrow> 'e \<Rightarrow> 'e"
  connector_destroy_state :: "nat \<Rightarrow> addr option \<Rightarrow> 'e \<Rightarrow> 'e"
  crtc_set_property :: "(nat \<Rightarrow> addr \<Rightarrow> nat \<Rightarrow> u64 \<Rightarrow> 'e world \<Rightarrow> int \<times> 'e world) option"
  plane_set_property :: "(nat \<Rightarrow> addr \<Rightarrow> nat \<Rightarrow> u64 \<Rightarrow> 'e world \<Rightarrow> int \<times> 'e world) option"
  connector_set_property :: "(nat \<Rightarrow> addr \<Rightarrow> nat \<Rightarrow> u64 \<Rightarrow> 'e world \<Rightarrow> int \<times> 'e world) option"
  atomic_check :: "('e world \<Rightarrow> int \<times> 'e world) option"
  atomic_commit :: "bool \<Rightarrow> 'e world \<Rightarrow> int \<times> 'e world"
  atomic_state_clear :: "('e world \<Rightarrow> 'e world) option"
  atomic_state_free :: "('e world \<Rightarrow> 'e world) option"
  plane_check_pixel_format :: "nat \<Rightarrow> u32 \<Rightarrow> int"
  framebuffer_lookup :: "u64 \<Rightarrow> 'e world \<Rightarrow> drm_framebuffer option"
  crtc_find :: "u64 \<Rightarrow> 'e world \<Rightarrow> nat option"
  property_lookup_blob :: "u64 \<Rightarrow> 'e world \<Rightarrow> drm_property_blob option"
  mode_convert_umode :: "nat list \<Rightarrow> (int \<times> nat list)"
  sync_file_get_fence :: "u64 \<Rightarrow> 'e \<Rightarrow> nat option \<times> 'e"
  put_user :: "u64 \<Rightarrow> int \<Rightarrow> 'e \<Rightarrow> int \<times> 'e"
  kmalloc :: "'e \<Rightarrow> bool \<times> 'e"
  atomic_state_alloc :: "('e world \<Rightarrow> bool \<times> 'e world) option"
  event_reserve_init :: "'e \<Rightarrow> int \<times> 'e"
  crtc_create_fence :: "nat \<Rightarrow> 'e \<Rightarrow> nat option \<times> 'e"
  get_unused_fd_flags :: "'e \<Rightarrow> int \<times> 'e"
  sync_file_create :: "nat \<Rightarrow> 'e \<Rightarrow> addr option \<times> 'e"
  get_user :: "user_array \<Rightarrow> nat \<Rightarrow> 'e \<Rightarrow> u64 option \<times> 'e"
  mode_object_find :: "u32 \<Rightarrow> 'e world \<Rightarrow> drm_mode_object option"
  obj_find_prop_id :: "drm_mode_object \<Rightarrow> u32 \<Rightarrow> 'e world \<Rightarrow> nat option"
  property_change_valid_get :: "nat \<Rightarrow> u64 \<Rightarrow> 'e world \<Rightarrow> bool"
  modeset_backoff :: "'e \<Rightarrow> 'e"
  modeset_drop_locks :: "'e \<Rightarrow> 'e"
  boost_gpu :: bool

definition log :: "call \<Rightarrow> 'e world \<Rightarrow> 'e world" where
  "log c w = w\<lparr>trace := trace w @ [c]\<rparr>"

text \<open>A driver callback runs without the trace, which is put back when it returns.\<close>

definition run_hook :: "('e world \<Rightarrow> 'a \<times> 'e world) \<Rightarrow> 'e world \<Rightarrow> 'a \<times> 'e world" where
  "run_hook f w = (case f (w\<lparr>trace := []\<rparr>) of (r, w') \<Rightarrow> (r, w'\<lparr>trace := trace w\<rparr>))"

definition drm_modeset_lock :: "'e hooks \<Rightarrow> lock \<Rightarrow> 'e world \<Rightarrow> int \<times> 'e world" where
  "drm_modeset_lock hk l w =
     (case modeset_lock hk l (ext w) of
        (ret, e) \<Rightarrow> (ret, log (Modeset_lock l ret) (w\<lparr>ext := e\<rparr>)))"

text \<open>\<open>1 << index\<close>, as \<open>drm_crtc_mask\<close> and the mask updates compute it.\<close>

definition index_bit :: "nat \<Rightarrow> u32" where
  "index_bit i = push_bit i 1"

subsection \<open>Object state table and lookup\<close>

text \<open>
  Modelled from the spec: \<open>get-existing(object)\<close>, an O(1) lookup by dense index with
  no allocation and no locking.  The three inline functions are declared in
  \<open>drm_atomic.h\<close>, which is not among the sources.
\<close>

definition drm_atomic_get_existing_crtc_state :: "'e world \<Rightarrow> nat \<Rightarrow> addr option" where
  "drm_atomic_get_existing_crtc_state w crtc = ce_state (crtcs (txn w) ! crtc)"

definition drm_atomic_get_existing_plane_state :: "'e world \<Rightarrow> nat \<Rightarrow> addr option" where
  "drm_atomic_get_existing_plane_state w plane = pe_state (planes (txn w) ! plane)"

definition set_crtc_entry :: "nat \<Rightarrow> (crtc_entry \<Rightarrow> crtc_entry) \<Rightarrow> 'e world \<Rightarrow> 'e world" where
  "set_crtc_entry i f w =
     w\<lparr>txn := (txn w)\<lparr>crtcs := (crtcs (txn w))[i := f (crtcs (txn w) ! i)]\<rparr>\<rparr>"

definition set_plane_entry :: "nat \<Rightarrow> (plane_entry \<Rightarrow> plane_entry) \<Rightarrow> 'e world \<Rightarrow> 'e world" where
  "set_plane_entry i f w =
     w\<lparr>txn := (txn w)\<lparr>planes := (planes (txn w))[i := f (planes (txn w) ! i)]\<rparr>\<rparr>"

definition set_connector_entry ::
  "nat \<Rightarrow> (connector_entry \<Rightarrow> connector_entry) \<Rightarrow> 'e world \<Rightarrow> 'e world" where
  "set_connector_entry i f w =
     w\<lparr>txn := (txn w)\<lparr>connectors := (connectors (txn w))[i := f (connectors (txn w) ! i)]\<rparr>\<rparr>"

definition drm_atomic_get_crtc_state ::
  "'e hooks \<Rightarrow> 'e world \<Rightarrow> nat \<Rightarrow> (int + addr) \<times> 'e world" where
  "drm_atomic_get_crtc_state hk w crtc =
     (case drm_atomic_get_existing_crtc_state w crtc of
        Some crtc_state \<Rightarrow> (Inr crtc_state, w)
      | None \<Rightarrow>
          (case drm_modeset_lock hk (Crtc_mutex crtc) w of
             (ret, w1) \<Rightarrow>
               if ret \<noteq> 0 then (Inl ret, w1)
               else
                 (case crtc_duplicate_state hk crtc w1 of
                    (None, e) \<Rightarrow>
                      (Inl (- ENOMEM), log (Crtc_duplicate_state crtc None) (w1\<lparr>ext := e\<rparr>))
                  | (Some s, e) \<Rightarrow>
                      (let p = next_addr w1;
                           w2 = log (Crtc_duplicate_state crtc (Some p))
                                  (w1\<lparr>ext := e, crtc_mem := (crtc_mem w1)(p := s),
                                      next_addr := Suc p\<rparr>);
                           w3 = set_crtc_entry crtc
                                  (\<lambda>en. en\<lparr>ce_state := Some p, ce_ptr := Some crtc\<rparr>) w2
                       in (Inr p, w3)))))"

definition drm_atomic_get_plane_state ::
  "'e hooks \<Rightarrow> 'e world \<Rightarrow> nat \<Rightarrow> (int + addr) \<times> 'e world" where
  "drm_atomic_get_plane_state hk w plane =
     (case drm_atomic_get_existing_plane_state w plane of
        Some plane_state \<Rightarrow> (Inr plane_state, w)
      | None \<Rightarrow>
          (case drm_modeset_lock hk (Plane_mutex plane) w of
             (ret, w1) \<Rightarrow>
               if ret \<noteq> 0 then (Inl ret, w1)
               else
                 (case plane_duplicate_state hk plane w1 of
                    (None, e) \<Rightarrow>
                      (Inl (- ENOMEM), log (Plane_duplicate_state plane None) (w1\<lparr>ext := e\<rparr>))
                  | (Some s, e) \<Rightarrow>
                      (let p = next_addr w1;
                           w2 = log (Plane_duplicate_state plane (Some p))
                                  (w1\<lparr>ext := e, plane_mem := (plane_mem w1)(p := s),
                                      next_addr := Suc p\<rparr>);
                           w3 = set_plane_entry plane
                                  (\<lambda>en. en\<lparr>pe_state := Some p, pe_ptr := Some plane\<rparr>) w2
                       in (case ps_crtc (plane_mem w3 p) of
                             None \<Rightarrow> (Inr p, w3)
                           | Some c \<Rightarrow>
                               (case drm_atomic_get_crtc_state hk w3 c of
                                  (Inl err, w4) \<Rightarrow> (Inl err, w4)
                                | (Inr crtc_state, w4) \<Rightarrow> (Inr p, w4)))))))"

text \<open>
  The connector table grows on demand; \<open>krealloc\<close> may fail, and the new tail is
  zeroed.
\<close>

definition empty_connector_entry :: connector_entry where
  "empty_connector_entry = \<lparr>cne_ptr = None, cne_state = None\<rparr>"

definition grow_connectors :: "'e hooks \<Rightarrow> 'e world \<Rightarrow> nat \<Rightarrow> bool \<times> 'e world" where
  "grow_connectors hk w index =
     (if index \<ge> length (connectors (txn w)) then
        (let alloc = max (index + 1) (num_connector (mode_config (dev w)))
         in (case kmalloc hk (ext w) of
               (False, e) \<Rightarrow> (False, w\<lparr>ext := e\<rparr>)
             | (True, e) \<Rightarrow>
                 (True, w\<lparr>ext := e,
                          txn := (txn w)\<lparr>connectors := connectors (txn w) @
                             replicate (alloc - length (connectors (txn w)))
                               empty_connector_entry\<rparr>\<rparr>)))
      else (True, w))"

definition drm_atomic_get_connector_state ::
  "'e hooks \<Rightarrow> 'e world \<Rightarrow> nat \<Rightarrow> (int + addr) \<times> 'e world" where
  "drm_atomic_get_connector_state hk w connector =
     (case drm_modeset_lock hk Connection_mutex w of
        (ret, w1) \<Rightarrow>
          if ret \<noteq> 0 then (Inl ret, w1)
          else
            (case grow_connectors hk w1 connector of
               (False, w2) \<Rightarrow> (Inl (- ENOMEM), w2)
             | (True, w2) \<Rightarrow>
                 (case cne_state (connectors (txn w2) ! connector) of
                    Some connector_state \<Rightarrow> (Inr connector_state, w2)
                  | None \<Rightarrow>
                      (case connector_duplicate_state hk connector w2 of
                         (None, e) \<Rightarrow>
                           (Inl (- ENOMEM),
                            log (Connector_duplicate_state connector None) (w2\<lparr>ext := e\<rparr>))
                       | (Some s, e) \<Rightarrow>
                           (let p = next_addr w2;
                                w3 = log (Connector_duplicate_state connector (Some p))
                                       (w2\<lparr>ext := e, conn_mem := (conn_mem w2)(p := s),
                                           next_addr := Suc p\<rparr>);
                                w4 = log (Connector_reference connector) w3;
                                w5 = set_connector_entry connector
                                       (\<lambda>en. en\<lparr>cne_state := Some p,
                                                 cne_ptr := Some connector\<rparr>) w4
                            in (case cns_crtc (conn_mem w5 p) of
                                  None \<Rightarrow> (Inr p, w5)
                                | Some c \<Rightarrow>
                                    (case drm_atomic_get_crtc_state hk w5 c of
                                       (Inl err, w6) \<Rightarrow> (Inl err, w6)
                                     | (Inr crtc_state, w6) \<Rightarrow> (Inr p, w6))))))))"


subsection \<open>Linking planes and connectors to CRTCs\<close>

definition upd_crtc_state ::
  "addr \<Rightarrow> (drm_crtc_state \<Rightarrow> drm_crtc_state) \<Rightarrow> 'e world \<Rightarrow> 'e world" where
  "upd_crtc_state p f w = w\<lparr>crtc_mem := (crtc_mem w)(p := f (crtc_mem w p))\<rparr>"

definition upd_plane_state ::
  "addr \<Rightarrow> (drm_plane_state \<Rightarrow> drm_plane_state) \<Rightarrow> 'e world \<Rightarrow> 'e world" where
  "upd_plane_state p f w = w\<lparr>plane_mem := (plane_mem w)(p := f (plane_mem w p))\<rparr>"

definition upd_connector_state ::
  "addr \<Rightarrow> (drm_connector_state \<Rightarrow> drm_connector_state) \<Rightarrow> 'e world \<Rightarrow> 'e world" where
  "upd_connector_state p f w = w\<lparr>conn_mem := (conn_mem w)(p := f (conn_mem w p))\<rparr>"

text \<open>The second half of \<open>drm_atomic_set_crtc_for_plane\<close>, from the assignment on.\<close>

definition set_crtc_for_plane_link ::
  "'e hooks \<Rightarrow> 'e world \<Rightarrow> addr \<Rightarrow> nat \<Rightarrow> nat option \<Rightarrow> int \<times> 'e world" where
  "set_crtc_for_plane_link hk w plane_state plane crtc =
     (let w1 = upd_plane_state plane_state (\<lambda>s. s\<lparr>ps_crtc := crtc\<rparr>) w
      in (case crtc of
            None \<Rightarrow> (0, w1)
          | Some c \<Rightarrow>
              (case drm_atomic_get_crtc_state hk w1 c of
                 (Inl err, w2) \<Rightarrow> (err, w2)
               | (Inr cs, w2) \<Rightarrow>
                   (0, upd_crtc_state cs
                         (\<lambda>s. s\<lparr>plane_mask := plane_mask s OR index_bit plane\<rparr>) w2))))"

definition drm_atomic_set_crtc_for_plane ::
  "'e hooks \<Rightarrow> 'e world \<Rightarrow> addr \<Rightarrow> nat option \<Rightarrow> int \<times> 'e world" where
  "drm_atomic_set_crtc_for_plane hk w plane_state crtc =
     (let plane = ps_plane (plane_mem w plane_state)
      in if ps_crtc (plane_mem w plane_state) = crtc then (0, w)
         else
           (case ps_crtc (plane_mem w plane_state) of
              None \<Rightarrow> set_crtc_for_plane_link hk w plane_state plane crtc
            | Some old \<Rightarrow>
                (case drm_atomic_get_crtc_state hk w old of
                   (Inl err, w1) \<Rightarrow> (err, w1)
                 | (Inr cs, w1) \<Rightarrow>
                     set_crtc_for_plane_link hk
                       (upd_crtc_state cs
                          (\<lambda>s. s\<lparr>plane_mask := plane_mask s AND NOT (index_bit plane)\<rparr>) w1)
                       plane_state plane crtc)))"

definition drm_atomic_set_fb_for_plane ::
  "'e world \<Rightarrow> addr \<Rightarrow> drm_framebuffer option \<Rightarrow> 'e world" where
  "drm_atomic_set_fb_for_plane w plane_state fb =
     (let w1 = (case ps_fb (plane_mem w plane_state) of
                  None \<Rightarrow> w
                | Some old \<Rightarrow> log (Framebuffer_unreference (fb_id old)) w);
          w2 = (case fb of None \<Rightarrow> w1 | Some f \<Rightarrow> log (Framebuffer_reference (fb_id f)) w1)
      in upd_plane_state plane_state (\<lambda>s. s\<lparr>ps_fb := fb\<rparr>) w2)"

definition drm_atomic_set_fence_for_plane :: "'e world \<Rightarrow> addr \<Rightarrow> nat \<Rightarrow> 'e world" where
  "drm_atomic_set_fence_for_plane w plane_state fence =
     (if ps_fence (plane_mem w plane_state) \<noteq> None then log (Fence_put fence) w
      else upd_plane_state plane_state (\<lambda>s. s\<lparr>ps_fence := Some fence\<rparr>) w)"

text \<open>
  \<open>drm_atomic_set_crtc_for_connector\<close> reads the old CRTC's state with the plain
  lookup and writes through the result; a \<open>NULL\<close> result is a fault.
\<close>

definition set_crtc_for_connector_unlink :: "'e world \<Rightarrow> addr \<Rightarrow> 'e world" where
  "set_crtc_for_connector_unlink w conn_state =
     (case cns_crtc (conn_mem w conn_state) of
        None \<Rightarrow> w
      | Some old \<Rightarrow>
          (let connector = cns_connector (conn_mem w conn_state);
               w1 = (case drm_atomic_get_existing_crtc_state w old of
                       None \<Rightarrow> w\<lparr>fault := True\<rparr>
                     | Some cs \<Rightarrow>
                         upd_crtc_state cs
                           (\<lambda>s. s\<lparr>connector_mask :=
                                     connector_mask s AND NOT (index_bit connector)\<rparr>) w);
               w2 = log (Connector_unreference connector) w1
           in upd_connector_state conn_state (\<lambda>s. s\<lparr>cns_crtc := None\<rparr>) w2))"

definition drm_atomic_set_crtc_for_connector ::
  "'e hooks \<Rightarrow> 'e world \<Rightarrow> addr \<Rightarrow> nat option \<Rightarrow> int \<times> 'e world" where
  "drm_atomic_set_crtc_for_connector hk w conn_state crtc =
     (if cns_crtc (conn_mem w conn_state) = crtc then (0, w)
      else
        (let w1 = set_crtc_for_connector_unlink w conn_state;
             connector = cns_connector (conn_mem w1 conn_state)
         in (case crtc of
               None \<Rightarrow> (0, w1)
             | Some c \<Rightarrow>
                 (case drm_atomic_get_crtc_state hk w1 c of
                    (Inl err, w2) \<Rightarrow> (err, w2)
                  | (Inr cs, w2) \<Rightarrow>
                      (let w3 = upd_crtc_state cs
                                  (\<lambda>s. s\<lparr>connector_mask :=
                                            connector_mask s OR index_bit connector\<rparr>) w2;
                           w4 = log (Connector_reference connector) w3
                       in (0, upd_connector_state conn_state
                                (\<lambda>s. s\<lparr>cns_crtc := Some c\<rparr>) w4))))))"

subsection \<open>Property dispatch: planes\<close>

definition drm_atomic_plane_set_property ::
  "'e hooks \<Rightarrow> 'e world \<Rightarrow> nat \<Rightarrow> addr \<Rightarrow> nat \<Rightarrow> u64 \<Rightarrow> int \<times> 'e world" where
  "drm_atomic_plane_set_property hk w plane state property val =
     (let config = mode_config (dev w)
      in if property = prop_fb_id config then
           (let fb = framebuffer_lookup hk val w;
                w1 = drm_atomic_set_fb_for_plane w state fb
            in (case fb of
                  None \<Rightarrow> (0, w1)
                | Some f \<Rightarrow> (0, log (Framebuffer_unreference (fb_id f)) w1)))
         else if property = prop_in_fence_fd config then
           (if ps_fence (plane_mem w state) \<noteq> None then (- EINVAL, w)
            else if val = - 1 then (0, w)
            else
              (case sync_file_get_fence hk val (ext w) of
                 (None, e) \<Rightarrow> (- EINVAL, w\<lparr>ext := e\<rparr>)
               | (Some f, e) \<Rightarrow>
                   (0, upd_plane_state state (\<lambda>s. s\<lparr>ps_fence := Some f\<rparr>) (w\<lparr>ext := e\<rparr>))))
         else if property = prop_crtc_id config then
           drm_atomic_set_crtc_for_plane hk w state (crtc_find hk val w)
         else if property = prop_crtc_x config then
           (0, upd_plane_state state (\<lambda>s. s\<lparr>crtc_x := ucast val\<rparr>) w)
         else if property = prop_crtc_y config then
           (0, upd_plane_state state (\<lambda>s. s\<lparr>crtc_y := ucast val\<rparr>) w)
         else if property = prop_crtc_w config then
           (0, upd_plane_state state (\<lambda>s. s\<lparr>crtc_w := ucast val\<rparr>) w)
         else if property = prop_crtc_h config then
           (0, upd_plane_state state (\<lambda>s. s\<lparr>crtc_h := ucast val\<rparr>) w)
         else if property = prop_src_x config then
           (0, upd_plane_state state (\<lambda>s. s\<lparr>src_x := ucast val\<rparr>) w)
         else if property = prop_src_y config then
           (0, upd_plane_state state (\<lambda>s. s\<lparr>src_y := ucast val\<rparr>) w)
         else if property = prop_src_w config then
           (0, upd_plane_state state (\<lambda>s. s\<lparr>src_w := ucast val\<rparr>) w)
         else if property = prop_src_h config then
           (0, upd_plane_state state (\<lambda>s. s\<lparr>src_h := ucast val\<rparr>) w)
         else if property = rotation_property config then
           (0, upd_plane_state state (\<lambda>s. s\<lparr>rotation := ucast val\<rparr>) w)
         else if Some property = zpos_property (planes_of (dev w) plane) then
           (0, upd_plane_state state (\<lambda>s. s\<lparr>zpos := ucast val\<rparr>) w)
         else
           (case plane_set_property hk of
              Some f \<Rightarrow> run_hook (f plane state property val) w
            | None \<Rightarrow> (- EINVAL, w)))"

subsection \<open>Consistency checker\<close>

definition drm_atomic_crtc_check :: "'e world \<Rightarrow> nat \<Rightarrow> addr \<Rightarrow> int" where
  "drm_atomic_crtc_check w crtc state =
     (let s = crtc_mem w state
      in if active s \<and> \<not> enable s then - EINVAL
         else if driver_atomic (dev w) \<and> (enable s \<and> mode_blob s = None) then - EINVAL
         else if driver_atomic (dev w) \<and> (\<not> enable s \<and> mode_blob s \<noteq> None) then - EINVAL
         else if event s \<noteq> None \<and> \<not> active s \<and>
                 \<not> active (crtc_mem w (crtc_state_ptr (crtcs_of (dev w) crtc)))
           then - EINVAL
         else 0)"

definition plane_switching_crtc :: "'e world \<Rightarrow> nat \<Rightarrow> addr \<Rightarrow> bool" where
  "plane_switching_crtc w plane plane_state =
     (let cur = plane_mem w (plane_state_ptr (planes_of (dev w) plane))
      in if ps_crtc cur = None \<or> ps_crtc (plane_mem w plane_state) = None then False
         else if ps_crtc cur = ps_crtc (plane_mem w plane_state) then False
         else True)"

text \<open>
  \<open>fb_width\<close> and \<open>fb_height\<close> are \<open>unsigned int\<close>: the shift by 16 wraps at 32
  bits, and the comparisons against the source rectangle are unsigned.
\<close>

definition drm_atomic_plane_check :: "'e hooks \<Rightarrow> 'e world \<Rightarrow> nat \<Rightarrow> addr \<Rightarrow> int" where
  "drm_atomic_plane_check hk w plane state =
     (let s = plane_mem w state
      in (case (ps_crtc s, ps_fb s) of
            (Some c, None) \<Rightarrow> - EINVAL
          | (None, Some fb) \<Rightarrow> - EINVAL
          | (None, None) \<Rightarrow> 0
          | (Some c, Some fb) \<Rightarrow>
              if possible_crtcs (planes_of (dev w) plane) AND index_bit c = 0 then - EINVAL
              else
                (let ret = plane_check_pixel_format hk plane (pixel_format fb)
                 in if ret \<noteq> 0 then ret
                    else if uint (crtc_w s) > INT_MAX \<or>
                            sint (crtc_x s) > INT_MAX - sint (crtc_w s) \<or>
                            uint (crtc_h s) > INT_MAX \<or>
                            sint (crtc_y s) > INT_MAX - sint (crtc_h s)
                      then - ERANGE
                    else
                      (let fb_width = push_bit 16 (width fb);
                           fb_height = push_bit 16 (height fb)
                       in if src_w s > fb_width \<or> src_x s > fb_width - src_w s \<or>
                             src_h s > fb_height \<or> src_y s > fb_height - src_h s
                          then - ENOSPC
                          else if plane_switching_crtc w plane state then - EINVAL
                          else 0))))"

text \<open>
  The source-geometry requirement in the words of the specification: the rectangle, in
  16.16 fixed point, lies fully within the framebuffer's pixel dimensions.
\<close>

definition src_inside_fb :: "drm_plane_state \<Rightarrow> drm_framebuffer \<Rightarrow> bool" where
  "src_inside_fb s fb \<longleftrightarrow>
     unat (src_x s) + unat (src_w s) \<le> unat (width fb) * 65536 \<and>
     unat (src_y s) + unat (src_h s) \<le> unat (height fb) * 65536"


subsection \<open>State duplication and release\<close>

definition empty_crtc_entry :: crtc_entry where
  "empty_crtc_entry =
     \<lparr>ce_ptr = None, ce_state = None, ce_commit = None, ce_out_fence_ptr = None\<rparr>"

definition empty_plane_entry :: plane_entry where
  "empty_plane_entry = \<lparr>pe_ptr = None, pe_state = None\<rparr>"

text \<open>\<open>kref_put\<close> on the commit record, with \<open>crtc_commit_free\<close> as the release.\<close>

definition drm_crtc_commit_put :: "'e world \<Rightarrow> addr \<Rightarrow> 'e world" where
  "drm_crtc_commit_put w commit =
     (let c = commit_mem w commit;
          w1 = w\<lparr>commit_mem := (commit_mem w)(commit := c\<lparr>commit_ref := commit_ref c - 1\<rparr>)\<rparr>
      in if commit_ref c - 1 = 0 then log (Kfree_commit commit) w1 else w1)"

definition drm_atomic_state_default_release :: "'e world \<Rightarrow> 'e world" where
  "drm_atomic_state_default_release w =
     log Release_arrays (w\<lparr>txn := (txn w)\<lparr>connectors := [], crtcs := [], planes := []\<rparr>\<rparr>)"

definition drm_atomic_state_init :: "'e hooks \<Rightarrow> 'e world \<Rightarrow> int \<times> 'e world" where
  "drm_atomic_state_init hk w =
     (let config = mode_config (dev w);
          w0 = w\<lparr>txn := (txn w)\<lparr>allow_modeset := True\<rparr>\<rparr>
      in (case kmalloc hk (ext w0) of
            (False, e) \<Rightarrow> (- ENOMEM, drm_atomic_state_default_release (w0\<lparr>ext := e\<rparr>))
          | (True, e) \<Rightarrow>
              (let w1 = w0\<lparr>ext := e,
                           txn := (txn w0)\<lparr>crtcs :=
                              replicate (num_crtc config) empty_crtc_entry\<rparr>\<rparr>
               in (case kmalloc hk (ext w1) of
                     (False, e1) \<Rightarrow>
                       (- ENOMEM, drm_atomic_state_default_release (w1\<lparr>ext := e1\<rparr>))
                   | (True, e1) \<Rightarrow>
                       (0, w1\<lparr>ext := e1,
                               txn := (txn w1)\<lparr>planes :=
                                  replicate (num_total_plane config) empty_plane_entry\<rparr>\<rparr>)))))"

text \<open>
  \<open>drm_atomic_state_alloc\<close> returns the new transaction or \<open>NULL\<close>; here it returns
  whether it succeeded, and the world with the new, zeroed transaction in place.
\<close>

definition drm_atomic_state_alloc :: "'e hooks \<Rightarrow> 'e world \<Rightarrow> bool \<times> 'e world" where
  "drm_atomic_state_alloc hk w =
     (case atomic_state_alloc hk of
        None \<Rightarrow>
          (case kmalloc hk (ext w) of
             (False, e) \<Rightarrow> (False, w\<lparr>ext := e\<rparr>)
           | (True, e) \<Rightarrow>
               (case drm_atomic_state_init hk
                       (w\<lparr>ext := e,
                          txn := \<lparr>allow_modeset = False, acquire_ctx = None, crtcs = [],
                                  planes = [], connectors = []\<rparr>\<rparr>) of
                  (ret, w1) \<Rightarrow> if ret < 0 then (False, w1) else (True, w1)))
      | Some f \<Rightarrow> run_hook f w)"

text \<open>The bodies of the three loops of \<open>drm_atomic_state_default_clear\<close>.\<close>

definition clear_connector_entry :: "'e hooks \<Rightarrow> nat \<Rightarrow> 'e world \<Rightarrow> 'e world" where
  "clear_connector_entry hk i w =
     (case cne_ptr (connectors (txn w) ! i) of
        None \<Rightarrow> w
      | Some connector \<Rightarrow>
          (let st = cne_state (connectors (txn w) ! i);
               w1 = log (Connector_destroy_state connector st)
                      (w\<lparr>ext := connector_destroy_state hk connector st (ext w)\<rparr>);
               w2 = set_connector_entry i (\<lambda>en. en\<lparr>cne_ptr := None, cne_state := None\<rparr>) w1
           in log (Connector_unreference connector) w2))"

definition clear_crtc_entry :: "'e hooks \<Rightarrow> nat \<Rightarrow> 'e world \<Rightarrow> 'e world" where
  "clear_crtc_entry hk i w =
     (case ce_ptr (crtcs (txn w) ! i) of
        None \<Rightarrow> w
      | Some crtc \<Rightarrow>
          (let st = ce_state (crtcs (txn w) ! i);
               w1 = log (Crtc_destroy_state crtc st)
                      (w\<lparr>ext := crtc_destroy_state hk crtc st (ext w)\<rparr>);
               w2 = (case ce_commit (crtcs (txn w1) ! i) of
                       None \<Rightarrow> w1
                     | Some commit \<Rightarrow>
                         (let w3 = (case commit_event (commit_mem w1 commit) of
                                      None \<Rightarrow> w1
                                    | Some ev \<Rightarrow> log (Kfree_event ev) w1);
                              w4 = w3\<lparr>commit_mem := (commit_mem w3)
                                        (commit := (commit_mem w3 commit)
                                           \<lparr>commit_event := None\<rparr>)\<rparr>
                          in drm_crtc_commit_put w4 commit))
           in set_crtc_entry i
                (\<lambda>en. en\<lparr>ce_commit := None, ce_ptr := None, ce_state := None\<rparr>) w2))"

definition clear_plane_entry :: "'e hooks \<Rightarrow> nat \<Rightarrow> 'e world \<Rightarrow> 'e world" where
  "clear_plane_entry hk i w =
     (case pe_ptr (planes (txn w) ! i) of
        None \<Rightarrow> w
      | Some plane \<Rightarrow>
          (let st = pe_state (planes (txn w) ! i);
               w1 = log (Plane_destroy_state plane st)
                      (w\<lparr>ext := plane_destroy_state hk plane st (ext w)\<rparr>)
           in set_plane_entry i (\<lambda>en. en\<lparr>pe_ptr := None, pe_state := None\<rparr>) w1))"

definition drm_atomic_state_default_clear :: "'e hooks \<Rightarrow> 'e world \<Rightarrow> 'e world" where
  "drm_atomic_state_default_clear hk w =
     (let config = mode_config (dev w);
          w1 = fold (clear_connector_entry hk) [0..<length (connectors (txn w))] w;
          w2 = fold (clear_crtc_entry hk) [0..<num_crtc config] w1
      in fold (clear_plane_entry hk) [0..<num_total_plane config] w2)"

definition drm_atomic_state_clear :: "'e hooks \<Rightarrow> 'e world \<Rightarrow> 'e world" where
  "drm_atomic_state_clear hk w =
     (case atomic_state_clear hk of
        Some f \<Rightarrow> snd (run_hook (\<lambda>w. ((), f w)) (log Atomic_state_clear w))
      | None \<Rightarrow> drm_atomic_state_default_clear hk w)"

text \<open>\<open>drm_atomic_state_free\<close> of a transaction that is not \<open>NULL\<close>.\<close>

definition drm_atomic_state_free :: "'e hooks \<Rightarrow> 'e world \<Rightarrow> 'e world" where
  "drm_atomic_state_free hk w =
     (let w1 = drm_atomic_state_clear hk w
      in (case atomic_state_free hk of
            Some f \<Rightarrow> snd (run_hook (\<lambda>w. ((), f w)) (log Atomic_state_free w1))
          | None \<Rightarrow> drm_atomic_state_default_release w1))"

text \<open>The calls of a destroy-state hook in a trace.\<close>

fun is_destroy :: "call \<Rightarrow> bool" where
  "is_destroy (Crtc_destroy_state i p) = True"
| "is_destroy (Plane_destroy_state i p) = True"
| "is_destroy (Connector_destroy_state i p) = True"
| "is_destroy other = False"

text \<open>
  The destroy calls that the populated entries of a transaction are owed: one for each
  entry with an object pointer, on that object and the entry's snapshot, in the order of
  the three loops.
\<close>

definition connector_destroys :: "connector_entry \<Rightarrow> call list" where
  "connector_destroys en =
     (case cne_ptr en of None \<Rightarrow> [] | Some c \<Rightarrow> [Connector_destroy_state c (cne_state en)])"

definition crtc_destroys :: "crtc_entry \<Rightarrow> call list" where
  "crtc_destroys en =
     (case ce_ptr en of None \<Rightarrow> [] | Some c \<Rightarrow> [Crtc_destroy_state c (ce_state en)])"

definition plane_destroys :: "plane_entry \<Rightarrow> call list" where
  "plane_destroys en =
     (case pe_ptr en of None \<Rightarrow> [] | Some c \<Rightarrow> [Plane_destroy_state c (pe_state en)])"

definition owed_destroys :: "drm_atomic_state \<Rightarrow> call list" where
  "owed_destroys t =
     concat (map connector_destroys (connectors t)) @
     concat (map crtc_destroys (crtcs t)) @
     concat (map plane_destroys (planes t))"

text \<open>
  All the calls that a clear owes: for a populated connector entry the destroy-state call
  and the drop of the connector reference; for a populated CRTC entry the destroy-state
  call and, if it has a pending commit record, the release of that record's event and of
  the record itself when its last reference goes; for a populated plane entry the
  destroy-state call.  \<open>pending_commits\<close> lists the commit records of the populated
  CRTC entries.
\<close>

definition connector_releases :: "connector_entry \<Rightarrow> call list" where
  "connector_releases en =
     (case cne_ptr en of
        None \<Rightarrow> []
      | Some c \<Rightarrow> [Connector_destroy_state c (cne_state en), Connector_unreference c])"

definition crtc_releases :: "(addr \<Rightarrow> drm_crtc_commit) \<Rightarrow> crtc_entry \<Rightarrow> call list" where
  "crtc_releases cm en =
     (case ce_ptr en of
        None \<Rightarrow> []
      | Some c \<Rightarrow>
          Crtc_destroy_state c (ce_state en) #
          (case ce_commit en of
             None \<Rightarrow> []
           | Some m \<Rightarrow>
               (case commit_event (cm m) of None \<Rightarrow> [] | Some ev \<Rightarrow> [Kfree_event ev]) @
               (if commit_ref (cm m) - 1 = 0 then [Kfree_commit m] else [])))"

definition owed_releases :: "'e world \<Rightarrow> call list" where
  "owed_releases w =
     concat (map connector_releases (connectors (txn w))) @
     concat (map (crtc_releases (commit_mem w)) (crtcs (txn w))) @
     concat (map plane_destroys (planes (txn w)))"

definition pending_commit :: "crtc_entry \<Rightarrow> addr list" where
  "pending_commit en =
     (case ce_ptr en of
        None \<Rightarrow> []
      | Some c \<Rightarrow> (case ce_commit en of None \<Rightarrow> [] | Some m \<Rightarrow> [m]))"

definition pending_commits :: "drm_atomic_state \<Rightarrow> addr list" where
  "pending_commits t = concat (map pending_commit (crtcs t))"

text \<open>
  The frees of commit records and of their events among the calls, and the effect of a
  destroy-state call on the state outside this file.
\<close>

fun is_kfree :: "call \<Rightarrow> bool" where
  "is_kfree (Kfree_event e) = True"
| "is_kfree (Kfree_commit m) = True"
| "is_kfree c = False"

fun run_destroy :: "'e hooks \<Rightarrow> call \<Rightarrow> 'e \<Rightarrow> 'e" where
  "run_destroy hk (Connector_destroy_state c st) x = connector_destroy_state hk c st x"
| "run_destroy hk (Crtc_destroy_state c st) x = crtc_destroy_state hk c st x"
| "run_destroy hk (Plane_destroy_state c st) x = plane_destroy_state hk c st x"
| "run_destroy hk c x = x"

text \<open>
  The calls that a clear owes whatever the commit records are: the destroy-state calls
  and the drops of the connector references.
\<close>

definition owed_drops :: "drm_atomic_state \<Rightarrow> call list" where
  "owed_drops t =
     concat (map connector_releases (connectors t)) @
     concat (map crtc_destroys (crtcs t)) @
     concat (map plane_destroys (planes t))"

subsection \<open>Property dispatch: CRTCs and connectors\<close>

definition set_out_fence_for_crtc :: "'e world \<Rightarrow> nat \<Rightarrow> u64 \<Rightarrow> 'e world" where
  "set_out_fence_for_crtc w crtc fence_ptr =
     set_crtc_entry crtc (\<lambda>en. en\<lparr>ce_out_fence_ptr := Some fence_ptr\<rparr>) w"

definition get_out_fence_for_crtc :: "'e world \<Rightarrow> nat \<Rightarrow> u64 option \<times> 'e world" where
  "get_out_fence_for_crtc w crtc =
     (ce_out_fence_ptr (crtcs (txn w) ! crtc),
      set_crtc_entry crtc (\<lambda>en. en\<lparr>ce_out_fence_ptr := None\<rparr>) w)"

definition property_unreference_blob :: "'e world \<Rightarrow> drm_property_blob option \<Rightarrow> 'e world" where
  "property_unreference_blob w blob =
     (case blob of None \<Rightarrow> w | Some b \<Rightarrow> log (Blob_unreference (blob_id b)) w)"

definition property_reference_blob :: "'e world \<Rightarrow> drm_property_blob option \<Rightarrow> 'e world" where
  "property_reference_blob w blob =
     (case blob of None \<Rightarrow> w | Some b \<Rightarrow> log (Blob_reference (blob_id b)) w)"

text \<open>\<open>sizeof(struct drm_mode_modeinfo)\<close> and \<open>sizeof(struct drm_color_ctm)\<close>.\<close>

abbreviation sizeof_drm_mode_modeinfo :: nat where "sizeof_drm_mode_modeinfo \<equiv> 68"
abbreviation sizeof_drm_color_ctm :: int where "sizeof_drm_color_ctm \<equiv> 72"

definition drm_atomic_set_mode_prop_for_crtc ::
  "'e hooks \<Rightarrow> 'e world \<Rightarrow> addr \<Rightarrow> drm_property_blob option \<Rightarrow> int \<times> 'e world" where
  "drm_atomic_set_mode_prop_for_crtc hk w state blob =
     (if blob = mode_blob (crtc_mem w state) then (0, w)
      else
        (let w1 = property_unreference_blob w (mode_blob (crtc_mem w state));
             w2 = upd_crtc_state state (\<lambda>s. s\<lparr>mode_blob := None, cs_mode := []\<rparr>) w1
         in (case blob of
               None \<Rightarrow> (0, upd_crtc_state state (\<lambda>s. s\<lparr>enable := False\<rparr>) w2)
             | Some b \<Rightarrow>
                 if blob_length b \<noteq> sizeof_drm_mode_modeinfo then (- EINVAL, w2)
                 else
                   (case mode_convert_umode hk (blob_data b) of
                      (ret, m) \<Rightarrow>
                        (let w3 = upd_crtc_state state (\<lambda>s. s\<lparr>cs_mode := m\<rparr>) w2
                         in if ret \<noteq> 0 then (- EINVAL, w3)
                            else
                              (0, upd_crtc_state state
                                    (\<lambda>s. s\<lparr>mode_blob := Some b, enable := True\<rparr>)
                                    (property_reference_blob w3 (Some b))))))))"

datatype blob_field = Degamma_lut | Ctm | Gamma_lut

definition get_blob :: "blob_field \<Rightarrow> drm_crtc_state \<Rightarrow> drm_property_blob option" where
  "get_blob f s = (case f of Degamma_lut \<Rightarrow> degamma_lut s | Ctm \<Rightarrow> ctm s | Gamma_lut \<Rightarrow> gamma_lut s)"

definition set_blob ::
  "blob_field \<Rightarrow> drm_property_blob option \<Rightarrow> drm_crtc_state \<Rightarrow> drm_crtc_state" where
  "set_blob f b s =
     (case f of
        Degamma_lut \<Rightarrow> s\<lparr>degamma_lut := b\<rparr>
      | Ctm \<Rightarrow> s\<lparr>ctm := b\<rparr>
      | Gamma_lut \<Rightarrow> s\<lparr>gamma_lut := b\<rparr>)"

text \<open>The result carries what the code stores through \<open>replaced\<close>.\<close>

definition drm_atomic_replace_property_blob ::
  "'e world \<Rightarrow> addr \<Rightarrow> blob_field \<Rightarrow> drm_property_blob option \<Rightarrow> bool \<times> 'e world" where
  "drm_atomic_replace_property_blob w state field new_blob =
     (let old_blob = get_blob field (crtc_mem w state)
      in if old_blob = new_blob then (False, w)
         else
           (let w1 = property_unreference_blob w old_blob;
                w2 = property_reference_blob w1 new_blob
            in (True, upd_crtc_state state (set_blob field new_blob) w2)))"

definition drm_atomic_replace_property_blob_from_id ::
  "'e hooks \<Rightarrow> 'e world \<Rightarrow> addr \<Rightarrow> blob_field \<Rightarrow> u64 \<Rightarrow> int \<Rightarrow> int \<times> bool \<times> 'e world" where
  "drm_atomic_replace_property_blob_from_id hk w state field bid expected_size =
     (if bid \<noteq> 0 then
        (case property_lookup_blob hk bid w of
           None \<Rightarrow> (- EINVAL, False, w)
         | Some new_blob \<Rightarrow>
             if expected_size > 0 \<and> expected_size \<noteq> int (blob_length new_blob)
             then (- EINVAL, False, property_unreference_blob w (Some new_blob))
             else
               (case drm_atomic_replace_property_blob w state field (Some new_blob) of
                  (replaced, w1) \<Rightarrow>
                    (0, replaced, property_unreference_blob w1 (Some new_blob))))
      else
        (case drm_atomic_replace_property_blob w state field None of
           (replaced, w1) \<Rightarrow> (0, replaced, w1)))"

definition set_color_blob ::
  "'e hooks \<Rightarrow> 'e world \<Rightarrow> addr \<Rightarrow> blob_field \<Rightarrow> u64 \<Rightarrow> int \<Rightarrow> int \<times> 'e world" where
  "set_color_blob hk w state field val expected_size =
     (case drm_atomic_replace_property_blob_from_id hk w state field val expected_size of
        (ret, replaced, w1) \<Rightarrow>
          (ret, upd_crtc_state state
                  (\<lambda>s. s\<lparr>color_mgmt_changed := color_mgmt_changed s \<or> replaced\<rparr>) w1))"

definition drm_atomic_crtc_set_property ::
  "'e hooks \<Rightarrow> 'e world \<Rightarrow> nat \<Rightarrow> addr \<Rightarrow> nat \<Rightarrow> u64 \<Rightarrow> int \<times> 'e world" where
  "drm_atomic_crtc_set_property hk w crtc state property val =
     (let config = mode_config (dev w)
      in if property = prop_active config then
           (0, upd_crtc_state state (\<lambda>s. s\<lparr>active := (val \<noteq> 0)\<rparr>) w)
         else if property = prop_mode_id config then
           (let mode = property_lookup_blob hk val w
            in (case drm_atomic_set_mode_prop_for_crtc hk w state mode of
                  (ret, w1) \<Rightarrow> (ret, property_unreference_blob w1 mode)))
         else if property = degamma_lut_property config then
           set_color_blob hk w state Degamma_lut val (- 1)
         else if property = ctm_property config then
           set_color_blob hk w state Ctm val sizeof_drm_color_ctm
         else if property = gamma_lut_property config then
           set_color_blob hk w state Gamma_lut val (- 1)
         else if property = prop_out_fence_ptr config then
           (if val = 0 then (0, w)
            else
              (case put_user hk val (- 1) (ext w) of
                 (r, e) \<Rightarrow>
                   (let w1 = log (Put_user val (- 1)) (w\<lparr>ext := e\<rparr>)
                    in if r \<noteq> 0 then (- EFAULT, w1)
                       else (0, set_out_fence_for_crtc w1 crtc val))))
         else
           (case crtc_set_property hk of
              Some f \<Rightarrow> run_hook (f crtc state property val) w
            | None \<Rightarrow> (- EINVAL, w)))"

definition drm_atomic_connector_set_property ::
  "'e hooks \<Rightarrow> 'e world \<Rightarrow> nat \<Rightarrow> addr \<Rightarrow> nat \<Rightarrow> u64 \<Rightarrow> int \<times> 'e world" where
  "drm_atomic_connector_set_property hk w connector state property val =
     (let config = mode_config (dev w)
      in if property = prop_crtc_id config then
           drm_atomic_set_crtc_for_connector hk w state (crtc_find hk val w)
         else if property = dpms_property config then (- EINVAL, w)
         else
           (case connector_set_property hk of
              Some f \<Rightarrow> run_hook (f connector state property val) w
            | None \<Rightarrow> (- EINVAL, w)))"

subsection \<open>Check-only and the two commits\<close>

text \<open>
  Modelled from the spec: a CRTC state requires a full reconfiguration when its check has
  flagged a mode change; \<open>drm_atomic_crtc_needs_modeset\<close> is an inline function of
  \<open>drm_atomic.h\<close>, which is not among the sources.  The loops below are the macros
  \<open>for_each_plane_in_state\<close> and \<open>for_each_crtc_in_state\<close> of the same header: they
  visit, in index order, the entries whose state is set.  An entry with a state but no
  object pointer makes the code dereference \<open>NULL\<close>.
\<close>

definition drm_atomic_crtc_needs_modeset :: "drm_crtc_state \<Rightarrow> bool" where
  "drm_atomic_crtc_needs_modeset s \<longleftrightarrow>
     mode_changed s \<or> active_changed s \<or> connectors_changed s"

fun check_planes :: "'e hooks \<Rightarrow> 'e world \<Rightarrow> nat list \<Rightarrow> int \<times> 'e world" where
  "check_planes hk w [] = (0, w)"
| "check_planes hk w (i # is) =
     (case pe_state (planes (txn w) ! i) of
        None \<Rightarrow> check_planes hk w is
      | Some plane_state \<Rightarrow>
          (case pe_ptr (planes (txn w) ! i) of
             None \<Rightarrow> (- EFAULT, w\<lparr>fault := True\<rparr>)
           | Some plane \<Rightarrow>
               (let ret = drm_atomic_plane_check hk w plane plane_state
                in if ret \<noteq> 0 then (ret, w) else check_planes hk w is)))"

fun check_crtcs :: "'e world \<Rightarrow> nat list \<Rightarrow> int \<times> 'e world" where
  "check_crtcs w [] = (0, w)"
| "check_crtcs w (i # is) =
     (case ce_state (crtcs (txn w) ! i) of
        None \<Rightarrow> check_crtcs w is
      | Some crtc_state \<Rightarrow>
          (case ce_ptr (crtcs (txn w) ! i) of
             None \<Rightarrow> (- EFAULT, w\<lparr>fault := True\<rparr>)
           | Some crtc \<Rightarrow>
               (let ret = drm_atomic_crtc_check w crtc crtc_state
                in if ret \<noteq> 0 then (ret, w) else check_crtcs w is)))"

fun crtcs_need_modeset :: "'e world \<Rightarrow> nat list \<Rightarrow> bool" where
  "crtcs_need_modeset w [] = False"
| "crtcs_need_modeset w (i # is) =
     (case ce_state (crtcs (txn w) ! i) of
        None \<Rightarrow> crtcs_need_modeset w is
      | Some crtc_state \<Rightarrow>
          if drm_atomic_crtc_needs_modeset (crtc_mem w crtc_state) then True
          else crtcs_need_modeset w is)"

definition call_atomic_check :: "'e hooks \<Rightarrow> 'e world \<Rightarrow> int \<times> 'e world" where
  "call_atomic_check hk w =
     (case atomic_check hk of
        None \<Rightarrow> (0, w)
      | Some f \<Rightarrow> run_hook f (log Atomic_check w))"

definition drm_atomic_check_only :: "'e hooks \<Rightarrow> 'e world \<Rightarrow> int \<times> 'e world" where
  "drm_atomic_check_only hk w =
     (case check_planes hk w [0..<num_total_plane (mode_config (dev w))] of
        (ret, w1) \<Rightarrow>
          if ret \<noteq> 0 then (ret, w1)
          else
            (case check_crtcs w1 [0..<num_crtc (mode_config (dev w1))] of
               (ret, w2) \<Rightarrow>
                 if ret \<noteq> 0 then (ret, w2)
                 else
                   (case call_atomic_check hk w2 of
                      (ret, w3) \<Rightarrow>
                        if ret \<noteq> 0 then (ret, w3)
                        else if \<not> allow_modeset (txn w3) \<and>
                                crtcs_need_modeset w3 [0..<num_crtc (mode_config (dev w3))]
                          then (- EINVAL, w3)
                        else (0, w3))))"

definition call_atomic_commit :: "'e hooks \<Rightarrow> bool \<Rightarrow> 'e world \<Rightarrow> int \<times> 'e world" where
  "call_atomic_commit hk nonblock w =
     run_hook (atomic_commit hk nonblock) (log (Atomic_commit nonblock) w)"

definition drm_atomic_commit :: "'e hooks \<Rightarrow> 'e world \<Rightarrow> int \<times> 'e world" where
  "drm_atomic_commit hk w =
     (case drm_atomic_check_only hk w of
        (ret, w1) \<Rightarrow> if ret \<noteq> 0 then (ret, w1) else call_atomic_commit hk False w1)"

definition drm_atomic_nonblocking_commit :: "'e hooks \<Rightarrow> 'e world \<Rightarrow> int \<times> 'e world" where
  "drm_atomic_nonblocking_commit hk w =
     (case drm_atomic_check_only hk w of
        (ret, w1) \<Rightarrow> if ret \<noteq> 0 then (ret, w1) else call_atomic_commit hk True w1)"

text \<open>Check-only called \<open>n\<close> times in a row: the results, and the world at the end.\<close>

fun check_only_times :: "'e hooks \<Rightarrow> nat \<Rightarrow> 'e world \<Rightarrow> int list \<times> 'e world" where
  "check_only_times hk 0 w = ([], w)"
| "check_only_times hk (Suc n) w =
     (case drm_atomic_check_only hk w of
        (ret, w1) \<Rightarrow> (case check_only_times hk n w1 of (rets, w2) \<Rightarrow> (ret # rets, w2)))"

subsection \<open>The atomic ioctl\<close>

text \<open>
  The flag bits of \<open>struct drm_mode_atomic\<close>, and the lock-context calls of the ioctl:
  backing off after a deadlock and dropping all locks at the end.
\<close>

abbreviation (input) DRM_MODE_PAGE_FLIP_EVENT :: u32 where "DRM_MODE_PAGE_FLIP_EVENT \<equiv> 0x01"
abbreviation (input) DRM_MODE_PAGE_FLIP_ASYNC :: u32 where "DRM_MODE_PAGE_FLIP_ASYNC \<equiv> 0x02"
abbreviation (input) DRM_MODE_ATOMIC_TEST_ONLY :: u32 where "DRM_MODE_ATOMIC_TEST_ONLY \<equiv> 0x0100"
abbreviation (input) DRM_MODE_ATOMIC_NONBLOCK :: u32 where "DRM_MODE_ATOMIC_NONBLOCK \<equiv> 0x0200"
abbreviation (input) DRM_MODE_ATOMIC_ALLOW_MODESET :: u32 where "DRM_MODE_ATOMIC_ALLOW_MODESET \<equiv> 0x0400"
abbreviation (input) DRM_MODE_ATOMIC_FLAGS :: u32 where "DRM_MODE_ATOMIC_FLAGS \<equiv> 0x0703"

definition flag_set :: "drm_mode_atomic \<Rightarrow> u32 \<Rightarrow> bool" where
  "flag_set arg f \<longleftrightarrow> flags arg AND f \<noteq> 0"

definition drm_modeset_backoff :: "'e hooks \<Rightarrow> 'e world \<Rightarrow> 'e world" where
  "drm_modeset_backoff hk w = log Modeset_backoff (w\<lparr>ext := modeset_backoff hk (ext w)\<rparr>)"

definition drm_modeset_drop_locks :: "'e hooks \<Rightarrow> 'e world \<Rightarrow> 'e world" where
  "drm_modeset_drop_locks hk w =
     log Modeset_drop_locks (w\<lparr>ext := modeset_drop_locks hk (ext w)\<rparr>)"

definition create_vblank_event ::
  "'e hooks \<Rightarrow> 'e world \<Rightarrow> u64 \<Rightarrow> addr option \<times> 'e world" where
  "create_vblank_event hk w data =
     (case kmalloc hk (ext w) of
        (False, x) \<Rightarrow> (None, w\<lparr>ext := x\<rparr>)
      | (True, x) \<Rightarrow>
          (let p = next_addr w
           in (Some p,
               w\<lparr>ext := x, next_addr := Suc p,
                 event_mem := (event_mem w)
                   (p := \<lparr>ev_user_data = data, ev_fence = None, ev_file_priv = False\<rparr>)\<rparr>)))"

text \<open>
  \<open>atomic_set_prop\<close> gets or creates the state of the object and dispatches to the
  setter of its kind.  The reference that the value check may take on an object is
  dropped again before the return and is not followed here.
\<close>

definition atomic_set_prop ::
  "'e hooks \<Rightarrow> 'e world \<Rightarrow> drm_mode_object \<Rightarrow> nat \<Rightarrow> u64 \<Rightarrow> int \<times> 'e world" where
  "atomic_set_prop hk w obj prop prop_value =
     (if \<not> property_change_valid_get hk prop prop_value w then (- EINVAL, w)
      else
        (case obj_type obj of
           None \<Rightarrow> (- EINVAL, w)
         | Some (Connector connector) \<Rightarrow>
             (case drm_atomic_get_connector_state hk w connector of
                (Inl err, w1) \<Rightarrow> (err, w1)
              | (Inr connector_state, w1) \<Rightarrow>
                  drm_atomic_connector_set_property hk w1 connector connector_state
                    prop prop_value)
         | Some (Crtc crtc) \<Rightarrow>
             (case drm_atomic_get_crtc_state hk w crtc of
                (Inl err, w1) \<Rightarrow> (err, w1)
              | (Inr crtc_state, w1) \<Rightarrow>
                  drm_atomic_crtc_set_property hk w1 crtc crtc_state prop prop_value)
         | Some (Plane plane) \<Rightarrow>
             (case drm_atomic_get_plane_state hk w plane of
                (Inl err, w1) \<Rightarrow> (err, w1)
              | (Inr plane_state, w1) \<Rightarrow>
                  drm_atomic_plane_set_property hk w1 plane plane_state prop prop_value)))"

text \<open>\<open>drm_atomic_clean_old_fb\<close>: the legacy pointers of the planes in the mask.\<close>

definition upd_plane :: "nat \<Rightarrow> (drm_plane \<Rightarrow> drm_plane) \<Rightarrow> 'e world \<Rightarrow> 'e world" where
  "upd_plane p f w =
     w\<lparr>dev := (dev w)\<lparr>planes_of := (planes_of (dev w))(p := f (planes_of (dev w) p))\<rparr>\<rparr>"

definition clean_old_fb_plane :: "int \<Rightarrow> nat \<Rightarrow> 'e world \<Rightarrow> 'e world" where
  "clean_old_fb_plane ret p w =
     (let w1 =
        (if ret = 0 then
           (let plane = planes_of (dev w) p;
                st = plane_mem w (plane_state_ptr plane);
                new_fb = ps_fb st;
                w2 = (case new_fb of
                        None \<Rightarrow> w
                      | Some fb \<Rightarrow> log (Framebuffer_reference (fb_id fb)) w);
                w3 = upd_plane p (\<lambda>pl. pl\<lparr>plane_fb := new_fb, plane_crtc := ps_crtc st\<rparr>) w2
            in (case plane_old_fb plane of
                  None \<Rightarrow> w3
                | Some old \<Rightarrow> log (Framebuffer_unreference (fb_id old)) w3))
         else w)
      in upd_plane p (\<lambda>pl. pl\<lparr>plane_old_fb := None\<rparr>) w1)"

definition drm_atomic_clean_old_fb :: "'e world \<Rightarrow> u32 \<Rightarrow> int \<Rightarrow> 'e world" where
  "drm_atomic_clean_old_fb w pmask ret =
     fold (clean_old_fb_plane ret)
       (filter (\<lambda>p. pmask AND index_bit p \<noteq> 0)
          [0..<num_total_plane (mode_config (dev w))]) w"

text \<open>
  Out-fences.  \<open>setup_out_fence\<close> fills one element of the fence-state array; the
  element is passed in and returned.
\<close>

definition setup_out_fence ::
  "'e hooks \<Rightarrow> 'e world \<Rightarrow> drm_out_fence_state \<Rightarrow> nat \<Rightarrow>
   int \<times> drm_out_fence_state \<times> 'e world" where
  "setup_out_fence hk w f fence =
     (case get_unused_fd_flags hk (ext w) of
        (n, x) \<Rightarrow>
          (let f1 = f\<lparr>fd := n\<rparr>; w1 = w\<lparr>ext := x\<rparr>
           in if n < 0 then (n, f1, w1)
              else
                (case put_user hk (out_fence_ptr f1) n (ext w1) of
                   (r, x1) \<Rightarrow>
                     (let w2 = log (Put_user (out_fence_ptr f1) n) (w1\<lparr>ext := x1\<rparr>)
                      in if r \<noteq> 0 then (- EFAULT, f1, w2)
                         else
                           (case sync_file_create hk fence (ext w2) of
                              (sf, x2) \<Rightarrow>
                                (let f2 = f1\<lparr>sync_file := sf\<rparr>; w3 = w2\<lparr>ext := x2\<rparr>
                                 in if sf = None then (- ENOMEM, f2, w3)
                                    else (0, f2, w3)))))))"

text \<open>
  The body of the loop of \<open>prepare_crtc_signaling\<close>, in three parts: the event is
  created, it is reserved for the file, and the out-fence is set up.  The event that
  was just stored is read back from the CRTC state, as the code does; a successful
  reservation records the file in the event.
\<close>

definition prepare_event ::
  "'e hooks \<Rightarrow> drm_mode_atomic \<Rightarrow> u64 option \<Rightarrow> addr \<Rightarrow> 'e world \<Rightarrow> bool \<times> 'e world" where
  "prepare_event hk arg fence_ptr crtc_state w =
     (if flag_set arg DRM_MODE_PAGE_FLIP_EVENT \<or> fence_ptr \<noteq> None then
        (case create_vblank_event hk w (arg_user_data arg) of
           (None, w1) \<Rightarrow> (False, w1)
         | (Some e, w1) \<Rightarrow> (True, upd_crtc_state crtc_state (\<lambda>s. s\<lparr>event := Some e\<rparr>) w1))
      else (True, w))"

definition reserve_event :: "'e hooks \<Rightarrow> addr \<Rightarrow> 'e world \<Rightarrow> int \<times> 'e world" where
  "reserve_event hk crtc_state w =
     (case event (crtc_mem w crtc_state) of
        None \<Rightarrow> (- EFAULT, w\<lparr>fault := True\<rparr>)
      | Some e \<Rightarrow>
          (case event_reserve_init hk (ext w) of
             (ret, x) \<Rightarrow>
               (let w1 = w\<lparr>ext := x\<rparr>
                in if ret \<noteq> 0
                   then (ret, upd_crtc_state crtc_state (\<lambda>s. s\<lparr>event := None\<rparr>)
                                (log (Kfree_event e) w1))
                   else (0, w1\<lparr>event_mem := (event_mem w1)
                                 (e := (event_mem w1 e)\<lparr>ev_file_priv := True\<rparr>)\<rparr>))))"

definition prepare_out_fence ::
  "'e hooks \<Rightarrow> nat \<Rightarrow> addr \<Rightarrow> u64 \<Rightarrow> 'e world \<Rightarrow> drm_out_fence_state list option \<Rightarrow> nat \<Rightarrow>
   int \<times> 'e world \<times> drm_out_fence_state list option \<times> nat" where
  "prepare_out_fence hk crtc crtc_state fence_ptr w fence_state num_fences =
     (case kmalloc hk (ext w) of
        (False, x) \<Rightarrow> (- ENOMEM, w\<lparr>ext := x\<rparr>, fence_state, num_fences)
      | (True, x) \<Rightarrow>
          (let f = take num_fences (case fence_state of None \<Rightarrow> [] | Some l \<Rightarrow> l) @
                     [\<lparr>out_fence_ptr = fence_ptr, sync_file = None, fd = 0\<rparr>];
               w1 = w\<lparr>ext := x\<rparr>
           in (case crtc_create_fence hk crtc (ext w1) of
                 (None, x1) \<Rightarrow> (- ENOMEM, w1\<lparr>ext := x1\<rparr>, Some f, num_fences)
               | (Some fence, x1) \<Rightarrow>
                   (case setup_out_fence hk (w1\<lparr>ext := x1\<rparr>) (f ! num_fences) fence of
                      (ret, f1, w2) \<Rightarrow>
                        (let fs1 = Some (f[num_fences := f1])
                         in if ret \<noteq> 0
                            then (ret, log (Fence_put fence) w2, fs1, Suc num_fences)
                            else
                              (case event (crtc_mem w2 crtc_state) of
                                 None \<Rightarrow> (- EFAULT, w2\<lparr>fault := True\<rparr>, fs1, Suc num_fences)
                               | Some e \<Rightarrow>
                                   (0, w2\<lparr>event_mem := (event_mem w2)
                                            (e := (event_mem w2 e)\<lparr>ev_fence := Some fence\<rparr>)\<rparr>,
                                    fs1, Suc num_fences)))))))"

definition prepare_crtc ::
  "'e hooks \<Rightarrow> drm_mode_atomic \<Rightarrow> drm_file option \<Rightarrow> nat \<Rightarrow> addr \<Rightarrow> 'e world \<Rightarrow>
   drm_out_fence_state list option \<Rightarrow> nat \<Rightarrow>
   int \<times> 'e world \<times> drm_out_fence_state list option \<times> nat" where
  "prepare_crtc hk arg file_priv crtc crtc_state w fence_state num_fences =
     (case get_out_fence_for_crtc w crtc of
        (fence_ptr, w1) \<Rightarrow>
          (case prepare_event hk arg fence_ptr crtc_state w1 of
             (False, w2) \<Rightarrow> (- ENOMEM, w2, fence_state, num_fences)
           | (True, w2) \<Rightarrow>
               if flag_set arg DRM_MODE_PAGE_FLIP_EVENT \<and> file_priv = None
               then (0, w2, fence_state, num_fences)
               else
                 (case (if flag_set arg DRM_MODE_PAGE_FLIP_EVENT
                        then reserve_event hk crtc_state w2 else (0, w2)) of
                    (ret, w3) \<Rightarrow>
                      if ret \<noteq> 0 then (ret, w3, fence_state, num_fences)
                      else
                        (case fence_ptr of
                           None \<Rightarrow> (0, w3, fence_state, num_fences)
                         | Some p \<Rightarrow>
                             prepare_out_fence hk crtc crtc_state p w3
                               fence_state num_fences))))"

fun prepare_crtcs ::
  "'e hooks \<Rightarrow> drm_mode_atomic \<Rightarrow> drm_file option \<Rightarrow> nat list \<Rightarrow> 'e world \<Rightarrow>
   drm_out_fence_state list option \<Rightarrow> nat \<Rightarrow>
   int \<times> 'e world \<times> drm_out_fence_state list option \<times> nat" where
  "prepare_crtcs hk arg file_priv [] w fence_state num_fences =
     (0, w, fence_state, num_fences)"
| "prepare_crtcs hk arg file_priv (i # is) w fence_state num_fences =
     (case ce_state (crtcs (txn w) ! i) of
        None \<Rightarrow> prepare_crtcs hk arg file_priv is w fence_state num_fences
      | Some crtc_state \<Rightarrow>
          (case ce_ptr (crtcs (txn w) ! i) of
             None \<Rightarrow> (- EFAULT, w\<lparr>fault := True\<rparr>, fence_state, num_fences)
           | Some crtc \<Rightarrow>
               (case prepare_crtc hk arg file_priv crtc crtc_state w fence_state num_fences of
                  (ret, w1, fs1, nf1) \<Rightarrow>
                    if ret \<noteq> 0 then (ret, w1, fs1, nf1)
                    else prepare_crtcs hk arg file_priv is w1 fs1 nf1)))"

definition prepare_crtc_signaling ::
  "'e hooks \<Rightarrow> drm_mode_atomic \<Rightarrow> drm_file option \<Rightarrow> 'e world \<Rightarrow>
   drm_out_fence_state list option \<Rightarrow> nat \<Rightarrow>
   int \<times> 'e world \<times> drm_out_fence_state list option \<times> nat" where
  "prepare_crtc_signaling hk arg file_priv w fence_state num_fences =
     (if flag_set arg DRM_MODE_ATOMIC_TEST_ONLY then (0, w, fence_state, num_fences)
      else prepare_crtcs hk arg file_priv [0..<num_crtc (mode_config (dev w))] w
             fence_state num_fences)"

text \<open>\<open>complete_crtc_signaling\<close> and the bodies of its three loops.\<close>

definition install_fd :: "drm_out_fence_state \<Rightarrow> 'e world \<Rightarrow> 'e world" where
  "install_fd f w =
     (case sync_file f of
        None \<Rightarrow> w\<lparr>fault := True\<rparr>
      | Some sf \<Rightarrow> log (Fd_install (fd f) sf) w)"

definition cancel_event :: "nat \<Rightarrow> 'e world \<Rightarrow> 'e world" where
  "cancel_event i w =
     (case ce_state (crtcs (txn w) ! i) of
        None \<Rightarrow> w
      | Some crtc_state \<Rightarrow>
          (case event (crtc_mem w crtc_state) of
             None \<Rightarrow> w
           | Some ev \<Rightarrow>
               if ev_fence (event_mem w ev) \<noteq> None \<or> ev_file_priv (event_mem w ev)
               then upd_crtc_state crtc_state (\<lambda>s. s\<lparr>event := None\<rparr>)
                      (log (Event_cancel_free ev) w)
               else w))"

definition release_fence :: "'e hooks \<Rightarrow> drm_out_fence_state \<Rightarrow> 'e world \<Rightarrow> 'e world" where
  "release_fence hk f w =
     (let w1 = (case sync_file f of None \<Rightarrow> w | Some sf \<Rightarrow> log (Fput sf) w);
          w2 = (if 0 \<le> fd f then log (Put_unused_fd (fd f)) w1 else w1)
      in if out_fence_ptr f \<noteq> 0
         then (case put_user hk (out_fence_ptr f) (- 1) (ext w2) of
                 (r, x) \<Rightarrow> log (Put_user (out_fence_ptr f) (- 1)) (w2\<lparr>ext := x\<rparr>))
         else w2)"

definition complete_crtc_signaling ::
  "'e hooks \<Rightarrow> 'e world \<Rightarrow> drm_out_fence_state list option \<Rightarrow> nat \<Rightarrow> bool \<Rightarrow> 'e world" where
  "complete_crtc_signaling hk w fence_state num_fences install_fds =
     (if install_fds then
        log Kfree_fence_state
          (fold install_fd
             (take num_fences (case fence_state of None \<Rightarrow> [] | Some l \<Rightarrow> l)) w)
      else
        (let w1 = fold cancel_event [0..<num_crtc (mode_config (dev w))] w
         in (case fence_state of
               None \<Rightarrow> w1
             | Some l \<Rightarrow>
                 log Kfree_fence_state (fold (release_fence hk) (take num_fences l) w1))))"

text \<open>
  The two nested loops of the ioctl that copy the objects and their properties from the
  user arrays; the first argument after the object is the number of rounds left.
\<close>

fun set_props ::
  "'e hooks \<Rightarrow> drm_mode_object \<Rightarrow> nat \<Rightarrow> u32 \<Rightarrow> 'e world \<Rightarrow> int \<times> u32 \<times> 'e world" where
  "set_props hk obj 0 copied_props w = (0, copied_props, w)"
| "set_props hk obj (Suc n) copied_props w =
     (case get_user hk Props_ptr (unat copied_props) (ext w) of
        (None, x) \<Rightarrow> (- EFAULT, copied_props, w\<lparr>ext := x\<rparr>)
      | (Some prop_id, x) \<Rightarrow>
          (let w1 = w\<lparr>ext := x\<rparr>
           in (case obj_find_prop_id hk obj (ucast prop_id) w1 of
                 None \<Rightarrow> (- ENOENT, copied_props, w1)
               | Some prop \<Rightarrow>
                   (case get_user hk Prop_values_ptr (unat copied_props) (ext w1) of
                      (None, x1) \<Rightarrow> (- EFAULT, copied_props, w1\<lparr>ext := x1\<rparr>)
                    | (Some prop_value, x1) \<Rightarrow>
                        (case atomic_set_prop hk (w1\<lparr>ext := x1\<rparr>) obj prop prop_value of
                           (ret, w2) \<Rightarrow>
                             if ret \<noteq> 0 then (ret, copied_props, w2)
                             else set_props hk obj n (copied_props + 1) w2)))))"

definition note_old_fb ::
  "drm_mode_atomic \<Rightarrow> drm_mode_object \<Rightarrow> u32 \<Rightarrow> u32 \<Rightarrow> 'e world \<Rightarrow> u32 \<times> 'e world" where
  "note_old_fb arg obj count_props pmask w =
     (case obj_type obj of
        Some (Plane plane) \<Rightarrow>
          if count_props \<noteq> 0 \<and> \<not> flag_set arg DRM_MODE_ATOMIC_TEST_ONLY
          then (pmask OR index_bit plane,
                upd_plane plane (\<lambda>pl. pl\<lparr>plane_old_fb := plane_fb pl\<rparr>) w)
          else (pmask, w)
      | _ \<Rightarrow> (pmask, w))"

fun set_objs ::
  "'e hooks \<Rightarrow> drm_mode_atomic \<Rightarrow> nat \<Rightarrow> u32 \<Rightarrow> u32 \<Rightarrow> u32 \<Rightarrow> 'e world \<Rightarrow>
   int \<times> u32 \<times> 'e world" where
  "set_objs hk arg 0 copied_objs copied_props pmask w = (0, pmask, w)"
| "set_objs hk arg (Suc n) copied_objs copied_props pmask w =
     (case get_user hk Objs_ptr (unat copied_objs) (ext w) of
        (None, x) \<Rightarrow> (- EFAULT, pmask, w\<lparr>ext := x\<rparr>)
      | (Some obj_id, x) \<Rightarrow>
          (let w1 = w\<lparr>ext := x\<rparr>
           in (case mode_object_find hk (ucast obj_id) w1 of
                 None \<Rightarrow> (- ENOENT, pmask, w1)
               | Some obj \<Rightarrow>
                   if \<not> obj_has_properties obj then (- ENOENT, pmask, w1)
                   else
                     (case get_user hk Count_props_ptr (unat copied_objs) (ext w1) of
                        (None, x1) \<Rightarrow> (- EFAULT, pmask, w1\<lparr>ext := x1\<rparr>)
                      | (Some v, x1) \<Rightarrow>
                          (let count_props = (ucast v :: u32)
                           in (case set_props hk obj (unat count_props) copied_props
                                       (w1\<lparr>ext := x1\<rparr>) of
                                 (ret, copied_props1, w2) \<Rightarrow>
                                   if ret \<noteq> 0 then (ret, pmask, w2)
                                   else
                                     (case note_old_fb arg obj count_props pmask w2 of
                                        (pmask1, w3) \<Rightarrow>
                                          set_objs hk arg n (copied_objs + 1) copied_props1
                                            pmask1 w3)))))))"

text \<open>
  One pass of the ioctl from the label \<open>retry\<close> to the label \<open>out\<close>: the result so
  far, the world, the plane mask and the fence states.
\<close>

definition atomic_steps ::
  "'e hooks \<Rightarrow> drm_mode_atomic \<Rightarrow> drm_file \<Rightarrow> 'e world \<Rightarrow>
   int \<times> 'e world \<times> u32 \<times> drm_out_fence_state list option \<times> nat" where
  "atomic_steps hk arg file_priv w =
     (case set_objs hk arg (unat (count_objs arg)) 0 0 0 w of
        (ret, pmask, w1) \<Rightarrow>
          if ret \<noteq> 0 then (ret, w1, pmask, None, 0)
          else
            (case prepare_crtc_signaling hk arg (Some file_priv) w1 None 0 of
               (ret, w2, fence_state, num_fences) \<Rightarrow>
                 if ret \<noteq> 0 then (ret, w2, pmask, fence_state, num_fences)
                 else
                   (case (if flag_set arg DRM_MODE_ATOMIC_TEST_ONLY
                          then drm_atomic_check_only hk w2
                          else if flag_set arg DRM_MODE_ATOMIC_NONBLOCK
                          then drm_atomic_nonblocking_commit hk w2
                          else drm_atomic_commit hk w2) of
                      (ret, w3) \<Rightarrow> (ret, w3, pmask, fence_state, num_fences))))"

text \<open>
  The code after the label \<open>out\<close>, which jumps back to \<open>retry\<close> on a deadlock.  The
  loop has no bound, so the function is partial: \<open>None\<close> stands for an ioctl that
  retries for ever.
\<close>

partial_function (option) atomic_retry ::
  "'e hooks \<Rightarrow> drm_mode_atomic \<Rightarrow> drm_file \<Rightarrow> 'e world \<Rightarrow> (int \<times> 'e world) option" where
  "atomic_retry hk arg file_priv w =
     (case atomic_steps hk arg file_priv w of
        (ret, w1, pmask, fence_state, num_fences) \<Rightarrow>
          (let w2 = drm_atomic_clean_old_fb w1 pmask ret;
               w3 = complete_crtc_signaling hk w2 fence_state num_fences (ret = 0)
           in if ret = - EDEADLK
              then atomic_retry hk arg file_priv
                     (drm_modeset_backoff hk (drm_atomic_state_clear hk w3))
              else Some (ret,
                     drm_modeset_drop_locks hk
                       (if ret \<noteq> 0 \<or> flag_set arg DRM_MODE_ATOMIC_TEST_ONLY
                        then drm_atomic_state_free hk w3 else w3))))"

definition drm_mode_atomic_ioctl ::
  "'e hooks \<Rightarrow> drm_mode_atomic \<Rightarrow> drm_file \<Rightarrow> 'e world \<Rightarrow> (int \<times> 'e world) option" where
  "drm_mode_atomic_ioctl hk arg file_priv w =
     (if \<not> driver_atomic (dev w) then Some (- EINVAL, w)
      else if \<not> atomic file_priv then Some (- EINVAL, w)
      else if flags arg AND NOT DRM_MODE_ATOMIC_FLAGS \<noteq> 0 then Some (- EINVAL, w)
      else if reserved arg \<noteq> 0 then Some (- EINVAL, w)
      else if flag_set arg DRM_MODE_PAGE_FLIP_ASYNC \<and> \<not> async_page_flip (mode_config (dev w))
      then Some (- EINVAL, w)
      else if flag_set arg DRM_MODE_ATOMIC_TEST_ONLY \<and> flag_set arg DRM_MODE_PAGE_FLIP_EVENT
      then Some (- EINVAL, w)
      else
        (let w1 = (if \<not> boost_gpu hk \<and> \<not> flag_set arg DRM_MODE_ATOMIC_TEST_ONLY
                   then log Boost_kick (log Boost_kick (log Boost_kick w)) else w)
         in (case drm_atomic_state_alloc hk w1 of
               (False, w2) \<Rightarrow> Some (- ENOMEM, w2)
             | (True, w2) \<Rightarrow>
                 atomic_retry hk arg file_priv
                   (w2\<lparr>txn := (txn w2)\<lparr>acquire_ctx := Some 0,
                          allow_modeset := flag_set arg DRM_MODE_ATOMIC_ALLOW_MODESET\<rparr>\<rparr>))))"

text \<open>
  The calls by which a transaction is cleared for a retry: the driver's clear hook, a
  destroy-state call of the default clear, and the back-off of the lock context.
\<close>

definition is_retry_call :: "call \<Rightarrow> bool" where
  "is_retry_call c \<longleftrightarrow> c = Atomic_state_clear \<or> c = Modeset_backoff \<or> is_destroy c"

definition retry_calls :: "call list \<Rightarrow> call list" where
  "retry_calls tr = filter is_retry_call tr"


subsection \<open>A concrete device\<close>

text \<open>
  A device with two CRTCs, two planes and one connector, whose committed states live at
  the addresses below 10, and drivers that always succeed and duplicate the committed
  state of the object.
\<close>

definition config0 :: drm_mode_config where
  "config0 = \<lparr>num_crtc = 2, num_total_plane = 2, num_connector = 1, async_page_flip = False,
     prop_active = 1, prop_mode_id = 2, degamma_lut_property = 3, ctm_property = 4,
     gamma_lut_property = 5, prop_out_fence_ptr = 6, prop_fb_id = 7, prop_in_fence_fd = 8,
     prop_crtc_id = 9, prop_crtc_x = 10, prop_crtc_y = 11, prop_crtc_w = 12,
     prop_crtc_h = 13, prop_src_x = 14, prop_src_y = 15, prop_src_w = 16, prop_src_h = 17,
     rotation_property = 18, dpms_property = 19\<rparr>"

definition dev0 :: drm_device where
  "dev0 = \<lparr>mode_config = config0, driver_atomic = True,
     crtcs_of = (\<lambda>i. \<lparr>crtc_state_ptr = i\<rparr>),
     planes_of = (\<lambda>i. \<lparr>possible_crtcs = 3, plane_state_ptr = i, zpos_property = None,
                         plane_fb = None, plane_old_fb = None, plane_crtc = None\<rparr>),
     connectors_of = (\<lambda>i. \<lparr>connector_state_ptr = i, dpms = 0\<rparr>)\<rparr>"

definition crtc_state0 :: drm_crtc_state where
  "crtc_state0 = \<lparr>cs_crtc = 0, enable = False, active = False, planes_changed = False,
     mode_changed = False, active_changed = False, connectors_changed = False,
     color_mgmt_changed = False, plane_mask = 0, connector_mask = 0, cs_mode = [],
     mode_blob = None, degamma_lut = None, ctm = None, gamma_lut = None, event = None\<rparr>"

definition plane_state0 :: drm_plane_state where
  "plane_state0 = \<lparr>ps_plane = 0, ps_crtc = None, ps_fb = None, ps_fence = None,
     crtc_x = 0, crtc_y = 0, crtc_w = 0, crtc_h = 0, src_x = 0, src_y = 0, src_h = 0,
     src_w = 0, rotation = 0, zpos = 0\<rparr>"

definition connector_state0 :: drm_connector_state where
  "connector_state0 = \<lparr>cns_connector = 0, cns_crtc = None\<rparr>"

definition hooks0 :: "'e hooks" where
  "hooks0 = \<lparr>
     modeset_lock = (\<lambda>l e. (0, e)),
     crtc_duplicate_state =
       (\<lambda>i w. (Some (crtc_mem w (crtc_state_ptr (crtcs_of (dev w) i))), ext w)),
     plane_duplicate_state =
       (\<lambda>i w. (Some (plane_mem w (plane_state_ptr (planes_of (dev w) i))), ext w)),
     connector_duplicate_state =
       (\<lambda>i w. (Some (conn_mem w (connector_state_ptr (connectors_of (dev w) i))), ext w)),
     crtc_destroy_state = (\<lambda>i p e. e),
     plane_destroy_state = (\<lambda>i p e. e),
     connector_destroy_state = (\<lambda>i p e. e),
     crtc_set_property = None,
     plane_set_property = None,
     connector_set_property = None,
     atomic_check = None,
     atomic_commit = (\<lambda>nonblock w. (0, w)),
     atomic_state_clear = None,
     atomic_state_free = None,
     plane_check_pixel_format = (\<lambda>plane format. 0),
     framebuffer_lookup = (\<lambda>v w. None),
     crtc_find = (\<lambda>v w. if v = 0 then None else Some (unat v - 1)),
     property_lookup_blob = (\<lambda>v w. None),
     mode_convert_umode = (\<lambda>d. (0, d)),
     sync_file_get_fence = (\<lambda>v e. (Some (unat v), e)),
     put_user = (\<lambda>a v e. (0, e)),
     kmalloc = (\<lambda>e. (True, e)),
     atomic_state_alloc = None,
     event_reserve_init = (\<lambda>e. (0, e)),
     crtc_create_fence = (\<lambda>crtc e. (Some crtc, e)),
     get_unused_fd_flags = (\<lambda>e. (3, e)),
     sync_file_create = (\<lambda>fence e. (Some fence, e)),
     get_user = (\<lambda>a i e. (None, e)),
     mode_object_find = (\<lambda>id w. None),
     obj_find_prop_id = (\<lambda>obj id w. None),
     property_change_valid_get = (\<lambda>prop v w. True),
     modeset_backoff = (\<lambda>e. e),
     modeset_drop_locks = (\<lambda>e. e),
     boost_gpu = False\<rparr>"

definition world0 :: "unit world" where
  "world0 = \<lparr>dev = dev0,
     txn = \<lparr>allow_modeset = True, acquire_ctx = Some 0,
             crtcs = replicate 2 empty_crtc_entry,
             planes = replicate 2 empty_plane_entry,
             connectors = []\<rparr>,
     crtc_mem = (\<lambda>a. crtc_state0\<lparr>cs_crtc := a\<rparr>),
     plane_mem = (\<lambda>a. plane_state0\<lparr>ps_plane := a\<rparr>),
     conn_mem = (\<lambda>a. connector_state0\<lparr>cns_connector := a\<rparr>),
     event_mem = (\<lambda>a. \<lparr>ev_user_data = 0, ev_fence = None, ev_file_priv = False\<rparr>),
     commit_mem = (\<lambda>a. \<lparr>commit_ref = 1, commit_event = None\<rparr>),
     next_addr = 10, trace = [], fault = False, ext = ()\<rparr>"

text \<open>
  A plane state at address 5 that shows a framebuffer of \<open>w\<close> by \<open>h\<close> pixels on CRTC
  0 with the source rectangle \<open>(0, 0, sw, sh)\<close>.
\<close>

definition fb_of :: "u32 \<Rightarrow> u32 \<Rightarrow> drm_framebuffer" where
  "fb_of w h = \<lparr>fb_id = 1, width = w, height = h, pixel_format = 0\<rparr>"

definition world_with_plane :: "u32 \<Rightarrow> u32 \<Rightarrow> u32 \<Rightarrow> u32 \<Rightarrow> unit world" where
  "world_with_plane w h sw sh =
     upd_plane_state 5
       (\<lambda>s. s\<lparr>ps_plane := 0, ps_crtc := Some 0, ps_fb := Some (fb_of w h),
               src_w := sw, src_h := sh\<rparr>) world0"



subsection \<open>Sequences of get-or-create calls\<close>

definition get_state :: "'e hooks \<Rightarrow> 'e world \<Rightarrow> mode_object \<Rightarrow> (int + addr) \<times> 'e world" where
  "get_state hk w ob =
     (case ob of
        Crtc c \<Rightarrow> drm_atomic_get_crtc_state hk w c
      | Plane p \<Rightarrow> drm_atomic_get_plane_state hk w p
      | Connector k \<Rightarrow> drm_atomic_get_connector_state hk w k)"

text \<open>
  The calls of a list made one after the other on the same transaction, whatever each
  returns; the result pairs what each call returns with the world it leaves.
\<close>

fun get_states ::
  "'e hooks \<Rightarrow> 'e world \<Rightarrow> mode_object list \<Rightarrow> ((int + addr) \<times> 'e world) list" where
  "get_states hk w [] = []"
| "get_states hk w (ob # obs) =
     (case get_state hk w ob of (r, w1) \<Rightarrow> (r, w1) # get_states hk w1 obs)"

text \<open>The snapshot stored for an object, and whether the object's index is in its table.\<close>

definition entry_state :: "'e world \<Rightarrow> mode_object \<Rightarrow> addr option" where
  "entry_state w ob =
     (case ob of
        Crtc c \<Rightarrow> ce_state (crtcs (txn w) ! c)
      | Plane p \<Rightarrow> pe_state (planes (txn w) ! p)
      | Connector k \<Rightarrow>
          if k < length (connectors (txn w)) then cne_state (connectors (txn w) ! k)
          else None)"

definition in_table :: "'e world \<Rightarrow> mode_object \<Rightarrow> bool" where
  "in_table w ob =
     (case ob of
        Crtc c \<Rightarrow> c < length (crtcs (txn w))
      | Plane p \<Rightarrow> p < length (planes (txn w))
      | Connector k \<Rightarrow> True)"

text \<open>
  The calls of the duplicate-state hook of an object in a trace, and those among them
  that produced a snapshot.
\<close>

fun is_dup :: "mode_object \<Rightarrow> call \<Rightarrow> bool" where
  "is_dup (Crtc c) (Crtc_duplicate_state i r) = (i = c)"
| "is_dup (Plane p) (Plane_duplicate_state i r) = (i = p)"
| "is_dup (Connector k) (Connector_duplicate_state i r) = (i = k)"
| "is_dup ob other = False"

fun is_snapshot :: "mode_object \<Rightarrow> call \<Rightarrow> bool" where
  "is_snapshot (Crtc c) (Crtc_duplicate_state i r) = (i = c \<and> r \<noteq> None)"
| "is_snapshot (Plane p) (Plane_duplicate_state i r) = (i = p \<and> r \<noteq> None)"
| "is_snapshot (Connector k) (Connector_duplicate_state i r) = (i = k \<and> r \<noteq> None)"
| "is_snapshot ob other = False"

definition dup_calls :: "mode_object \<Rightarrow> call list \<Rightarrow> nat" where
  "dup_calls ob tr = length (filter (is_dup ob) tr)"

definition snapshots :: "mode_object \<Rightarrow> call list \<Rightarrow> nat" where
  "snapshots ob tr = length (filter (is_snapshot ob) tr)"

text \<open>
  How many snapshots may still be created for an object: one while its entry is empty,
  none once a snapshot is stored.
\<close>

definition credit :: "'e world \<Rightarrow> mode_object \<Rightarrow> nat" where
  "credit w ob = (if entry_state w ob = None then 1 else 0)"

text \<open>
  A step from \<open>w\<close> to \<open>w'\<close> keeps the table: objects stay in their tables, stored
  snapshots stay stored without a further call of their duplicate hook, and a snapshot
  is created only for an empty entry, which it fills.
\<close>

definition keeps_table :: "'e world \<Rightarrow> 'e world \<Rightarrow> bool" where
  "keeps_table w w' \<longleftrightarrow>
     (\<forall>ob. in_table w ob \<longrightarrow>
        in_table w' ob \<and>
        (\<forall>p. entry_state w ob = Some p \<longrightarrow>
           entry_state w' ob = Some p \<and>
           dup_calls ob (trace w') = dup_calls ob (trace w)) \<and>
        snapshots ob (trace w') + credit w' ob \<le> snapshots ob (trace w) + credit w ob)"

text \<open>
  A driver whose CRTC duplicate hook always fails, and a device whose plane 0 is
  committed on CRTC 0.
\<close>

definition hooks_crtc_nomem :: "unit hooks" where
  "hooks_crtc_nomem = hooks0\<lparr>crtc_duplicate_state := (\<lambda>i w. (None, ext w))\<rparr>"

definition world_plane_on_crtc :: "unit world" where
  "world_plane_on_crtc = upd_plane_state 0 (\<lambda>s. s\<lparr>ps_crtc := Some 0\<rparr>) world0"

definition world_after_failed_get :: "unit world" where
  "world_after_failed_get =
     snd (drm_atomic_get_plane_state hooks_crtc_nomem world_plane_on_crtc 0)"

text \<open>
  The CRTC snapshots stored in a transaction are distinct allocations: no two entries
  hold the same address, and every stored address was handed out before \<open>next_addr\<close>.
\<close>

definition crtc_states_distinct :: "'e world \<Rightarrow> bool" where
  "crtc_states_distinct w \<longleftrightarrow>
     (\<forall>i j p. i < length (crtcs (txn w)) \<and> j < length (crtcs (txn w)) \<and>
        ce_state (crtcs (txn w) ! i) = Some p \<and> ce_state (crtcs (txn w) ! j) = Some p
        \<longrightarrow> i = j) \<and>
     (\<forall>i p. i < length (crtcs (txn w)) \<and> ce_state (crtcs (txn w) ! i) = Some p
        \<longrightarrow> p < next_addr w)"

text \<open>
  A device whose CRTC 0 is committed with planes 0 and 1, and a state of plane 1 at
  address 5 that is linked to CRTC 0.
\<close>

definition world_link :: "unit world" where
  "world_link =
     upd_crtc_state 0 (\<lambda>s. s\<lparr>plane_mask := 3\<rparr>)
       (upd_plane_state 5 (\<lambda>s. s\<lparr>ps_plane := 1, ps_crtc := Some 0\<rparr>) world0)"

text \<open>A transaction with CRTC 0, plane 1 and connector 0, and a commit record for CRTC 0.\<close>

definition world_populated :: "unit world" where
  "world_populated =
     world0\<lparr>txn := (txn world0)\<lparr>
         crtcs := [\<lparr>ce_ptr = Some 0, ce_state = Some 10, ce_commit = Some 20,
                    ce_out_fence_ptr = None\<rparr>, empty_crtc_entry],
         planes := [empty_plane_entry, \<lparr>pe_ptr = Some 1, pe_state = Some 11\<rparr>],
         connectors := [\<lparr>cne_ptr = Some 0, cne_state = Some 12\<rparr>]\<rparr>,
       commit_mem := (commit_mem world0)(20 := \<lparr>commit_ref = 1, commit_event = Some 30\<rparr>),
       next_addr := 13\<rparr>"

text \<open>
  The flags of the calls of the global commit hook in a trace; and two worlds that differ
  at most in the trace and the fault flag.
\<close>

definition commit_flag :: "call \<Rightarrow> bool list" where
  "commit_flag c = (case c of Atomic_commit nonblock \<Rightarrow> [nonblock] | _ \<Rightarrow> [])"

definition commit_flags :: "call list \<Rightarrow> bool list" where
  "commit_flags tr = concat (map commit_flag tr)"

definition unchanged :: "'e world \<Rightarrow> 'e world \<Rightarrow> bool" where
  "unchanged w w' \<longleftrightarrow> w' = w\<lparr>trace := trace w', fault := fault w'\<rparr>"

text \<open>A global check hook without side effects: it returns the world it was given.\<close>

definition check_hook_pure :: "'e hooks \<Rightarrow> bool" where
  "check_hook_pure hk \<longleftrightarrow>
     (case atomic_check hk of None \<Rightarrow> True | Some f \<Rightarrow> (\<forall>v. snd (f v) = v))"

text \<open>
  A driver whose global check hook accepts every transaction and touches nothing; and the
  populated transaction with the new state of CRTC 0 active but not enabled.
\<close>

definition hooks_check :: "unit hooks" where
  "hooks_check = hooks0\<lparr>atomic_check := Some (\<lambda>w. (0, w))\<rparr>"

definition world_active_disabled :: "unit world" where
  "world_active_disabled = upd_crtc_state 10 (\<lambda>s. s\<lparr>active := True\<rparr>) world_populated"

text \<open>
  A device whose locks are contended until the lock context has backed off once (the
  outside state counts the back-offs), and a user request that sets the property
  \<open>ACTIVE\<close> of CRTC 0 to 1, here at the label \<open>retry\<close> of the ioctl with a fresh
  transaction.
\<close>

definition hooks_contended :: "nat hooks" where
  "hooks_contended = hooks0\<lparr>
     modeset_lock := (\<lambda>l x. if x = 0 then (- EDEADLK, x) else (0, x)),
     modeset_backoff := Suc,
     get_user := (\<lambda>a i x. (if i = 0 then Some 1 else None, x)),
     mode_object_find := (\<lambda>v w. if v = 1
        then Some \<lparr>obj_type = Some (Crtc 0), obj_has_properties = True\<rparr> else None),
     obj_find_prop_id := (\<lambda>obj v w. Some (unat v))\<rparr>"

definition arg_one :: drm_mode_atomic where
  "arg_one = \<lparr>flags = 0, count_objs = 1, reserved = 0, arg_user_data = 0\<rparr>"

definition world_contended :: "nat world" where
  "world_contended = \<lparr>dev = dev0,
     txn = \<lparr>allow_modeset = False, acquire_ctx = Some 0,
             crtcs = replicate 2 empty_crtc_entry,
             planes = replicate 2 empty_plane_entry,
             connectors = []\<rparr>,
     crtc_mem = (\<lambda>a. crtc_state0\<lparr>cs_crtc := a\<rparr>),
     plane_mem = (\<lambda>a. plane_state0\<lparr>ps_plane := a\<rparr>),
     conn_mem = (\<lambda>a. connector_state0\<lparr>cns_connector := a\<rparr>),
     event_mem = (\<lambda>a. \<lparr>ev_user_data = 0, ev_fence = None, ev_file_priv = False\<rparr>),
     commit_mem = (\<lambda>a. \<lparr>commit_ref = 1, commit_event = None\<rparr>),
     next_addr = 10, trace = [], fault = False, ext = 0\<rparr>"



definition hooks_activate :: "unit hooks" where
  "hooks_activate = hooks0\<lparr>atomic_check :=
     Some (\<lambda>w. (0, upd_crtc_state 10 (\<lambda>s. s\<lparr>active := True\<rparr>) w))\<rparr>"

section \<open>Verified properties\<close>

subsection \<open>Plane check: source geometry\<close>

lemma fits_iff:
  fixes a b c :: u32
  shows "(\<not> (b > c \<or> a > c - b)) \<longleftrightarrow> unat a + unat b \<le> unat c"
proof (cases "b \<le> c")
  case True
  then have "unat (c - b) = unat c - unat b" by (simp add: unat_sub)
  with True show ?thesis by (auto simp: word_less_nat_alt word_le_nat_alt not_less)
next
  case False
  then show ?thesis by (auto simp: word_less_nat_alt word_le_nat_alt not_less not_le)
qed

lemma shift16:
  fixes x :: u32
  assumes "unat x < 65536"
  shows "unat (push_bit 16 x :: u32) = unat x * 65536"
proof -
  have "unat x * 65536 < 2 ^ 32" using assms by simp
  then show ?thesis
    by (simp add: push_bit_eq_mult unat_word_ariths)
qed

lemma shift16_le:
  fixes x :: u32
  shows "unat (push_bit 16 x :: u32) \<le> unat x * 65536"
  by (simp add: push_bit_eq_mult unat_word_ariths)

lemma src_check_iff:
  fixes fb :: drm_framebuffer and s :: drm_plane_state
  assumes "unat (width fb) < 65536" "unat (height fb) < 65536"
  shows "(src_w s > push_bit 16 (width fb) \<or> src_x s > push_bit 16 (width fb) - src_w s \<or>
          src_h s > push_bit 16 (height fb) \<or> src_y s > push_bit 16 (height fb) - src_h s)
         \<longleftrightarrow> \<not> src_inside_fb s fb"
proof -
  have w: "(\<not> (src_w s > push_bit 16 (width fb) \<or>
                src_x s > push_bit 16 (width fb) - src_w s))
        \<longleftrightarrow> unat (src_x s) + unat (src_w s) \<le> unat (width fb) * 65536"
    using fits_iff [of "push_bit 16 (width fb)" "src_w s" "src_x s"] shift16 [OF assms(1)]
    by simp
  have h: "(\<not> (src_h s > push_bit 16 (height fb) \<or>
                src_y s > push_bit 16 (height fb) - src_h s))
        \<longleftrightarrow> unat (src_y s) + unat (src_h s) \<le> unat (height fb) * 65536"
    using fits_iff [of "push_bit 16 (height fb)" "src_h s" "src_y s"] shift16 [OF assms(2)]
    by simp
  show ?thesis unfolding src_inside_fb_def using w h by blast
qed

lemma src_check_sound:
  fixes fb :: drm_framebuffer and s :: drm_plane_state
  assumes "\<not> src_inside_fb s fb"
  shows "src_w s > push_bit 16 (width fb) \<or> src_x s > push_bit 16 (width fb) - src_w s \<or>
          src_h s > push_bit 16 (height fb) \<or> src_y s > push_bit 16 (height fb) - src_h s"
proof (rule ccontr)
  assume a: "\<not> ?thesis"
  have "unat (src_x s) + unat (src_w s) \<le> unat (push_bit 16 (width fb) :: u32)"
    using a fits_iff [of "push_bit 16 (width fb)" "src_w s" "src_x s"] by blast
  moreover have "unat (src_y s) + unat (src_h s) \<le> unat (push_bit 16 (height fb) :: u32)"
    using a fits_iff [of "push_bit 16 (height fb)" "src_h s" "src_y s"] by blast
  ultimately have "src_inside_fb s fb"
    unfolding src_inside_fb_def
    using shift16_le [of "width fb"] shift16_le [of "height fb"] by linarith
  with assms show False by simp
qed

lemmas plane_check_eval =
  drm_atomic_plane_check_def world_with_plane_def upd_plane_state_def world0_def hooks0_def
  empty_crtc_entry_def empty_plane_entry_def
  dev0_def fb_of_def plane_state0_def index_bit_def Let_def plane_switching_crtc_def
  src_inside_fb_def

text \<open>
  C7, as amended.  For an enabled plane state (CRTC and framebuffer set) that passes the
  checks made before the source-geometry check (the plane is permitted on the CRTC, the
  pixel format is supported, the CRTC-space geometry is in range), \<open>drm_atomic_plane_check\<close>
  returns \<open>-ENOSPC\<close> for every source rectangle that does not lie fully within the
  framebuffer; and when both framebuffer dimensions are below 65536 pixels, so that they
  fit 16.16 fixed point in 32 bits, a rectangle that lies within the framebuffer passes
  the source-geometry check.
\<close>

theorem plane_check_source_geometry:
  assumes "ps_crtc (plane_mem w state) = Some c"
    and "ps_fb (plane_mem w state) = Some fb"
    and "possible_crtcs (planes_of (dev w) plane) AND index_bit c \<noteq> 0"
    and "plane_check_pixel_format hk plane (pixel_format fb) = 0"
    and "uint (crtc_w (plane_mem w state)) \<le> INT_MAX"
    and "sint (crtc_x (plane_mem w state)) \<le> INT_MAX - sint (crtc_w (plane_mem w state))"
    and "uint (crtc_h (plane_mem w state)) \<le> INT_MAX"
    and "sint (crtc_y (plane_mem w state)) \<le> INT_MAX - sint (crtc_h (plane_mem w state))"
  shows "(\<not> src_inside_fb (plane_mem w state) fb \<longrightarrow>
            drm_atomic_plane_check hk w plane state = - ENOSPC) \<and>
         (unat (width fb) < 65536 \<and> unat (height fb) < 65536 \<and>
          src_inside_fb (plane_mem w state) fb \<longrightarrow>
            drm_atomic_plane_check hk w plane state \<noteq> - ENOSPC)"
proof (intro conjI impI)
  assume "\<not> src_inside_fb (plane_mem w state) fb"
  from src_check_sound [OF this] assms
  show "drm_atomic_plane_check hk w plane state = - ENOSPC"
    by (simp add: drm_atomic_plane_check_def Let_def not_less)
next
  let ?s = "plane_mem w state"
  assume a: "unat (width fb) < 65536 \<and> unat (height fb) < 65536 \<and> src_inside_fb ?s fb"
  then have "\<not> (src_w ?s > push_bit 16 (width fb) \<or>
                src_x ?s > push_bit 16 (width fb) - src_w ?s \<or>
                src_h ?s > push_bit 16 (height fb) \<or>
                src_y ?s > push_bit 16 (height fb) - src_h ?s)"
    using src_check_iff [of fb ?s] by blast
  with assms show "drm_atomic_plane_check hk w plane state \<noteq> - ENOSPC"
    by (simp add: drm_atomic_plane_check_def Let_def not_less)
qed

text \<open>
  The two rectangles of the specification: \<open>(0, 0, 100 << 16, 100 << 16)\<close> is rejected
  with \<open>-ENOSPC\<close> against a 50 by 50 framebuffer and passes against a 200 by 200 one.
\<close>

theorem plane_check_source_geometry_witness:
  "\<not> src_inside_fb (plane_mem (world_with_plane 50 50 (push_bit 16 100) (push_bit 16 100)) 5)
       (fb_of 50 50) \<and>
   drm_atomic_plane_check hooks0
     (world_with_plane 50 50 (push_bit 16 100) (push_bit 16 100)) 0 5 = - ENOSPC \<and>
   src_inside_fb (plane_mem (world_with_plane 200 200 (push_bit 16 100) (push_bit 16 100)) 5)
       (fb_of 200 200) \<and>
   drm_atomic_plane_check hooks0
     (world_with_plane 200 200 (push_bit 16 100) (push_bit 16 100)) 0 5 \<noteq> - ENOSPC"
proof -
  let ?w1 = "world_with_plane 50 50 (push_bit 16 100) (push_bit 16 100)"
  let ?w2 = "world_with_plane 200 200 (push_bit 16 100) (push_bit 16 100)"
  have a1: "ps_crtc (plane_mem ?w1 5) = Some 0" "ps_fb (plane_mem ?w1 5) = Some (fb_of 50 50)"
    "possible_crtcs (planes_of (dev ?w1) 0) AND index_bit 0 \<noteq> 0"
    "plane_check_pixel_format hooks0 0 (pixel_format (fb_of 50 50)) = 0"
    "uint (crtc_w (plane_mem ?w1 5)) \<le> INT_MAX"
    "sint (crtc_x (plane_mem ?w1 5)) \<le> INT_MAX - sint (crtc_w (plane_mem ?w1 5))"
    "uint (crtc_h (plane_mem ?w1 5)) \<le> INT_MAX"
    "sint (crtc_y (plane_mem ?w1 5)) \<le> INT_MAX - sint (crtc_h (plane_mem ?w1 5))"
    by (simp_all add: plane_check_eval)
  have a2: "ps_crtc (plane_mem ?w2 5) = Some 0" "ps_fb (plane_mem ?w2 5) = Some (fb_of 200 200)"
    "possible_crtcs (planes_of (dev ?w2) 0) AND index_bit 0 \<noteq> 0"
    "plane_check_pixel_format hooks0 0 (pixel_format (fb_of 200 200)) = 0"
    "uint (crtc_w (plane_mem ?w2 5)) \<le> INT_MAX"
    "sint (crtc_x (plane_mem ?w2 5)) \<le> INT_MAX - sint (crtc_w (plane_mem ?w2 5))"
    "uint (crtc_h (plane_mem ?w2 5)) \<le> INT_MAX"
    "sint (crtc_y (plane_mem ?w2 5)) \<le> INT_MAX - sint (crtc_h (plane_mem ?w2 5))"
    by (simp_all add: plane_check_eval)
  have o: "\<not> src_inside_fb (plane_mem ?w1 5) (fb_of 50 50)"
    by (simp add: plane_check_eval)
  have i: "unat (width (fb_of 200 200)) < 65536 \<and> unat (height (fb_of 200 200)) < 65536 \<and>
           src_inside_fb (plane_mem ?w2 5) (fb_of 200 200)"
    by (simp add: plane_check_eval)
  from plane_check_source_geometry [OF a1] o
  have r1: "drm_atomic_plane_check hooks0 ?w1 0 5 = - ENOSPC" by blast
  from plane_check_source_geometry [OF a2] i
  have r2: "drm_atomic_plane_check hooks0 ?w2 0 5 \<noteq> - ENOSPC" by blast
  from o r1 i r2 show ?thesis by blast
qed

text \<open>
  The claim as stated fails for a framebuffer of 65536 by 65536 pixels: the shifted
  width wraps to 0, and the source rectangle \<open>(0, 0, 1 << 16, 1 << 16)\<close>, which lies
  within the framebuffer, is rejected with \<open>-ENOSPC\<close>.
\<close>

theorem plane_check_source_geometry_counterexample:
  "ps_crtc (plane_mem (world_with_plane 65536 65536 65536 65536) 5) = Some 0 \<and>
   ps_fb (plane_mem (world_with_plane 65536 65536 65536 65536) 5) = Some (fb_of 65536 65536) \<and>
   src_inside_fb (plane_mem (world_with_plane 65536 65536 65536 65536) 5) (fb_of 65536 65536) \<and>
   drm_atomic_plane_check hooks0 (world_with_plane 65536 65536 65536 65536) 0 5 = - ENOSPC"
  by (simp add: plane_check_eval)

subsection \<open>CRTC check: completion events on a CRTC that stays off\<close>

text \<open>
  C8.  For a CRTC state that carries a completion-event request, on a CRTC that is
  inactive in its current (old) state: if the new state is inactive too, the check fails
  with \<open>-EINVAL\<close>; if the new state is active, the check gives the result it gives
  without the event request, and succeeds when the state is enabled with a mode blob.
\<close>

theorem crtc_check_event:
  assumes "event (crtc_mem w state) \<noteq> None"
    and "\<not> active (crtc_mem w (crtc_state_ptr (crtcs_of (dev w) crtc)))"
  shows "(\<not> active (crtc_mem w state) \<longrightarrow> drm_atomic_crtc_check w crtc state = - EINVAL) \<and>
         (active (crtc_mem w state) \<longrightarrow>
            drm_atomic_crtc_check w crtc state =
            drm_atomic_crtc_check (upd_crtc_state state (\<lambda>s. s\<lparr>event := None\<rparr>) w) crtc state) \<and>
         (active (crtc_mem w state) \<and> enable (crtc_mem w state) \<and>
          (driver_atomic (dev w) \<longrightarrow> mode_blob (crtc_mem w state) \<noteq> None) \<longrightarrow>
            drm_atomic_crtc_check w crtc state = 0)"
  using assms by (auto simp: drm_atomic_crtc_check_def upd_crtc_state_def Let_def)


text \<open>
  On the concrete device, a CRTC state at address 5 that requests an event: inactive, it
  is rejected; active, enabled and with a mode blob, it is accepted.
\<close>

theorem crtc_check_event_witness:
  "drm_atomic_crtc_check
     (upd_crtc_state 5 (\<lambda>s. s\<lparr>event := Some 1\<rparr>) world0) 0 5 = - EINVAL \<and>
   drm_atomic_crtc_check
     (upd_crtc_state 5 (\<lambda>s. s\<lparr>event := Some 1, active := True, enable := True,
        mode_blob := Some \<lparr>blob_id = 1, blob_length = 0, blob_data = []\<rparr>\<rparr>) world0) 0 5 = 0"
proof -
  let ?w1 = "upd_crtc_state 5 (\<lambda>s. s\<lparr>event := Some 1\<rparr>) world0"
  let ?w2 = "upd_crtc_state 5 (\<lambda>s. s\<lparr>event := Some 1, active := True, enable := True,
        mode_blob := Some \<lparr>blob_id = 1, blob_length = 0, blob_data = []\<rparr>\<rparr>) world0"
  have a1: "event (crtc_mem ?w1 5) \<noteq> None"
    "\<not> active (crtc_mem ?w1 (crtc_state_ptr (crtcs_of (dev ?w1) 0)))"
    by (simp_all add: upd_crtc_state_def world0_def dev0_def crtc_state0_def)
  have n1: "\<not> active (crtc_mem ?w1 5)"
    by (simp add: upd_crtc_state_def world0_def dev0_def crtc_state0_def)
  have a2: "event (crtc_mem ?w2 5) \<noteq> None"
    "\<not> active (crtc_mem ?w2 (crtc_state_ptr (crtcs_of (dev ?w2) 0)))"
    by (simp_all add: upd_crtc_state_def world0_def dev0_def crtc_state0_def)
  have n2: "active (crtc_mem ?w2 5) \<and> enable (crtc_mem ?w2 5) \<and>
          (driver_atomic (dev ?w2) \<longrightarrow> mode_blob (crtc_mem ?w2 5) \<noteq> None)"
    by (simp add: upd_crtc_state_def world0_def dev0_def crtc_state0_def)
  from crtc_check_event [OF a1] n1 have r1: "drm_atomic_crtc_check ?w1 0 5 = - EINVAL"
    by blast
  from crtc_check_event [OF a2] n2 have r2: "drm_atomic_crtc_check ?w2 0 5 = 0"
    by blast
  from r1 r2 show ?thesis by blast
qed

subsection \<open>Plane in-fence descriptor: set once\<close>

lemma in_fence_branch:
  assumes "property = prop_in_fence_fd (mode_config (dev w))"
    and "property \<noteq> prop_fb_id (mode_config (dev w))"
  shows "drm_atomic_plane_set_property hk w plane state property val =
           (if ps_fence (plane_mem w state) \<noteq> None then (- EINVAL, w)
            else if val = - 1 then (0, w)
            else
              (case sync_file_get_fence hk val (ext w) of
                 (None, e) \<Rightarrow> (- EINVAL, w\<lparr>ext := e\<rparr>)
               | (Some f, e) \<Rightarrow>
                   (0, upd_plane_state state (\<lambda>s. s\<lparr>ps_fence := Some f\<rparr>) (w\<lparr>ext := e\<rparr>))))"
  using assms by (simp add: drm_atomic_plane_set_property_def Let_def)

text \<open>
  C9, as amended.  Setting the in-fence-descriptor property (a descriptor distinct from
  the framebuffer-id one, which the dispatch compares first) on a plane state whose fence
  is already set fails with \<open>-EINVAL\<close> and changes nothing, whatever the value, the
  sentinel included; setting it to the sentinel \<open>-1\<close> on a plane state without a fence
  returns 0 and changes nothing, so the fence stays unset; and after a set with another
  value has succeeded, every further set on the same plane state fails with \<open>-EINVAL\<close>.
\<close>

theorem in_fence_fd_set_once:
  assumes "property = prop_in_fence_fd (mode_config (dev w))"
    and "property \<noteq> prop_fb_id (mode_config (dev w))"
  shows "(ps_fence (plane_mem w state) \<noteq> None \<longrightarrow>
            drm_atomic_plane_set_property hk w plane state property val = (- EINVAL, w)) \<and>
         (ps_fence (plane_mem w state) = None \<longrightarrow>
            drm_atomic_plane_set_property hk w plane state property (- 1) = (0, w)) \<and>
         (\<forall>w1. val \<noteq> - 1 \<and>
            drm_atomic_plane_set_property hk w plane state property val = (0, w1) \<longrightarrow>
            drm_atomic_plane_set_property hk w1 plane state property val2 = (- EINVAL, w1))"
proof (intro conjI impI allI)
  assume "ps_fence (plane_mem w state) \<noteq> None"
  then show "drm_atomic_plane_set_property hk w plane state property val = (- EINVAL, w)"
    by (simp add: in_fence_branch [OF assms])
next
  assume "ps_fence (plane_mem w state) = None"
  then show "drm_atomic_plane_set_property hk w plane state property (- 1) = (0, w)"
    by (simp add: in_fence_branch [OF assms])
next
  fix w1
  assume a: "val \<noteq> - 1 \<and> drm_atomic_plane_set_property hk w plane state property val = (0, w1)"
  then have s: "dev w1 = dev w \<and> ps_fence (plane_mem w1 state) \<noteq> None"
    by (auto simp: in_fence_branch [OF assms] upd_plane_state_def
             split: if_splits prod.splits option.splits)
  with assms have "property = prop_in_fence_fd (mode_config (dev w1))"
    "property \<noteq> prop_fb_id (mode_config (dev w1))" by simp_all
  from in_fence_branch [OF this] s
  show "drm_atomic_plane_set_property hk w1 plane state property val2 = (- EINVAL, w1)"
    by simp
qed

text \<open>
  On the concrete device (in-fence property 8): a first set of descriptor 3 on the plane
  state at address 5 stores fence 3, a second set of descriptor 4 fails, and a set of the
  sentinel on a fresh plane state changes nothing.
\<close>

theorem in_fence_fd_set_once_witness:
  "drm_atomic_plane_set_property hooks0 world0 0 5 8 3 =
     (0, upd_plane_state 5 (\<lambda>s. s\<lparr>ps_fence := Some 3\<rparr>) world0) \<and>
   drm_atomic_plane_set_property hooks0
     (upd_plane_state 5 (\<lambda>s. s\<lparr>ps_fence := Some 3\<rparr>) world0) 0 5 8 4 =
     (- EINVAL, upd_plane_state 5 (\<lambda>s. s\<lparr>ps_fence := Some 3\<rparr>) world0) \<and>
   drm_atomic_plane_set_property hooks0 world0 0 5 8 (- 1) = (0, world0)"
proof -
  let ?w1 = "upd_plane_state 5 (\<lambda>s. s\<lparr>ps_fence := Some 3\<rparr>) world0"
  have a: "(8::nat) = prop_in_fence_fd (mode_config (dev world0))"
    "(8::nat) \<noteq> prop_fb_id (mode_config (dev world0))"
    by (simp_all add: world0_def dev0_def config0_def)
  have f: "ps_fence (plane_mem world0 5) = None"
    by (simp add: world0_def plane_state0_def)
  have first: "drm_atomic_plane_set_property hooks0 world0 0 5 8 3 = (0, ?w1)"
    by (simp add: in_fence_branch [OF a] f hooks0_def) (simp add: world0_def)
  from in_fence_fd_set_once [OF a, of 5 hooks0 0 3 4] f first
  have "drm_atomic_plane_set_property hooks0 ?w1 0 5 8 4 = (- EINVAL, ?w1) \<and>
        drm_atomic_plane_set_property hooks0 world0 0 5 8 (- 1) = (0, world0)"
    by simp
  with first show ?thesis by simp
qed

text \<open>
  The claim as stated fails for the sentinel on a plane state whose fence is set: the test
  for a set fence comes first, so the call returns \<open>-EINVAL\<close> instead of success.
\<close>

theorem in_fence_fd_set_once_counterexample:
  "ps_fence (plane_mem (upd_plane_state 5 (\<lambda>s. s\<lparr>ps_fence := Some 3\<rparr>) world0) 5) = Some 3 \<and>
   drm_atomic_plane_set_property hooks0
     (upd_plane_state 5 (\<lambda>s. s\<lparr>ps_fence := Some 3\<rparr>) world0) 0 5 8 (- 1) =
     (- EINVAL, upd_plane_state 5 (\<lambda>s. s\<lparr>ps_fence := Some 3\<rparr>) world0)"
proof -
  let ?w1 = "upd_plane_state 5 (\<lambda>s. s\<lparr>ps_fence := Some 3\<rparr>) world0"
  have a: "(8::nat) = prop_in_fence_fd (mode_config (dev ?w1))"
    "(8::nat) \<noteq> prop_fb_id (mode_config (dev ?w1))"
    by (simp_all add: world0_def dev0_def config0_def upd_plane_state_def)
  have f: "ps_fence (plane_mem ?w1 5) = Some 3"
    by (simp add: upd_plane_state_def)
  from f show ?thesis by (simp add: in_fence_branch [OF a])
qed

subsection \<open>Field projections of the state-update helpers\<close>

lemma log_fields [simp]:
  "dev (log c w) = dev w" "txn (log c w) = txn w" "crtc_mem (log c w) = crtc_mem w"
  "plane_mem (log c w) = plane_mem w" "conn_mem (log c w) = conn_mem w"
  "event_mem (log c w) = event_mem w" "commit_mem (log c w) = commit_mem w"
  "next_addr (log c w) = next_addr w" "trace (log c w) = trace w @ [c]"
  "fault (log c w) = fault w" "ext (log c w) = ext w"
  by (simp_all add: log_def)

lemma set_crtc_entry_fields [simp]:
  "dev (set_crtc_entry i f w) = dev w" "crtc_mem (set_crtc_entry i f w) = crtc_mem w"
  "plane_mem (set_crtc_entry i f w) = plane_mem w" "conn_mem (set_crtc_entry i f w) = conn_mem w"
  "event_mem (set_crtc_entry i f w) = event_mem w"
  "commit_mem (set_crtc_entry i f w) = commit_mem w"
  "next_addr (set_crtc_entry i f w) = next_addr w" "trace (set_crtc_entry i f w) = trace w"
  "fault (set_crtc_entry i f w) = fault w" "ext (set_crtc_entry i f w) = ext w"
  "crtcs (txn (set_crtc_entry i f w)) = (crtcs (txn w))[i := f (crtcs (txn w) ! i)]"
  "planes (txn (set_crtc_entry i f w)) = planes (txn w)"
  "connectors (txn (set_crtc_entry i f w)) = connectors (txn w)"
  "allow_modeset (txn (set_crtc_entry i f w)) = allow_modeset (txn w)"
  "acquire_ctx (txn (set_crtc_entry i f w)) = acquire_ctx (txn w)"
  by (simp_all add: set_crtc_entry_def)

lemma set_plane_entry_fields [simp]:
  "dev (set_plane_entry i f w) = dev w" "crtc_mem (set_plane_entry i f w) = crtc_mem w"
  "plane_mem (set_plane_entry i f w) = plane_mem w"
  "conn_mem (set_plane_entry i f w) = conn_mem w"
  "event_mem (set_plane_entry i f w) = event_mem w"
  "commit_mem (set_plane_entry i f w) = commit_mem w"
  "next_addr (set_plane_entry i f w) = next_addr w" "trace (set_plane_entry i f w) = trace w"
  "fault (set_plane_entry i f w) = fault w" "ext (set_plane_entry i f w) = ext w"
  "crtcs (txn (set_plane_entry i f w)) = crtcs (txn w)"
  "planes (txn (set_plane_entry i f w)) = (planes (txn w))[i := f (planes (txn w) ! i)]"
  "connectors (txn (set_plane_entry i f w)) = connectors (txn w)"
  "allow_modeset (txn (set_plane_entry i f w)) = allow_modeset (txn w)"
  "acquire_ctx (txn (set_plane_entry i f w)) = acquire_ctx (txn w)"
  by (simp_all add: set_plane_entry_def)

lemma set_connector_entry_fields [simp]:
  "dev (set_connector_entry i f w) = dev w"
  "crtc_mem (set_connector_entry i f w) = crtc_mem w"
  "plane_mem (set_connector_entry i f w) = plane_mem w"
  "conn_mem (set_connector_entry i f w) = conn_mem w"
  "event_mem (set_connector_entry i f w) = event_mem w"
  "commit_mem (set_connector_entry i f w) = commit_mem w"
  "next_addr (set_connector_entry i f w) = next_addr w"
  "trace (set_connector_entry i f w) = trace w"
  "fault (set_connector_entry i f w) = fault w" "ext (set_connector_entry i f w) = ext w"
  "crtcs (txn (set_connector_entry i f w)) = crtcs (txn w)"
  "planes (txn (set_connector_entry i f w)) = planes (txn w)"
  "connectors (txn (set_connector_entry i f w)) =
     (connectors (txn w))[i := f (connectors (txn w) ! i)]"
  "allow_modeset (txn (set_connector_entry i f w)) = allow_modeset (txn w)"
  "acquire_ctx (txn (set_connector_entry i f w)) = acquire_ctx (txn w)"
  by (simp_all add: set_connector_entry_def)

lemma upd_crtc_state_fields [simp]:
  "dev (upd_crtc_state p f w) = dev w" "txn (upd_crtc_state p f w) = txn w"
  "crtc_mem (upd_crtc_state p f w) = (crtc_mem w)(p := f (crtc_mem w p))"
  "plane_mem (upd_crtc_state p f w) = plane_mem w"
  "conn_mem (upd_crtc_state p f w) = conn_mem w"
  "event_mem (upd_crtc_state p f w) = event_mem w"
  "commit_mem (upd_crtc_state p f w) = commit_mem w"
  "next_addr (upd_crtc_state p f w) = next_addr w" "trace (upd_crtc_state p f w) = trace w"
  "fault (upd_crtc_state p f w) = fault w" "ext (upd_crtc_state p f w) = ext w"
  by (simp_all add: upd_crtc_state_def)

lemma upd_plane_state_fields [simp]:
  "dev (upd_plane_state p f w) = dev w" "txn (upd_plane_state p f w) = txn w"
  "crtc_mem (upd_plane_state p f w) = crtc_mem w"
  "plane_mem (upd_plane_state p f w) = (plane_mem w)(p := f (plane_mem w p))"
  "conn_mem (upd_plane_state p f w) = conn_mem w"
  "event_mem (upd_plane_state p f w) = event_mem w"
  "commit_mem (upd_plane_state p f w) = commit_mem w"
  "next_addr (upd_plane_state p f w) = next_addr w" "trace (upd_plane_state p f w) = trace w"
  "fault (upd_plane_state p f w) = fault w" "ext (upd_plane_state p f w) = ext w"
  by (simp_all add: upd_plane_state_def)

lemma upd_connector_state_fields [simp]:
  "dev (upd_connector_state p f w) = dev w" "txn (upd_connector_state p f w) = txn w"
  "crtc_mem (upd_connector_state p f w) = crtc_mem w"
  "plane_mem (upd_connector_state p f w) = plane_mem w"
  "conn_mem (upd_connector_state p f w) = (conn_mem w)(p := f (conn_mem w p))"
  "event_mem (upd_connector_state p f w) = event_mem w"
  "commit_mem (upd_connector_state p f w) = commit_mem w"
  "next_addr (upd_connector_state p f w) = next_addr w"
  "trace (upd_connector_state p f w) = trace w"
  "fault (upd_connector_state p f w) = fault w" "ext (upd_connector_state p f w) = ext w"
  by (simp_all add: upd_connector_state_def)

subsection \<open>Get-or-create: effect on the table and on the trace\<close>

lemma keeps_table_refl: "keeps_table w w"
  by (simp add: keeps_table_def)

lemma keeps_table_trans: "keeps_table w w1 \<Longrightarrow> keeps_table w1 w2 \<Longrightarrow> keeps_table w w2"
  unfolding keeps_table_def
  apply (intro allI impI)
  subgoal for ob
    apply (elim allE [of _ ob])
    apply (auto)
    done
  done

text \<open>Steps that leave the transaction alone and call no duplicate hook.\<close>

lemma keeps_table_same_txn:
  assumes "txn w' = txn w" and "trace w' = trace w @ evs"
    and "\<And>ob ev. ev \<in> set evs \<Longrightarrow> \<not> is_snapshot ob ev"
    and "\<And>ob ev. ev \<in> set evs \<Longrightarrow> is_dup ob ev \<Longrightarrow> entry_state w ob = None"
  shows "keeps_table w w'"
proof -
  have s: "\<And>ob. filter (is_snapshot ob) evs = []"
    using assms(3) by (auto simp: filter_empty_conv)
  have d: "\<And>ob p. entry_state w ob = Some p \<Longrightarrow> filter (is_dup ob) evs = []"
    using assms(4) by (fastforce simp: filter_empty_conv)
  show ?thesis
    using assms(1,2) s d
    by (auto simp: keeps_table_def in_table_def entry_state_def credit_def dup_calls_def
          snapshots_def split: mode_object.splits)
qed


lemma get_crtc_state_existing:
  "ce_state (crtcs (txn w) ! c) = Some p \<Longrightarrow> drm_atomic_get_crtc_state hk w c = (Inr p, w)"
  by (simp add: drm_atomic_get_crtc_state_def drm_atomic_get_existing_crtc_state_def)

lemma get_crtc_state_new:
  assumes n: "ce_state (crtcs (txn w) ! c) = None"
    and g: "drm_atomic_get_crtc_state hk w c = (r, w')"
  shows "dev w' = dev w \<and> plane_mem w' = plane_mem w \<and> conn_mem w' = conn_mem w \<and>
         fault w' = fault w \<and> planes (txn w') = planes (txn w) \<and>
         connectors (txn w') = connectors (txn w) \<and>
         ((\<exists>e. r = Inl e \<and> crtcs (txn w') = crtcs (txn w) \<and> crtc_mem w' = crtc_mem w \<and>
               next_addr w' = next_addr w \<and>
               ((\<exists>ret. trace w' = trace w @ [Modeset_lock (Crtc_mutex c) ret]) \<or>
                trace w' = trace w @ [Modeset_lock (Crtc_mutex c) 0,
                                      Crtc_duplicate_state c None])) \<or>
          (r = Inr (next_addr w) \<and> next_addr w' = Suc (next_addr w) \<and>
           (\<exists>s. crtc_mem w' = (crtc_mem w)(next_addr w := s)) \<and>
           crtcs (txn w') = (crtcs (txn w))[c := (crtcs (txn w) ! c)
                               \<lparr>ce_state := Some (next_addr w), ce_ptr := Some c\<rparr>] \<and>
           trace w' = trace w @ [Modeset_lock (Crtc_mutex c) 0,
                                 Crtc_duplicate_state c (Some (next_addr w))]))"
proof -
  obtain ret e1 where l: "modeset_lock hk (Crtc_mutex c) (ext w) = (ret, e1)"
    by fastforce
  let ?w1 = "log (Modeset_lock (Crtc_mutex c) ret) (w\<lparr>ext := e1\<rparr>)"
  obtain so e2 where d: "crtc_duplicate_state hk c ?w1 = (so, e2)"
    by fastforce
  show ?thesis
  proof (cases "ret = 0")
    case False
    with n g l show ?thesis
      by (simp add: drm_atomic_get_crtc_state_def drm_atomic_get_existing_crtc_state_def
            drm_modeset_lock_def log_def) auto
  next
    case True
    show ?thesis
    proof (cases so)
      case None
      with True n g l d show ?thesis
        by (simp add: drm_atomic_get_crtc_state_def drm_atomic_get_existing_crtc_state_def
              drm_modeset_lock_def log_def) auto
    next
      case (Some s)
      with True n g l d show ?thesis
        by (simp add: drm_atomic_get_crtc_state_def drm_atomic_get_existing_crtc_state_def
              drm_modeset_lock_def log_def set_crtc_entry_def Let_def) auto
    qed
  qed
qed

lemma keeps_table_store_crtc:
  assumes "ce_state (crtcs (txn w) ! c) = None"
    and "crtcs (txn w') = (crtcs (txn w))[c := (crtcs (txn w) ! c)
                               \<lparr>ce_state := Some p, ce_ptr := Some c\<rparr>]"
    and "planes (txn w') = planes (txn w)"
    and "connectors (txn w') = connectors (txn w)"
    and "trace w' = trace w @ [Modeset_lock (Crtc_mutex c) 0, Crtc_duplicate_state c (Some p)]"
  shows "keeps_table w w'"
  unfolding keeps_table_def
proof (intro allI impI)
  fix ob
  assume t: "in_table w ob"
  show "in_table w' ob \<and>
        (\<forall>p. entry_state w ob = Some p \<longrightarrow>
           entry_state w' ob = Some p \<and>
           dup_calls ob (trace w') = dup_calls ob (trace w)) \<and>
        snapshots ob (trace w') + credit w' ob \<le> snapshots ob (trace w) + credit w ob"
  proof (cases ob)
    case (Crtc c')
    with t assms show ?thesis
      by (cases "c' = c")
         (auto simp: in_table_def entry_state_def credit_def dup_calls_def snapshots_def)
  next
    case (Plane p')
    with t assms show ?thesis
      by (auto simp: in_table_def entry_state_def credit_def dup_calls_def snapshots_def)
  next
    case (Connector k)
    with t assms show ?thesis
      by (auto simp: in_table_def entry_state_def credit_def dup_calls_def snapshots_def)
  qed
qed

lemma get_crtc_state_keeps:
  assumes g: "drm_atomic_get_crtc_state hk w c = (r, w')"
  shows "keeps_table w w'"
proof (cases "ce_state (crtcs (txn w) ! c)")
  case (Some p)
  with g get_crtc_state_existing [OF Some, of hk] show ?thesis
    by (simp add: keeps_table_refl)
next
  case None
  from get_crtc_state_new [OF None g]
  consider
    (lock) ret where "crtcs (txn w') = crtcs (txn w)" "planes (txn w') = planes (txn w)"
      "connectors (txn w') = connectors (txn w)"
      "trace w' = trace w @ [Modeset_lock (Crtc_mutex c) ret]"
  | (nomem) "crtcs (txn w') = crtcs (txn w)" "planes (txn w') = planes (txn w)"
      "connectors (txn w') = connectors (txn w)"
      "trace w' = trace w @ [Modeset_lock (Crtc_mutex c) 0, Crtc_duplicate_state c None]"
  | (new) "crtcs (txn w') = (crtcs (txn w))[c := (crtcs (txn w) ! c)
                               \<lparr>ce_state := Some (next_addr w), ce_ptr := Some c\<rparr>]"
      "planes (txn w') = planes (txn w)" "connectors (txn w') = connectors (txn w)"
      "trace w' = trace w @ [Modeset_lock (Crtc_mutex c) 0,
                                 Crtc_duplicate_state c (Some (next_addr w))]"
    by blast
  then show ?thesis
  proof cases
    case lock
    then show ?thesis using None
      by (auto simp: keeps_table_def in_table_def entry_state_def credit_def dup_calls_def
            snapshots_def split: mode_object.splits)
  next
    case nomem
    then show ?thesis using None
      by (auto simp: keeps_table_def in_table_def entry_state_def credit_def dup_calls_def
            snapshots_def split: mode_object.splits)
  next
    case new
    from keeps_table_store_crtc [OF None new] show ?thesis .
  qed
qed

lemma get_crtc_state_populates:
  assumes "drm_atomic_get_crtc_state hk w c = (Inr p, w')" and "c < length (crtcs (txn w))"
  shows "ce_state (crtcs (txn w') ! c) = Some p \<and> length (crtcs (txn w')) = length (crtcs (txn w))"
proof (cases "ce_state (crtcs (txn w) ! c)")
  case (Some q)
  with assms get_crtc_state_existing [OF Some, of hk] show ?thesis by simp
next
  case None
  from get_crtc_state_new [OF None assms(1)] assms(2) show ?thesis by auto
qed


text \<open>
  A call that finds the plane's entry empty fails before storing anything, or stores a
  fresh snapshot (world \<open>w3\<close>) and then acquires the CRTC the snapshot references.
\<close>

lemma get_plane_state_new:
  assumes n: "pe_state (planes (txn w) ! pl) = None"
    and g: "drm_atomic_get_plane_state hk w pl = (r, w')"
  shows "(\<exists>e. r = Inl e \<and> txn w' = txn w \<and>
               ((\<exists>ret. trace w' = trace w @ [Modeset_lock (Plane_mutex pl) ret]) \<or>
                trace w' = trace w @ [Modeset_lock (Plane_mutex pl) 0,
                                      Plane_duplicate_state pl None])) \<or>
         (\<exists>w3 s. planes (txn w3) = (planes (txn w))[pl := (planes (txn w) ! pl)
                               \<lparr>pe_state := Some (next_addr w), pe_ptr := Some pl\<rparr>] \<and>
            crtcs (txn w3) = crtcs (txn w) \<and> connectors (txn w3) = connectors (txn w) \<and>
            trace w3 = trace w @ [Modeset_lock (Plane_mutex pl) 0,
                                  Plane_duplicate_state pl (Some (next_addr w))] \<and>
            plane_mem w3 = (plane_mem w)(next_addr w := s) \<and>
            crtc_mem w3 = crtc_mem w \<and> next_addr w3 = Suc (next_addr w) \<and>
            (case ps_crtc s of
               None \<Rightarrow> r = Inr (next_addr w) \<and> w' = w3
             | Some c \<Rightarrow>
                 (\<exists>rc. drm_atomic_get_crtc_state hk w3 c = (rc, w') \<and>
                    (case rc of Inl e \<Rightarrow> r = Inl e | Inr q \<Rightarrow> r = Inr (next_addr w)))))"
proof -
  obtain ret e1 where l: "modeset_lock hk (Plane_mutex pl) (ext w) = (ret, e1)"
    by fastforce
  show ?thesis
  proof (cases "ret = 0")
    case False
    with n g l show ?thesis
      by (simp add: drm_atomic_get_plane_state_def drm_atomic_get_existing_plane_state_def
            drm_modeset_lock_def) auto
  next
    case True
    let ?w1 = "log (Modeset_lock (Plane_mutex pl) 0) (w\<lparr>ext := e1\<rparr>)"
    from l True have l0: "modeset_lock hk (Plane_mutex pl) (ext w) = (0, e1)" by simp
    obtain so e2 where d: "plane_duplicate_state hk pl ?w1 = (so, e2)"
      by fastforce
    show ?thesis
    proof (cases so)
      case None
      with n g l0 d show ?thesis
        by (simp add: drm_atomic_get_plane_state_def drm_atomic_get_existing_plane_state_def
              drm_modeset_lock_def) auto
    next
      case (Some s)
      let ?p = "next_addr w"
      let ?w2 = "log (Plane_duplicate_state pl (Some ?p))
                   (?w1\<lparr>ext := e2, plane_mem := (plane_mem w)(?p := s),
                        next_addr := Suc ?p\<rparr>)"
      let ?w3 = "set_plane_entry pl (\<lambda>en. en\<lparr>pe_state := Some ?p, pe_ptr := Some pl\<rparr>) ?w2"
      have g3: "(r, w') =
          (case ps_crtc s of
             None \<Rightarrow> (Inr ?p, ?w3)
           | Some c \<Rightarrow>
               (case drm_atomic_get_crtc_state hk ?w3 c of
                  (Inl err, w4) \<Rightarrow> (Inl err, w4)
                | (Inr crtc_state, w4) \<Rightarrow> (Inr ?p, w4)))"
        using n g l0 d Some
        by (simp add: drm_atomic_get_plane_state_def drm_atomic_get_existing_plane_state_def
              drm_modeset_lock_def Let_def)
      have w3: "planes (txn ?w3) = (planes (txn w))[pl := (planes (txn w) ! pl)
                               \<lparr>pe_state := Some ?p, pe_ptr := Some pl\<rparr>] \<and>
            crtcs (txn ?w3) = crtcs (txn w) \<and> connectors (txn ?w3) = connectors (txn w) \<and>
            trace ?w3 = trace w @ [Modeset_lock (Plane_mutex pl) 0,
                                  Plane_duplicate_state pl (Some ?p)] \<and>
            plane_mem ?w3 = (plane_mem w)(?p := s) \<and>
            crtc_mem ?w3 = crtc_mem w \<and> next_addr ?w3 = Suc ?p"
        by simp
      have "case ps_crtc s of
               None \<Rightarrow> r = Inr ?p \<and> w' = ?w3
             | Some c \<Rightarrow>
                 (\<exists>rc. drm_atomic_get_crtc_state hk ?w3 c = (rc, w') \<and>
                    (case rc of Inl e \<Rightarrow> r = Inl e | Inr q \<Rightarrow> r = Inr ?p))"
        using g3 by (auto split: option.splits prod.splits sum.splits)
      with w3 show ?thesis by blast
    qed
  qed
qed

lemma lock_keeps:
  assumes "drm_modeset_lock hk l w = (ret, w1)"
  shows "keeps_table w w1 \<and> txn w1 = txn w \<and> conn_mem w1 = conn_mem w \<and>
         crtc_mem w1 = crtc_mem w \<and> plane_mem w1 = plane_mem w \<and>
         next_addr w1 = next_addr w \<and> trace w1 = trace w @ [Modeset_lock l ret]"
proof -
  have "txn w1 = txn w" "trace w1 = trace w @ [Modeset_lock l ret]"
    using assms by (auto simp: drm_modeset_lock_def split: prod.splits)
  from keeps_table_same_txn [OF this] assms show ?thesis
    by (auto simp: drm_modeset_lock_def split: prod.splits)
qed

lemma grow_connectors_keeps:
  assumes "grow_connectors hk w k = (b, w2)"
  shows "keeps_table w w2 \<and> trace w2 = trace w \<and> (b \<longrightarrow> k < length (connectors (txn w2))) \<and>
         entry_state w2 (Connector k) = entry_state w (Connector k) \<and>
         crtcs (txn w2) = crtcs (txn w) \<and> planes (txn w2) = planes (txn w) \<and>
         conn_mem w2 = conn_mem w \<and> crtc_mem w2 = crtc_mem w \<and> plane_mem w2 = plane_mem w \<and>
         next_addr w2 = next_addr w"
proof (cases "k \<ge> length (connectors (txn w))")
  case False
  with assms show ?thesis by (simp add: grow_connectors_def keeps_table_refl)
next
  case True
  obtain ok e where m: "kmalloc hk (ext w) = (ok, e)" by fastforce
  show ?thesis
  proof (cases ok)
    case False
    with True m assms have "w2 = w\<lparr>ext := e\<rparr>" "b = False"
      by (simp_all add: grow_connectors_def Let_def)
    then show ?thesis
      by (auto simp: keeps_table_def in_table_def entry_state_def credit_def
            split: mode_object.splits)
  next
    case ok: True
    let ?alloc = "max (k + 1) (num_connector (mode_config (dev w)))"
    from ok True m assms have w2: "w2 = w\<lparr>ext := e,
        txn := (txn w)\<lparr>connectors := connectors (txn w) @
           replicate (?alloc - length (connectors (txn w))) empty_connector_entry\<rparr>\<rparr>" "b = True"
      by (simp_all add: grow_connectors_def Let_def)
    have len: "k < length (connectors (txn w2))" using w2 True by auto
    have ent: "\<And>j. entry_state w2 (Connector j) = entry_state w (Connector j)"
      using w2 by (auto simp: entry_state_def nth_append empty_connector_entry_def)
    have "keeps_table w w2"
      unfolding keeps_table_def
    proof (intro allI impI)
      fix ob
      assume "in_table w ob"
      then show "in_table w2 ob \<and>
        (\<forall>p. entry_state w ob = Some p \<longrightarrow>
           entry_state w2 ob = Some p \<and>
           dup_calls ob (trace w2) = dup_calls ob (trace w)) \<and>
        snapshots ob (trace w2) + credit w2 ob \<le> snapshots ob (trace w) + credit w ob"
        using ent w2
        by (cases ob) (auto simp: in_table_def credit_def, auto simp: entry_state_def)
    qed
    with len ent w2 show ?thesis by simp
  qed
qed


lemma keeps_table_store_connector:
  assumes "cne_state (connectors (txn w) ! k) = None"
    and "k < length (connectors (txn w))"
    and "connectors (txn w') = (connectors (txn w))[k := (connectors (txn w) ! k)
                               \<lparr>cne_state := Some p, cne_ptr := Some k\<rparr>]"
    and "crtcs (txn w') = crtcs (txn w)"
    and "planes (txn w') = planes (txn w)"
    and "trace w' = trace w @ [Connector_duplicate_state k (Some p), Connector_reference k]"
  shows "keeps_table w w'"
  unfolding keeps_table_def
proof (intro allI impI)
  fix ob
  assume t: "in_table w ob"
  show "in_table w' ob \<and>
        (\<forall>p. entry_state w ob = Some p \<longrightarrow>
           entry_state w' ob = Some p \<and>
           dup_calls ob (trace w') = dup_calls ob (trace w)) \<and>
        snapshots ob (trace w') + credit w' ob \<le> snapshots ob (trace w) + credit w ob"
  proof (cases ob)
    case (Connector k')
    with t assms show ?thesis
      by (cases "k' = k")
         (auto simp: in_table_def entry_state_def credit_def dup_calls_def snapshots_def)
  next
    case (Crtc c')
    with t assms show ?thesis
      by (auto simp: in_table_def entry_state_def credit_def dup_calls_def snapshots_def)
  next
    case (Plane p')
    with t assms show ?thesis
      by (auto simp: in_table_def entry_state_def credit_def dup_calls_def snapshots_def)
  qed
qed


text \<open>
  A call for a connector fails, or returns the stored snapshot, or stores a fresh snapshot
  (world \<open>w5\<close>) and then acquires the CRTC the snapshot references.
\<close>

lemma get_connector_state_cases:
  assumes g: "drm_atomic_get_connector_state hk w k = (r, w')"
  shows "(\<exists>e. r = Inl e \<and> keeps_table w w' \<and>
              dup_calls (Connector k) (trace w') \<le>
                (if entry_state w (Connector k) = None then 1 else 0) +
                dup_calls (Connector k) (trace w)) \<or>
         (\<exists>p. entry_state w (Connector k) = Some p \<and> r = Inr p \<and> keeps_table w w') \<or>
         (\<exists>w5 s. entry_state w (Connector k) = None \<and> keeps_table w w5 \<and>
            k < length (connectors (txn w5)) \<and>
            cne_state (connectors (txn w5) ! k) = Some (next_addr w) \<and>
            conn_mem w5 = (conn_mem w)(next_addr w := s) \<and>
            crtcs (txn w5) = crtcs (txn w) \<and>
            (case cns_crtc s of
               None \<Rightarrow> r = Inr (next_addr w) \<and> w' = w5
             | Some c \<Rightarrow>
                 (\<exists>rc. drm_atomic_get_crtc_state hk w5 c = (rc, w') \<and>
                    (case rc of Inl e \<Rightarrow> r = Inl e | Inr q \<Rightarrow> r = Inr (next_addr w)))))"
proof -
  obtain ret w1 where l: "drm_modeset_lock hk Connection_mutex w = (ret, w1)"
    by fastforce
  note lk = lock_keeps [OF l]
  show ?thesis
  proof (cases "ret = 0")
    case False
    with g l have "r = Inl ret" "w' = w1"
      by (simp_all add: drm_atomic_get_connector_state_def)
    with lk show ?thesis by (simp add: dup_calls_def)
  next
    case True
    obtain b w2 where gr: "grow_connectors hk w1 k = (b, w2)" by fastforce
    note gk = grow_connectors_keeps [OF gr]
    have k2: "keeps_table w w2" using lk gk keeps_table_trans by blast
    have e2: "entry_state w2 (Connector k) = entry_state w (Connector k)"
      using lk gk by (simp add: entry_state_def)
    have t2: "trace w2 = trace w @ [Modeset_lock Connection_mutex ret]" using lk gk by simp
    show ?thesis
    proof (cases b)
      case False
      with True g l gr have "r = Inl (- ENOMEM)" "w' = w2"
        by (simp_all add: drm_atomic_get_connector_state_def)
      with k2 t2 show ?thesis by (simp add: dup_calls_def)
    next
      case b: True
      then have len: "k < length (connectors (txn w2))" using gk by simp
      show ?thesis
      proof (cases "cne_state (connectors (txn w2) ! k)")
        case (Some p)
        with True b g l gr have "r = Inr p" "w' = w2"
          by (simp_all add: drm_atomic_get_connector_state_def)
        moreover have "entry_state w (Connector k) = Some p"
          using e2 len Some by (simp add: entry_state_def)
        ultimately show ?thesis using k2 by simp
      next
        case None
        then have en: "entry_state w (Connector k) = None"
          using e2 len by (simp add: entry_state_def)
        obtain so e where d: "connector_duplicate_state hk k w2 = (so, e)" by fastforce
        show ?thesis
        proof (cases so)
          case n: None
          let ?w3 = "log (Connector_duplicate_state k None) (w2\<lparr>ext := e\<rparr>)"
          from n None True b g l gr d have r: "r = Inl (- ENOMEM)" "w' = ?w3"
            by (simp_all add: drm_atomic_get_connector_state_def)
          have "keeps_table w2 ?w3"
            by (rule keeps_table_same_txn [where evs = "[Connector_duplicate_state k None]"])
               (use None len in \<open>auto simp: entry_state_def elim: is_dup.elims is_snapshot.elims\<close>)
          with k2 have "keeps_table w ?w3" by (rule keeps_table_trans)
          with r en t2 show ?thesis by (simp add: dup_calls_def)
        next
          case (Some s)
          let ?p = "next_addr w2"
          let ?w3 = "log (Connector_duplicate_state k (Some ?p))
                       (w2\<lparr>ext := e, conn_mem := (conn_mem w2)(?p := s),
                           next_addr := Suc ?p\<rparr>)"
          let ?w4 = "log (Connector_reference k) ?w3"
          let ?w5 = "set_connector_entry k
                       (\<lambda>en. en\<lparr>cne_state := Some ?p, cne_ptr := Some k\<rparr>) ?w4"
          have p: "?p = next_addr w" using lk gk by simp
          have g5: "(r, w') =
              (case cns_crtc s of
                 None \<Rightarrow> (Inr ?p, ?w5)
               | Some c \<Rightarrow>
                   (case drm_atomic_get_crtc_state hk ?w5 c of
                      (Inl err, w6) \<Rightarrow> (Inl err, w6)
                    | (Inr crtc_state, w6) \<Rightarrow> (Inr ?p, w6)))"
            using Some None True b g l gr d
            by (simp add: drm_atomic_get_connector_state_def Let_def)
          have "keeps_table w2 ?w5"
            by (rule keeps_table_store_connector [OF None len, where p = ?p]) simp_all
          with k2 have k5: "keeps_table w ?w5" by (rule keeps_table_trans)
          have f5: "k < length (connectors (txn ?w5))"
            "cne_state (connectors (txn ?w5) ! k) = Some (next_addr w)"
            "conn_mem ?w5 = (conn_mem w)(next_addr w := s)"
            "crtcs (txn ?w5) = crtcs (txn w)"
            using len p lk gk by simp_all
          have "case cns_crtc s of
               None \<Rightarrow> r = Inr (next_addr w) \<and> w' = ?w5
             | Some c \<Rightarrow>
                 (\<exists>rc. drm_atomic_get_crtc_state hk ?w5 c = (rc, w') \<and>
                    (case rc of Inl e \<Rightarrow> r = Inl e | Inr q \<Rightarrow> r = Inr (next_addr w)))"
            using g5 p by (auto split: option.splits prod.splits sum.splits)
          with en k5 f5 show ?thesis by blast
        qed
      qed
    qed
  qed
qed

subsection \<open>Get-or-create returns one snapshot per object\<close>

lemma get_crtc_state_frame:
  assumes "drm_atomic_get_crtc_state hk w c = (r, w')"
  shows "plane_mem w' = plane_mem w \<and> conn_mem w' = conn_mem w \<and>
         planes (txn w') = planes (txn w) \<and> connectors (txn w') = connectors (txn w) \<and>
         dev w' = dev w \<and> length (crtcs (txn w')) = length (crtcs (txn w))"
proof (cases "ce_state (crtcs (txn w) ! c)")
  case (Some q)
  with assms get_crtc_state_existing [OF Some, of hk] show ?thesis by simp
next
  case None
  from get_crtc_state_new [OF None assms] show ?thesis by auto
qed

text \<open>The tail shared by the plane and connector paths: acquire the referenced CRTC.\<close>

lemma nested_crtc_result:
  assumes "case co of
             None \<Rightarrow> r = Inr a \<and> w' = w3
           | Some c \<Rightarrow>
               (\<exists>rc. drm_atomic_get_crtc_state hk w3 c = (rc, w') \<and>
                  (case rc of Inl e \<Rightarrow> r = Inl e | Inr q \<Rightarrow> r = Inr a))"
  shows "keeps_table w3 w'"
    and "plane_mem w' = plane_mem w3 \<and> conn_mem w' = conn_mem w3"
    and "r = Inr p \<Longrightarrow> p = a"
    and "r = Inr p \<Longrightarrow> co = Some c \<Longrightarrow> c < length (crtcs (txn w3)) \<Longrightarrow>
           ce_state (crtcs (txn w') ! c) \<noteq> None"
proof -
  have "keeps_table w3 w' \<and> (plane_mem w' = plane_mem w3 \<and> conn_mem w' = conn_mem w3) \<and>
        (r = Inr p \<longrightarrow> p = a) \<and>
        (r = Inr p \<longrightarrow> co = Some c \<longrightarrow> c < length (crtcs (txn w3)) \<longrightarrow>
           ce_state (crtcs (txn w') ! c) \<noteq> None)"
  proof (cases co)
    case None
    with assms show ?thesis by (simp add: keeps_table_refl)
  next
    case (Some c0)
    with assms obtain rc where g: "drm_atomic_get_crtc_state hk w3 c0 = (rc, w')"
      and rc: "case rc of Inl e \<Rightarrow> r = Inl e | Inr q \<Rightarrow> r = Inr a"
      by auto
    note k = get_crtc_state_keeps [OF g] and f = get_crtc_state_frame [OF g]
    show ?thesis
    proof (cases rc)
      case (Inl e)
      with rc k f show ?thesis by simp
    next
      case (Inr q)
      with g get_crtc_state_populates [of hk w3 c0 q w'] rc k f Some show ?thesis
        by auto
    qed
  qed
  then show "keeps_table w3 w'"
    and "plane_mem w' = plane_mem w3 \<and> conn_mem w' = conn_mem w3"
    and "r = Inr p \<Longrightarrow> p = a"
    and "r = Inr p \<Longrightarrow> co = Some c \<Longrightarrow> c < length (crtcs (txn w3)) \<Longrightarrow>
           ce_state (crtcs (txn w') ! c) \<noteq> None"
    by simp_all
qed







lemma get_states_length [simp]: "length (get_states hk w obs) = length obs"
  by (induction obs arbitrary: w) (auto split: prod.splits)




lemmas get_state_eval =
  get_state_def drm_atomic_get_crtc_state_def drm_atomic_get_plane_state_def
  drm_atomic_get_connector_state_def drm_atomic_get_existing_crtc_state_def
  drm_atomic_get_existing_plane_state_def drm_modeset_lock_def grow_connectors_def
  hooks0_def world0_def dev0_def config0_def crtc_state0_def plane_state0_def
  connector_state0_def empty_crtc_entry_def empty_plane_entry_def log_def set_crtc_entry_def set_plane_entry_def
  set_connector_entry_def empty_connector_entry_def Let_def in_table_def entry_state_def
  credit_def dup_calls_def snapshots_def



subsection \<open>Get-or-create of a plane or connector acquires its CRTC\<close>

text \<open>
  C10, as amended.  When a get-or-create call for a plane or a connector finds the entry
  empty, duplicates the state and succeeds, and the snapshot it returns references a CRTC
  of the device, that CRTC's entry is populated when the call returns.
\<close>

theorem get_state_acquires_crtc:
  assumes e: "entry_state w ob = None"
    and g: "get_state hk w ob = (Inr p, w')"
    and c: "c < length (crtcs (txn w))"
  shows "(\<forall>pl. ob = Plane pl \<and> ps_crtc (plane_mem w' p) = Some c \<longrightarrow>
            entry_state w' (Crtc c) \<noteq> None) \<and>
         (\<forall>k. ob = Connector k \<and> cns_crtc (conn_mem w' p) = Some c \<longrightarrow>
            entry_state w' (Crtc c) \<noteq> None)"
proof (intro conjI allI impI)
  fix pl
  assume a: "ob = Plane pl \<and> ps_crtc (plane_mem w' p) = Some c"
  with g have gp: "drm_atomic_get_plane_state hk w pl = (Inr p, w')"
    by (simp add: get_state_def)
  from e a have n: "pe_state (planes (txn w) ! pl) = None" by (simp add: entry_state_def)
  from get_plane_state_new [OF n gp] show "entry_state w' (Crtc c) \<noteq> None"
  proof (elim disjE exE conjE, goal_cases)
    case (3 w3 s)
    note r = nested_crtc_result [OF 3(8)]
    from r(3) have p: "p = next_addr w" by simp
    with r(2) 3(5) a have "ps_crtc s = Some c" by simp
    from r(4) [OF _ this] 3(2) c show ?case by (simp add: entry_state_def)
  qed simp_all
next
  fix k
  assume a: "ob = Connector k \<and> cns_crtc (conn_mem w' p) = Some c"
  with g have gc: "drm_atomic_get_connector_state hk w k = (Inr p, w')"
    by (simp add: get_state_def)
  from get_connector_state_cases [OF gc] show "entry_state w' (Crtc c) \<noteq> None"
  proof (elim disjE exE conjE, goal_cases)
    case (1 e)
    then show ?case by simp
  next
    case (2 q)
    with e a show ?case by simp
  next
    case (3 w5 s)
    note r = nested_crtc_result [OF 3(7)]
    from r(3) have p: "p = next_addr w" by simp
    with r(2) 3(5) a have "cns_crtc s = Some c" by simp
    from r(4) [OF _ this] 3(6) c show ?case by (simp add: entry_state_def)
  qed
qed

text \<open>
  The claim as stated fails for a state that is returned from an entry populated by an
  earlier call that failed: with a CRTC duplicate hook that fails, the first call for
  plane 0 (committed on CRTC 0) stores the plane snapshot and returns \<open>-ENOMEM\<close>; the
  second call returns that snapshot, which references CRTC 0, whose entry is empty.
\<close>

lemmas failed_get_eval =
  world_after_failed_get_def hooks_crtc_nomem_def world_plane_on_crtc_def upd_plane_state_def

theorem get_state_acquires_crtc_counterexample:
  "drm_atomic_get_plane_state hooks_crtc_nomem world_plane_on_crtc 0 =
     (Inl (- ENOMEM), world_after_failed_get) \<and>
   get_state hooks_crtc_nomem world_after_failed_get (Plane 0) =
     (Inr 10, world_after_failed_get) \<and>
   ps_crtc (plane_mem world_after_failed_get 10) = Some 0 \<and>
   entry_state world_after_failed_get (Crtc 0) = None"
  by (simp add: failed_get_eval get_state_eval)

text \<open>With drivers that succeed, the call for plane 0 also populates the entry of CRTC 0.\<close>

theorem get_state_acquires_crtc_witness:
  "entry_state world_plane_on_crtc (Plane 0) = None \<and>
   fst (get_state hooks0 world_plane_on_crtc (Plane 0)) = Inr 10 \<and>
   ps_crtc (plane_mem (snd (get_state hooks0 world_plane_on_crtc (Plane 0))) 10) = Some 0 \<and>
   entry_state (snd (get_state hooks0 world_plane_on_crtc (Plane 0))) (Crtc 0) \<noteq> None"
proof -
  let ?w = "world_plane_on_crtc"
  obtain w' where g: "get_state hooks0 ?w (Plane 0) = (Inr 10, w')"
    by (simp add: failed_get_eval get_state_eval)
  have e: "entry_state ?w (Plane 0) = None" by (simp add: failed_get_eval get_state_eval)
  have c: "0 < length (crtcs (txn ?w))" by (simp add: failed_get_eval get_state_eval)
  have p: "ps_crtc (plane_mem w' 10) = Some 0"
    using g by (auto simp add: failed_get_eval get_state_eval)
  from get_state_acquires_crtc [OF e g c] p have "entry_state w' (Crtc 0) \<noteq> None"
    by blast
  with e g p show ?thesis by simp
qed

subsection \<open>Linking a plane to a CRTC\<close>

lemma bit_index_bit: "bit (index_bit i) j \<longleftrightarrow> j = i \<and> i < 32"
  by (auto simp: index_bit_def bit_exp_iff possible_bit_word)

lemma bit_clear_index:
  "bit (m AND NOT (index_bit i)) j \<longleftrightarrow> bit m j \<and> \<not> (j = i \<and> i < 32)"
  by (auto simp: bit_and_iff bit_not_iff bit_index_bit dest: bit_imp_le_length)

lemma bit_set_index:
  "bit (m OR index_bit i) j \<longleftrightarrow> bit m j \<or> (j = i \<and> i < 32)"
  by (auto simp: bit_or_iff bit_index_bit)

lemma get_crtc_state_err_nonzero:
  assumes "drm_atomic_get_crtc_state hk w c = (Inl e, w')"
  shows "e \<noteq> 0"
  using assms
  by (auto simp: drm_atomic_get_crtc_state_def drm_modeset_lock_def Let_def
      split: option.splits prod.splits if_splits)

text \<open>What a successful CRTC get-or-create does to memory and to the CRTC table.\<close>

lemma get_crtc_state_ok:
  assumes g: "drm_atomic_get_crtc_state hk w c = (Inr q, w')"
    and d: "crtc_states_distinct w" and c: "c < length (crtcs (txn w))"
  shows "plane_mem w' = plane_mem w"
    and "next_addr w \<le> next_addr w'"
    and "\<forall>a. a < next_addr w \<longrightarrow> crtc_mem w' a = crtc_mem w a"
    and "ce_state (crtcs (txn w') ! c) = Some q"
    and "crtc_states_distinct w'"
    and "length (crtcs (txn w')) = length (crtcs (txn w))"
    and "\<forall>i p. i < length (crtcs (txn w)) \<and> ce_state (crtcs (txn w) ! i) = Some p \<longrightarrow>
           ce_state (crtcs (txn w') ! i) = Some p"
proof -
  have "plane_mem w' = plane_mem w \<and> next_addr w \<le> next_addr w' \<and>
        (\<forall>a. a < next_addr w \<longrightarrow> crtc_mem w' a = crtc_mem w a) \<and>
        ce_state (crtcs (txn w') ! c) = Some q \<and> crtc_states_distinct w' \<and>
        length (crtcs (txn w')) = length (crtcs (txn w)) \<and>
        (\<forall>i p. i < length (crtcs (txn w)) \<and> ce_state (crtcs (txn w) ! i) = Some p \<longrightarrow>
           ce_state (crtcs (txn w') ! i) = Some p)"
  proof (cases "ce_state (crtcs (txn w) ! c)")
    case (Some p)
    with g get_crtc_state_existing [OF Some, of hk] d show ?thesis by simp
  next
    case None
    from get_crtc_state_new [OF None g] have
      n: "plane_mem w' = plane_mem w" "q = next_addr w" "next_addr w' = Suc (next_addr w)"
         "\<exists>s. crtc_mem w' = (crtc_mem w)(next_addr w := s)"
         "crtcs (txn w') = (crtcs (txn w))[c := (crtcs (txn w) ! c)
                               \<lparr>ce_state := Some (next_addr w), ce_ptr := Some c\<rparr>]"
      by auto
    have nth: "\<And>i. i < length (crtcs (txn w)) \<Longrightarrow>
        ce_state (crtcs (txn w') ! i) =
          (if i = c then Some (next_addr w) else ce_state (crtcs (txn w) ! i))"
      using n(5) by (simp add: nth_list_update)
    from d have d1: "\<And>i p. i < length (crtcs (txn w)) \<Longrightarrow>
        ce_state (crtcs (txn w) ! i) = Some p \<Longrightarrow> p < next_addr w"
      and d2: "\<And>i j p. i < length (crtcs (txn w)) \<Longrightarrow> j < length (crtcs (txn w)) \<Longrightarrow>
        ce_state (crtcs (txn w) ! i) = Some p \<Longrightarrow> ce_state (crtcs (txn w) ! j) = Some p \<Longrightarrow>
        i = j"
      unfolding crtc_states_distinct_def by blast+
    have "crtc_states_distinct w'"
      unfolding crtc_states_distinct_def
    proof (intro conjI allI impI)
      fix i j p
      assume a: "i < length (crtcs (txn w')) \<and> j < length (crtcs (txn w')) \<and>
        ce_state (crtcs (txn w') ! i) = Some p \<and> ce_state (crtcs (txn w') ! j) = Some p"
      then have l: "i < length (crtcs (txn w))" "j < length (crtcs (txn w))"
        using n(5) by simp_all
      show "i = j"
      proof (cases "i = c")
        case True
        show ?thesis
        proof (cases "j = c")
          case False
          with True a nth [OF l(1)] nth [OF l(2)]
          have "ce_state (crtcs (txn w) ! j) = Some (next_addr w)" by simp
          from d1 [OF l(2) this] show ?thesis by simp
        qed (use True in simp)
      next
        case False
        show ?thesis
        proof (cases "j = c")
          case True
          with False a nth [OF l(1)] nth [OF l(2)]
          have "ce_state (crtcs (txn w) ! i) = Some (next_addr w)" by simp
          from d1 [OF l(1) this] show ?thesis by simp
        next
          case jc: False
          with False a nth [OF l(1)] nth [OF l(2)]
          have "ce_state (crtcs (txn w) ! i) = Some p" "ce_state (crtcs (txn w) ! j) = Some p"
            by simp_all
          from d2 [OF l this] show ?thesis .
        qed
      qed
    next
      fix i p
      assume a: "i < length (crtcs (txn w')) \<and> ce_state (crtcs (txn w') ! i) = Some p"
      then have l: "i < length (crtcs (txn w))" using n(5) by simp
      show "p < next_addr w'"
      proof (cases "i = c")
        case True
        with a nth [OF l] n(3) show ?thesis by simp
      next
        case False
        with a nth [OF l] have "ce_state (crtcs (txn w) ! i) = Some p" by simp
        from d1 [OF l this] n(3) show ?thesis by simp
      qed
    qed
    moreover have "\<forall>i p. i < length (crtcs (txn w)) \<and> ce_state (crtcs (txn w) ! i) = Some p \<longrightarrow>
           ce_state (crtcs (txn w') ! i) = Some p"
      using nth None by auto
    ultimately show ?thesis using n nth [OF c] by auto
  qed
  then show "plane_mem w' = plane_mem w"
    and "next_addr w \<le> next_addr w'"
    and "\<forall>a. a < next_addr w \<longrightarrow> crtc_mem w' a = crtc_mem w a"
    and "ce_state (crtcs (txn w') ! c) = Some q"
    and "crtc_states_distinct w'"
    and "length (crtcs (txn w')) = length (crtcs (txn w))"
    and "\<forall>i p. i < length (crtcs (txn w)) \<and> ce_state (crtcs (txn w) ! i) = Some p \<longrightarrow>
           ce_state (crtcs (txn w') ! i) = Some p"
    by simp_all
qed


lemma crtc_states_distinct_cong:
  "txn w' = txn w \<Longrightarrow> next_addr w' = next_addr w \<Longrightarrow>
     crtc_states_distinct w' = crtc_states_distinct w"
  by (simp add: crtc_states_distinct_def)

lemma crtc_states_distinct_upd [simp]:
  "crtc_states_distinct (upd_crtc_state q f w) = crtc_states_distinct w"
  "crtc_states_distinct (upd_plane_state q g w) = crtc_states_distinct w"
  by (simp_all add: crtc_states_distinct_def)

text \<open>The second half of the link call, when it succeeds.\<close>

lemma set_crtc_for_plane_link_ok:
  assumes l: "set_crtc_for_plane_link hk w ps pl crtc = (0, w')"
    and d: "crtc_states_distinct w"
  shows "ps_crtc (plane_mem w' ps) = crtc \<and>
         (\<forall>i p. i < length (crtcs (txn w)) \<and> ce_state (crtcs (txn w) ! i) = Some p \<longrightarrow>
            ce_state (crtcs (txn w') ! i) = Some p) \<and>
         crtc_states_distinct w' \<and>
         (crtc = None \<longrightarrow> crtc_mem w' = crtc_mem w) \<and>
         (\<forall>new. crtc = Some new \<and> new < length (crtcs (txn w)) \<longrightarrow>
            (\<exists>q. ce_state (crtcs (txn w') ! new) = Some q \<and>
               plane_mask (crtc_mem w' q) = plane_mask (crtc_mem w' q) OR index_bit pl \<and>
               (\<forall>a. a < next_addr w \<and> a \<noteq> q \<longrightarrow> crtc_mem w' a = crtc_mem w a) \<and>
               (q < next_addr w \<longrightarrow>
                  plane_mask (crtc_mem w' q) = plane_mask (crtc_mem w q) OR index_bit pl)))"
proof (cases crtc)
  case None
  with l have "w' = upd_plane_state ps (\<lambda>s. s\<lparr>ps_crtc := None\<rparr>) w"
    by (simp add: set_crtc_for_plane_link_def)
  with None d show ?thesis by simp
next
  case (Some new)
  let ?w1 = "upd_plane_state ps (\<lambda>s. s\<lparr>ps_crtc := crtc\<rparr>) w"
  obtain r w2 where g: "drm_atomic_get_crtc_state hk ?w1 new = (r, w2)" by fastforce
  have d1: "crtc_states_distinct ?w1"
    using d by simp
  show ?thesis
  proof (cases r)
    case (Inl err)
    with g get_crtc_state_err_nonzero [of hk ?w1 new err w2] l Some show ?thesis
      by (simp add: set_crtc_for_plane_link_def)
  next
    case (Inr q)
    with g l Some have w': "w' = upd_crtc_state q
                         (\<lambda>s. s\<lparr>plane_mask := plane_mask s OR index_bit pl\<rparr>) w2"
      by (simp add: set_crtc_for_plane_link_def)
    from g Inr have g': "drm_atomic_get_crtc_state hk ?w1 new = (Inr q, w2)" by simp
    have f: "plane_mem w2 = plane_mem ?w1" "length (crtcs (txn w2)) = length (crtcs (txn ?w1))"
      using get_crtc_state_frame [OF g'] by simp_all
    have pres: "\<forall>i p. i < length (crtcs (txn w)) \<and> ce_state (crtcs (txn w) ! i) = Some p \<longrightarrow>
            ce_state (crtcs (txn w') ! i) = Some p"
    proof (cases "ce_state (crtcs (txn ?w1) ! new)")
      case (Some p0)
      with g' get_crtc_state_existing [OF Some, of hk] have "w2 = ?w1" by simp
      then have "txn w' = txn w" using w' by simp
      then show ?thesis by simp
    next
      case None
      from get_crtc_state_new [OF None g']
      have c2: "crtcs (txn w2) = (crtcs (txn w))[new := (crtcs (txn w) ! new)
                               \<lparr>ce_state := Some (next_addr w), ce_ptr := Some new\<rparr>]"
        by auto
      show ?thesis
      proof (intro allI impI)
        fix i p
        assume a: "i < length (crtcs (txn w)) \<and> ce_state (crtcs (txn w) ! i) = Some p"
        with None have "i \<noteq> new" by auto
        with a c2 w' show "ce_state (crtcs (txn w') ! i) = Some p" by simp
      qed
    qed
    have dist: "crtc_states_distinct w'"
    proof (cases "new < length (crtcs (txn w))")
      case True
      from get_crtc_state_ok(5) [OF g' d1] True w' show ?thesis by simp
    next
      case False
      have "crtc_states_distinct w2"
      proof (cases "ce_state (crtcs (txn ?w1) ! new)")
        case (Some p0)
        with g' get_crtc_state_existing [OF Some, of hk] have "w2 = ?w1" by simp
        with d1 show ?thesis by simp
      next
        case None
        from get_crtc_state_new [OF None g'] False d1 show ?thesis
          by (auto simp: crtc_states_distinct_def) (metis less_Suc_eq)+
      qed
      with w' show ?thesis by simp
    qed
    have new: "new < length (crtcs (txn w)) \<longrightarrow>
            (ce_state (crtcs (txn w') ! new) = Some q \<and>
               plane_mask (crtc_mem w' q) = plane_mask (crtc_mem w' q) OR index_bit pl \<and>
               (\<forall>a. a < next_addr w \<and> a \<noteq> q \<longrightarrow> crtc_mem w' a = crtc_mem w a) \<and>
               (q < next_addr w \<longrightarrow>
                  plane_mask (crtc_mem w' q) = plane_mask (crtc_mem w q) OR index_bit pl))"
    proof
      assume n: "new < length (crtcs (txn w))"
      then have n1: "new < length (crtcs (txn ?w1))" by simp
      note ok = get_crtc_state_ok [OF g' d1 n1]
      from ok(4) w' have "ce_state (crtcs (txn w') ! new) = Some q" by simp
      moreover have "plane_mask (crtc_mem w' q) = plane_mask (crtc_mem w' q) OR index_bit pl"
        using w' by (simp add: or.assoc)
      moreover have "\<forall>a. a < next_addr w \<and> a \<noteq> q \<longrightarrow> crtc_mem w' a = crtc_mem w a"
        using ok(3) w' by simp
      moreover have "q < next_addr w \<longrightarrow>
                  plane_mask (crtc_mem w' q) = plane_mask (crtc_mem w q) OR index_bit pl"
        using ok(3) w' by simp
      ultimately show "ce_state (crtcs (txn w') ! new) = Some q \<and>
               plane_mask (crtc_mem w' q) = plane_mask (crtc_mem w' q) OR index_bit pl \<and>
               (\<forall>a. a < next_addr w \<and> a \<noteq> q \<longrightarrow> crtc_mem w' a = crtc_mem w a) \<and>
               (q < next_addr w \<longrightarrow>
                  plane_mask (crtc_mem w' q) = plane_mask (crtc_mem w q) OR index_bit pl)"
        by blast
    qed
    have "ps_crtc (plane_mem w' ps) = crtc" using w' f by simp
    with pres dist new Some show ?thesis by auto
  qed
qed


lemma set_crtc_for_plane_unfold:
  "ps_crtc (plane_mem w ps) \<noteq> crtc \<Longrightarrow>
     drm_atomic_set_crtc_for_plane hk w ps crtc =
       (case ps_crtc (plane_mem w ps) of
          None \<Rightarrow> set_crtc_for_plane_link hk w ps (ps_plane (plane_mem w ps)) crtc
        | Some old \<Rightarrow>
            (case drm_atomic_get_crtc_state hk w old of
               (Inl err, w1) \<Rightarrow> (err, w1)
             | (Inr cs, w1) \<Rightarrow>
                 set_crtc_for_plane_link hk
                   (upd_crtc_state cs
                      (\<lambda>s. s\<lparr>plane_mask :=
                                plane_mask s AND NOT (index_bit (ps_plane (plane_mem w ps)))\<rparr>) w1)
                   ps (ps_plane (plane_mem w ps)) crtc))"
  by (simp add: drm_atomic_set_crtc_for_plane_def Let_def)

text \<open>
  C3.  In a transaction whose stored CRTC snapshots are distinct allocations, for a plane
  of index below 32 and CRTCs of the device: setting the plane state's CRTC to the CRTC it
  already has returns 0 and changes nothing; and after any other call that returns 0 the
  plane state references the new CRTC, the state stored for the old CRTC (if there was
  one) does not have the plane's bit in its plane mask, the state stored for the new CRTC
  (if there is one) has it, and in every CRTC state that existed before the call all
  other bits of the plane mask are unchanged.
\<close>

theorem set_crtc_for_plane_masks:
  assumes d: "crtc_states_distinct w"
    and i: "ps_plane (plane_mem w plane_state) < 32"
    and oi: "\<forall>old. ps_crtc (plane_mem w plane_state) = Some old \<longrightarrow>
                old < length (crtcs (txn w))"
    and ni: "\<forall>new. crtc = Some new \<longrightarrow> new < length (crtcs (txn w))"
  shows "(ps_crtc (plane_mem w plane_state) = crtc \<longrightarrow>
            drm_atomic_set_crtc_for_plane hk w plane_state crtc = (0, w)) \<and>
         (\<forall>w'. drm_atomic_set_crtc_for_plane hk w plane_state crtc = (0, w') \<and>
               ps_crtc (plane_mem w plane_state) \<noteq> crtc \<longrightarrow>
            ps_crtc (plane_mem w' plane_state) = crtc \<and>
            (\<forall>old. ps_crtc (plane_mem w plane_state) = Some old \<longrightarrow>
               (\<exists>q. ce_state (crtcs (txn w') ! old) = Some q \<and>
                  \<not> bit (plane_mask (crtc_mem w' q)) (ps_plane (plane_mem w plane_state)))) \<and>
            (\<forall>new. crtc = Some new \<longrightarrow>
               (\<exists>q. ce_state (crtcs (txn w') ! new) = Some q \<and>
                  bit (plane_mask (crtc_mem w' q)) (ps_plane (plane_mem w plane_state)))) \<and>
            (\<forall>a j. a < next_addr w \<and> j \<noteq> ps_plane (plane_mem w plane_state) \<longrightarrow>
               bit (plane_mask (crtc_mem w' a)) j = bit (plane_mask (crtc_mem w a)) j))"
proof (intro conjI allI)
  show "ps_crtc (plane_mem w plane_state) = crtc \<longrightarrow>
          drm_atomic_set_crtc_for_plane hk w plane_state crtc = (0, w)"
    by (simp add: drm_atomic_set_crtc_for_plane_def)
next
  let ?pl = "ps_plane (plane_mem w plane_state)"
  fix w'
  show "drm_atomic_set_crtc_for_plane hk w plane_state crtc = (0, w') \<and>
               ps_crtc (plane_mem w plane_state) \<noteq> crtc \<longrightarrow>
            ps_crtc (plane_mem w' plane_state) = crtc \<and>
            (\<forall>old. ps_crtc (plane_mem w plane_state) = Some old \<longrightarrow>
               (\<exists>q. ce_state (crtcs (txn w') ! old) = Some q \<and>
                  \<not> bit (plane_mask (crtc_mem w' q)) ?pl)) \<and>
            (\<forall>new. crtc = Some new \<longrightarrow>
               (\<exists>q. ce_state (crtcs (txn w') ! new) = Some q \<and>
                  bit (plane_mask (crtc_mem w' q)) ?pl)) \<and>
            (\<forall>a j. a < next_addr w \<and> j \<noteq> ?pl \<longrightarrow>
               bit (plane_mask (crtc_mem w' a)) j = bit (plane_mask (crtc_mem w a)) j)"
  proof
  assume a: "drm_atomic_set_crtc_for_plane hk w plane_state crtc = (0, w') \<and>
             ps_crtc (plane_mem w plane_state) \<noteq> crtc"
  then have u: "(case ps_crtc (plane_mem w plane_state) of
          None \<Rightarrow> set_crtc_for_plane_link hk w plane_state ?pl crtc
        | Some old \<Rightarrow>
            (case drm_atomic_get_crtc_state hk w old of
               (Inl err, w1) \<Rightarrow> (err, w1)
             | (Inr cs, w1) \<Rightarrow>
                 set_crtc_for_plane_link hk
                   (upd_crtc_state cs
                      (\<lambda>s. s\<lparr>plane_mask := plane_mask s AND NOT (index_bit ?pl)\<rparr>) w1)
                   plane_state ?pl crtc)) = (0, w')"
    using set_crtc_for_plane_unfold [of w plane_state crtc hk] by simp
  \<comment> \<open>the world \<open>wx\<close> in which the second half runs, and the first half's effect\<close>
  have "\<exists>wx. set_crtc_for_plane_link hk wx plane_state ?pl crtc = (0, w') \<and>
          crtc_states_distinct wx \<and> next_addr w \<le> next_addr wx \<and>
          length (crtcs (txn wx)) = length (crtcs (txn w)) \<and>
          (\<forall>a j. a < next_addr w \<and> j \<noteq> ?pl \<longrightarrow>
             bit (plane_mask (crtc_mem wx a)) j = bit (plane_mask (crtc_mem w a)) j) \<and>
          (\<forall>old. ps_crtc (plane_mem w plane_state) = Some old \<longrightarrow>
             (\<exists>q. ce_state (crtcs (txn wx) ! old) = Some q \<and> q < next_addr wx \<and>
                \<not> bit (plane_mask (crtc_mem wx q)) ?pl))"
  proof (cases "ps_crtc (plane_mem w plane_state)")
    case None
    with u d show ?thesis
      by (intro exI [of _ w]) simp
  next
    case (Some old)
    with oi have len: "old < length (crtcs (txn w))" by simp
    obtain r w1 where g: "drm_atomic_get_crtc_state hk w old = (r, w1)" by fastforce
    show ?thesis
    proof (cases r)
      case (Inl err)
      with g get_crtc_state_err_nonzero [of hk w old err w1] u Some show ?thesis
        by simp
    next
      case (Inr q)
      let ?wx = "upd_crtc_state q
                   (\<lambda>s. s\<lparr>plane_mask := plane_mask s AND NOT (index_bit ?pl)\<rparr>) w1"
      from g Inr have g': "drm_atomic_get_crtc_state hk w old = (Inr q, w1)" by simp
      from g' u Some have l: "set_crtc_for_plane_link hk ?wx plane_state ?pl crtc = (0, w')"
        by simp
      note ok = get_crtc_state_ok [OF g' d len]
      have bits: "\<forall>a j. a < next_addr w \<and> j \<noteq> ?pl \<longrightarrow>
             bit (plane_mask (crtc_mem ?wx a)) j = bit (plane_mask (crtc_mem w a)) j"
        using ok(3) by (auto simp: bit_clear_index)
      from ok(4) have e: "ce_state (crtcs (txn ?wx) ! old) = Some q" by simp
      from ok(5) ok(4) ok(6) len have qn: "q < next_addr w1"
        unfolding crtc_states_distinct_def by auto
      have old: "\<forall>old'. ps_crtc (plane_mem w plane_state) = Some old' \<longrightarrow>
             (\<exists>q. ce_state (crtcs (txn ?wx) ! old') = Some q \<and> q < next_addr ?wx \<and>
                \<not> bit (plane_mask (crtc_mem ?wx q)) ?pl)"
        using Some e qn i by (auto simp: bit_clear_index)
      from l ok(2,5,6) bits old show ?thesis by (intro exI [of _ ?wx]) simp
    qed
  qed
  then obtain wx where l: "set_crtc_for_plane_link hk wx plane_state ?pl crtc = (0, w')"
    and dx: "crtc_states_distinct wx" and nx: "next_addr w \<le> next_addr wx"
    and lx: "length (crtcs (txn wx)) = length (crtcs (txn w))"
    and bx: "\<forall>a j. a < next_addr w \<and> j \<noteq> ?pl \<longrightarrow>
             bit (plane_mask (crtc_mem wx a)) j = bit (plane_mask (crtc_mem w a)) j"
    and ox: "\<forall>old. ps_crtc (plane_mem w plane_state) = Some old \<longrightarrow>
             (\<exists>q. ce_state (crtcs (txn wx) ! old) = Some q \<and> q < next_addr wx \<and>
                \<not> bit (plane_mask (crtc_mem wx q)) ?pl)"
    by blast
  note lk = set_crtc_for_plane_link_ok [OF l dx]
  from lk have c1: "ps_crtc (plane_mem w' plane_state) = crtc" by simp
  have c3: "\<forall>new. crtc = Some new \<longrightarrow>
               (\<exists>q. ce_state (crtcs (txn w') ! new) = Some q \<and>
                  bit (plane_mask (crtc_mem w' q)) ?pl)"
  proof (intro allI impI)
    fix new
    assume n: "crtc = Some new"
    with ni lx have "new < length (crtcs (txn wx))" by simp
    with n lk obtain q where q: "ce_state (crtcs (txn w') ! new) = Some q"
      "plane_mask (crtc_mem w' q) = plane_mask (crtc_mem w' q) OR index_bit ?pl"
      by auto
    have "bit (plane_mask (crtc_mem w' q) OR index_bit ?pl) ?pl"
      using i by (simp add: bit_set_index)
    with q show "\<exists>q. ce_state (crtcs (txn w') ! new) = Some q \<and>
                  bit (plane_mask (crtc_mem w' q)) ?pl"
      by auto
  qed
  have c4: "\<forall>a j. a < next_addr w \<and> j \<noteq> ?pl \<longrightarrow>
               bit (plane_mask (crtc_mem w' a)) j = bit (plane_mask (crtc_mem w a)) j"
  proof (intro allI impI)
    fix a j
    assume aj: "a < next_addr w \<and> j \<noteq> ?pl"
    then have ax: "a < next_addr wx" using nx by simp
    have "bit (plane_mask (crtc_mem w' a)) j = bit (plane_mask (crtc_mem wx a)) j"
    proof (cases crtc)
      case None
      with lk show ?thesis by simp
    next
      case (Some new)
      with ni lx have "new < length (crtcs (txn wx))" by simp
      with lk Some obtain q where q: "ce_state (crtcs (txn w') ! new) = Some q"
        "\<forall>a. a < next_addr wx \<and> a \<noteq> q \<longrightarrow> crtc_mem w' a = crtc_mem wx a"
        "q < next_addr wx \<longrightarrow>
                plane_mask (crtc_mem w' q) = plane_mask (crtc_mem wx q) OR index_bit ?pl"
        by auto
      show ?thesis
      proof (cases "a = q")
        case True
        with q(3) ax aj show ?thesis by (simp add: bit_set_index)
      next
        case False
        with q(2) ax show ?thesis by simp
      qed
    qed
    with bx aj show "bit (plane_mask (crtc_mem w' a)) j = bit (plane_mask (crtc_mem w a)) j"
      by simp
  qed
  have c2: "\<forall>old. ps_crtc (plane_mem w plane_state) = Some old \<longrightarrow>
               (\<exists>q. ce_state (crtcs (txn w') ! old) = Some q \<and>
                  \<not> bit (plane_mask (crtc_mem w' q)) ?pl)"
  proof (intro allI impI)
    fix old
    assume o: "ps_crtc (plane_mem w plane_state) = Some old"
    with oi lx have ol: "old < length (crtcs (txn wx))" by simp
    from o ox obtain q where q: "ce_state (crtcs (txn wx) ! old) = Some q" "q < next_addr wx"
      "\<not> bit (plane_mask (crtc_mem wx q)) ?pl" by blast
    from lk q(1) ol have e': "ce_state (crtcs (txn w') ! old) = Some q" by simp
    have "crtc_mem w' q = crtc_mem wx q"
    proof (cases crtc)
      case None
      with lk show ?thesis by simp
    next
      case (Some new)
      with a o have ne: "new \<noteq> old" by auto
      from Some ni lx have nl: "new < length (crtcs (txn wx))" by simp
      with lk Some obtain q2 where q2: "ce_state (crtcs (txn w') ! new) = Some q2"
        "\<forall>a. a < next_addr wx \<and> a \<noteq> q2 \<longrightarrow> crtc_mem w' a = crtc_mem wx a"
        by auto
      from lk have dw: "crtc_states_distinct w'" by simp
      have "length (crtcs (txn w')) = length (crtcs (txn wx))"
        using l Some
        by (auto simp: set_crtc_for_plane_link_def Let_def
              dest!: get_crtc_state_frame split: prod.splits sum.splits)
      with dw q2(1) e' ne nl ol have "q2 \<noteq> q"
        unfolding crtc_states_distinct_def by metis
      with q2(2) q(2) show ?thesis by simp
    qed
    with q(3) e' show "\<exists>q. ce_state (crtcs (txn w') ! old) = Some q \<and>
                  \<not> bit (plane_mask (crtc_mem w' q)) ?pl"
      by simp
  qed
  from c1 c2 c3 c4 show "ps_crtc (plane_mem w' plane_state) = crtc \<and>
            (\<forall>old. ps_crtc (plane_mem w plane_state) = Some old \<longrightarrow>
               (\<exists>q. ce_state (crtcs (txn w') ! old) = Some q \<and>
                  \<not> bit (plane_mask (crtc_mem w' q)) ?pl)) \<and>
            (\<forall>new. crtc = Some new \<longrightarrow>
               (\<exists>q. ce_state (crtcs (txn w') ! new) = Some q \<and>
                  bit (plane_mask (crtc_mem w' q)) ?pl)) \<and>
            (\<forall>a j. a < next_addr w \<and> j \<noteq> ?pl \<longrightarrow>
               bit (plane_mask (crtc_mem w' a)) j = bit (plane_mask (crtc_mem w a)) j)"
    by blast
  qed
qed

lemmas link_eval =
  world_link_def drm_atomic_set_crtc_for_plane_def set_crtc_for_plane_link_def
  upd_crtc_state_def upd_plane_state_def crtc_states_distinct_def index_bit_def

text \<open>
  On the concrete device: plane 1 is linked to CRTC 0, whose committed plane mask is 3.
  Linking it to CRTC 0 again changes nothing; linking it to CRTC 1 clears bit 1 in the
  state acquired for CRTC 0 and sets it in the state acquired for CRTC 1.
\<close>

theorem set_crtc_for_plane_masks_witness:
  "drm_atomic_set_crtc_for_plane hooks0 world_link 5 (Some 0) = (0, world_link) \<and>
   fst (drm_atomic_set_crtc_for_plane hooks0 world_link 5 (Some 1)) = 0 \<and>
   (\<exists>q. ce_state (crtcs (txn (snd (drm_atomic_set_crtc_for_plane hooks0 world_link 5 (Some 1))))
            ! 0) = Some q \<and>
        \<not> bit (plane_mask
                 (crtc_mem (snd (drm_atomic_set_crtc_for_plane hooks0 world_link 5 (Some 1))) q))
              1) \<and>
   (\<exists>q. ce_state (crtcs (txn (snd (drm_atomic_set_crtc_for_plane hooks0 world_link 5 (Some 1))))
            ! 1) = Some q \<and>
        bit (plane_mask
               (crtc_mem (snd (drm_atomic_set_crtc_for_plane hooks0 world_link 5 (Some 1))) q))
            1)"
proof -
  have d: "crtc_states_distinct world_link"
    by (auto simp: link_eval world0_def empty_crtc_entry_def)
  have i: "ps_plane (plane_mem world_link 5) < 32"
    by (simp add: link_eval world0_def)
  have oi: "\<forall>old. ps_crtc (plane_mem world_link 5) = Some old \<longrightarrow>
                old < length (crtcs (txn world_link))"
    by (simp add: link_eval world0_def)
  have ni0: "\<forall>new. Some (0::nat) = Some new \<longrightarrow> new < length (crtcs (txn world_link))"
    by (simp add: link_eval world0_def)
  have ni1: "\<forall>new. Some (1::nat) = Some new \<longrightarrow> new < length (crtcs (txn world_link))"
    by (simp add: link_eval world0_def)
  have c: "ps_crtc (plane_mem world_link 5) = Some 0"
    by (simp add: link_eval world0_def)
  obtain w' where r: "drm_atomic_set_crtc_for_plane hooks0 world_link 5 (Some 1) = (0, w')"
    by (simp add: link_eval get_state_eval)
  from set_crtc_for_plane_masks [OF d i oi ni0, of hooks0] c
  have same: "drm_atomic_set_crtc_for_plane hooks0 world_link 5 (Some 0) = (0, world_link)"
    by simp
  from set_crtc_for_plane_masks [OF d i oi ni1, of hooks0] r c
  have "(\<exists>q. ce_state (crtcs (txn w') ! 0) = Some q \<and> \<not> bit (plane_mask (crtc_mem w' q)) 1) \<and>
        (\<exists>q. ce_state (crtcs (txn w') ! 1) = Some q \<and> bit (plane_mask (crtc_mem w' q)) 1)"
    using i by (simp add: link_eval world0_def)
  with same r show ?thesis by simp
qed

subsection \<open>Clearing a transaction\<close>

lemma filter_is_destroy_log [simp]:
  "filter is_destroy (trace (log c w)) =
     filter is_destroy (trace w) @ (if is_destroy c then [c] else [])"
  by simp

lemma clear_connector_entry_none:
  "cne_ptr (connectors (txn w) ! i) = None \<Longrightarrow> clear_connector_entry hk i w = w"
  by (simp add: clear_connector_entry_def)

lemma clear_connector_entry_some:
  assumes "cne_ptr (connectors (txn w) ! i) = Some c"
  shows "connectors (txn (clear_connector_entry hk i w)) =
           (connectors (txn w))[i := (connectors (txn w) ! i)\<lparr>cne_ptr := None, cne_state := None\<rparr>]"
    and "crtcs (txn (clear_connector_entry hk i w)) = crtcs (txn w)"
    and "planes (txn (clear_connector_entry hk i w)) = planes (txn w)"
    and "dev (clear_connector_entry hk i w) = dev w"
    and "filter is_destroy (trace (clear_connector_entry hk i w)) =
           filter is_destroy (trace w) @
           [Connector_destroy_state c (cne_state (connectors (txn w) ! i))]"
  using assms by (simp_all add: clear_connector_entry_def Let_def)

lemma clear_connector_entry_effect:
  "length (connectors (txn (clear_connector_entry hk i w))) = length (connectors (txn w)) \<and>
   (\<forall>j. j \<noteq> i \<longrightarrow> connectors (txn (clear_connector_entry hk i w)) ! j = connectors (txn w) ! j) \<and>
   (i < length (connectors (txn w)) \<longrightarrow>
      cne_ptr (connectors (txn (clear_connector_entry hk i w)) ! i) = None \<and>
      (cne_ptr (connectors (txn w) ! i) \<noteq> None \<longrightarrow>
         cne_state (connectors (txn (clear_connector_entry hk i w)) ! i) = None)) \<and>
   crtcs (txn (clear_connector_entry hk i w)) = crtcs (txn w) \<and>
   planes (txn (clear_connector_entry hk i w)) = planes (txn w) \<and>
   dev (clear_connector_entry hk i w) = dev w \<and>
   filter is_destroy (trace (clear_connector_entry hk i w)) =
     filter is_destroy (trace w) @ connector_destroys (connectors (txn w) ! i)"
proof (cases "cne_ptr (connectors (txn w) ! i)")
  case None
  then show ?thesis
    by (simp add: clear_connector_entry_none connector_destroys_def)
next
  case (Some c)
  from clear_connector_entry_some [OF Some, of hk] Some show ?thesis
    by (simp add: connector_destroys_def)
qed

lemma fold_clear_connectors:
  assumes "distinct is"
  shows "length (connectors (txn (fold (clear_connector_entry hk) is w))) =
           length (connectors (txn w)) \<and>
         (\<forall>j. j \<notin> set is \<longrightarrow>
            connectors (txn (fold (clear_connector_entry hk) is w)) ! j =
            connectors (txn w) ! j) \<and>
         (\<forall>j. j \<in> set is \<and> j < length (connectors (txn w)) \<longrightarrow>
            cne_ptr (connectors (txn (fold (clear_connector_entry hk) is w)) ! j) = None \<and>
            (cne_ptr (connectors (txn w) ! j) \<noteq> None \<longrightarrow>
               cne_state (connectors (txn (fold (clear_connector_entry hk) is w)) ! j) = None)) \<and>
         crtcs (txn (fold (clear_connector_entry hk) is w)) = crtcs (txn w) \<and>
         planes (txn (fold (clear_connector_entry hk) is w)) = planes (txn w) \<and>
         dev (fold (clear_connector_entry hk) is w) = dev w \<and>
         filter is_destroy (trace (fold (clear_connector_entry hk) is w)) =
           filter is_destroy (trace w) @
           concat (map (\<lambda>i. connector_destroys (connectors (txn w) ! i)) is)"
  using assms
proof (induction "is" arbitrary: w)
  case Nil
  then show ?case by simp
next
  case (Cons i "is")
  let ?w1 = "clear_connector_entry hk i w"
  note e = clear_connector_entry_effect [of hk i w]
  from Cons.prems have d: "distinct is" and ni: "i \<notin> set is" by simp_all
  note ih = Cons.IH [OF d, of ?w1]
  have m: "map (\<lambda>j. connector_destroys (connectors (txn ?w1) ! j)) is =
           map (\<lambda>j. connector_destroys (connectors (txn w) ! j)) is"
    using e ni by (intro map_cong) auto
  show ?case
    using e ih ni m by auto
qed


lemma clear_crtc_entry_none:
  "ce_ptr (crtcs (txn w) ! i) = None \<Longrightarrow> clear_crtc_entry hk i w = w"
  by (simp add: clear_crtc_entry_def)

lemma clear_crtc_entry_some:
  assumes "ce_ptr (crtcs (txn w) ! i) = Some c"
  shows "crtcs (txn (clear_crtc_entry hk i w)) =
           (crtcs (txn w))[i := (crtcs (txn w) ! i)\<lparr>ce_commit := None, ce_ptr := None, ce_state := None\<rparr>]"
    and "connectors (txn (clear_crtc_entry hk i w)) = connectors (txn w)"
    and "planes (txn (clear_crtc_entry hk i w)) = planes (txn w)"
    and "dev (clear_crtc_entry hk i w) = dev w"
    and "filter is_destroy (trace (clear_crtc_entry hk i w)) =
           filter is_destroy (trace w) @
           [Crtc_destroy_state c (ce_state (crtcs (txn w) ! i))]"
  using assms
  by (simp_all add: clear_crtc_entry_def drm_crtc_commit_put_def Let_def split: option.splits)

lemma clear_crtc_entry_effect:
  "length (crtcs (txn (clear_crtc_entry hk i w))) = length (crtcs (txn w)) \<and>
   (\<forall>j. j \<noteq> i \<longrightarrow> crtcs (txn (clear_crtc_entry hk i w)) ! j = crtcs (txn w) ! j) \<and>
   (i < length (crtcs (txn w)) \<longrightarrow>
      ce_ptr (crtcs (txn (clear_crtc_entry hk i w)) ! i) = None \<and>
      (ce_ptr (crtcs (txn w) ! i) \<noteq> None \<longrightarrow>
         ce_state (crtcs (txn (clear_crtc_entry hk i w)) ! i) = None \<and>
         ce_commit (crtcs (txn (clear_crtc_entry hk i w)) ! i) = None)) \<and>
   connectors (txn (clear_crtc_entry hk i w)) = connectors (txn w) \<and>
   planes (txn (clear_crtc_entry hk i w)) = planes (txn w) \<and>
   dev (clear_crtc_entry hk i w) = dev w \<and>
   filter is_destroy (trace (clear_crtc_entry hk i w)) =
     filter is_destroy (trace w) @ crtc_destroys (crtcs (txn w) ! i)"
proof (cases "ce_ptr (crtcs (txn w) ! i)")
  case None
  then show ?thesis
    by (simp add: clear_crtc_entry_none crtc_destroys_def)
next
  case (Some c)
  from clear_crtc_entry_some [OF Some, of hk] Some show ?thesis
    by (simp add: crtc_destroys_def)
qed

lemma fold_clear_crtcs:
  assumes "distinct is"
  shows "length (crtcs (txn (fold (clear_crtc_entry hk) is w))) =
           length (crtcs (txn w)) \<and>
         (\<forall>j. j \<notin> set is \<longrightarrow>
            crtcs (txn (fold (clear_crtc_entry hk) is w)) ! j =
            crtcs (txn w) ! j) \<and>
         (\<forall>j. j \<in> set is \<and> j < length (crtcs (txn w)) \<longrightarrow>
            ce_ptr (crtcs (txn (fold (clear_crtc_entry hk) is w)) ! j) = None \<and>
            (ce_ptr (crtcs (txn w) ! j) \<noteq> None \<longrightarrow>
               ce_state (crtcs (txn (fold (clear_crtc_entry hk) is w)) ! j) = None \<and>
               ce_commit (crtcs (txn (fold (clear_crtc_entry hk) is w)) ! j) = None)) \<and>
         connectors (txn (fold (clear_crtc_entry hk) is w)) = connectors (txn w) \<and>
         planes (txn (fold (clear_crtc_entry hk) is w)) = planes (txn w) \<and>
         dev (fold (clear_crtc_entry hk) is w) = dev w \<and>
         filter is_destroy (trace (fold (clear_crtc_entry hk) is w)) =
           filter is_destroy (trace w) @
           concat (map (\<lambda>i. crtc_destroys (crtcs (txn w) ! i)) is)"
  using assms
proof (induction "is" arbitrary: w)
  case Nil
  then show ?case by simp
next
  case (Cons i "is")
  let ?w1 = "clear_crtc_entry hk i w"
  note e = clear_crtc_entry_effect [of hk i w]
  from Cons.prems have d: "distinct is" and ni: "i \<notin> set is" by simp_all
  note ih = Cons.IH [OF d, of ?w1]
  have m: "map (\<lambda>j. crtc_destroys (crtcs (txn ?w1) ! j)) is =
           map (\<lambda>j. crtc_destroys (crtcs (txn w) ! j)) is"
    using e ni by (intro map_cong) auto
  show ?case
    using e ih ni m by auto
qed

lemma clear_plane_entry_none:
  "pe_ptr (planes (txn w) ! i) = None \<Longrightarrow> clear_plane_entry hk i w = w"
  by (simp add: clear_plane_entry_def)

lemma clear_plane_entry_some:
  assumes "pe_ptr (planes (txn w) ! i) = Some c"
  shows "planes (txn (clear_plane_entry hk i w)) =
           (planes (txn w))[i := (planes (txn w) ! i)\<lparr>pe_ptr := None, pe_state := None\<rparr>]"
    and "crtcs (txn (clear_plane_entry hk i w)) = crtcs (txn w)"
    and "connectors (txn (clear_plane_entry hk i w)) = connectors (txn w)"
    and "dev (clear_plane_entry hk i w) = dev w"
    and "filter is_destroy (trace (clear_plane_entry hk i w)) =
           filter is_destroy (trace w) @
           [Plane_destroy_state c (pe_state (planes (txn w) ! i))]"
  using assms by (simp_all add: clear_plane_entry_def Let_def)

lemma clear_plane_entry_effect:
  "length (planes (txn (clear_plane_entry hk i w))) = length (planes (txn w)) \<and>
   (\<forall>j. j \<noteq> i \<longrightarrow> planes (txn (clear_plane_entry hk i w)) ! j = planes (txn w) ! j) \<and>
   (i < length (planes (txn w)) \<longrightarrow>
      pe_ptr (planes (txn (clear_plane_entry hk i w)) ! i) = None \<and>
      (pe_ptr (planes (txn w) ! i) \<noteq> None \<longrightarrow>
         pe_state (planes (txn (clear_plane_entry hk i w)) ! i) = None)) \<and>
   crtcs (txn (clear_plane_entry hk i w)) = crtcs (txn w) \<and>
   connectors (txn (clear_plane_entry hk i w)) = connectors (txn w) \<and>
   dev (clear_plane_entry hk i w) = dev w \<and>
   filter is_destroy (trace (clear_plane_entry hk i w)) =
     filter is_destroy (trace w) @ plane_destroys (planes (txn w) ! i)"
proof (cases "pe_ptr (planes (txn w) ! i)")
  case None
  then show ?thesis
    by (simp add: clear_plane_entry_none plane_destroys_def)
next
  case (Some c)
  from clear_plane_entry_some [OF Some, of hk] Some show ?thesis
    by (simp add: plane_destroys_def)
qed

lemma fold_clear_planes:
  assumes "distinct is"
  shows "length (planes (txn (fold (clear_plane_entry hk) is w))) =
           length (planes (txn w)) \<and>
         (\<forall>j. j \<notin> set is \<longrightarrow>
            planes (txn (fold (clear_plane_entry hk) is w)) ! j =
            planes (txn w) ! j) \<and>
         (\<forall>j. j \<in> set is \<and> j < length (planes (txn w)) \<longrightarrow>
            pe_ptr (planes (txn (fold (clear_plane_entry hk) is w)) ! j) = None \<and>
            (pe_ptr (planes (txn w) ! j) \<noteq> None \<longrightarrow>
               pe_state (planes (txn (fold (clear_plane_entry hk) is w)) ! j) = None)) \<and>
         crtcs (txn (fold (clear_plane_entry hk) is w)) = crtcs (txn w) \<and>
         connectors (txn (fold (clear_plane_entry hk) is w)) = connectors (txn w) \<and>
         dev (fold (clear_plane_entry hk) is w) = dev w \<and>
         filter is_destroy (trace (fold (clear_plane_entry hk) is w)) =
           filter is_destroy (trace w) @
           concat (map (\<lambda>i. plane_destroys (planes (txn w) ! i)) is)"
  using assms
proof (induction "is" arbitrary: w)
  case Nil
  then show ?case by simp
next
  case (Cons i "is")
  let ?w1 = "clear_plane_entry hk i w"
  note e = clear_plane_entry_effect [of hk i w]
  from Cons.prems have d: "distinct is" and ni: "i \<notin> set is" by simp_all
  note ih = Cons.IH [OF d, of ?w1]
  have m: "map (\<lambda>j. plane_destroys (planes (txn ?w1) ! j)) is =
           map (\<lambda>j. plane_destroys (planes (txn w) ! j)) is"
    using e ni by (intro map_cong) auto
  show ?case
    using e ih ni m by auto
qed

lemma fold_clear_connectors_id:
  "\<forall>i\<in>set is. cne_ptr (connectors (txn w) ! i) = None \<Longrightarrow>
     fold (clear_connector_entry hk) is w = w"
  by (induction "is") (simp_all add: clear_connector_entry_none)

lemma fold_clear_crtcs_id:
  "\<forall>i\<in>set is. ce_ptr (crtcs (txn w) ! i) = None \<Longrightarrow>
     fold (clear_crtc_entry hk) is w = w"
  by (induction "is") (simp_all add: clear_crtc_entry_none)

lemma fold_clear_planes_id:
  "\<forall>i\<in>set is. pe_ptr (planes (txn w) ! i) = None \<Longrightarrow>
     fold (clear_plane_entry hk) is w = w"
  by (induction "is") (simp_all add: clear_plane_entry_none)

lemma concat_map_nth_upt:
  "concat (map (\<lambda>i. f (xs ! i)) [0..<length xs]) = concat (map f xs)"
proof -
  have "map (\<lambda>i. f (xs ! i)) [0..<length xs] = map f (map ((!) xs) [0..<length xs])"
    by simp
  also have "\<dots> = map f xs" by (simp only: map_nth)
  finally show ?thesis by simp
qed

lemma ptrs_none:
  "(\<forall>en\<in>set xs. ce_ptr en = None) \<Longrightarrow> map ce_ptr xs = replicate (length xs) None"
  by (induction xs) auto

lemma default_clear_length:
  "length (crtcs (txn (drm_atomic_state_default_clear hk w))) = length (crtcs (txn w))"
proof -
  let ?n = "length (connectors (txn w))"
  let ?w1 = "fold (clear_connector_entry hk) [0..<?n] w"
  let ?w2 = "fold (clear_crtc_entry hk) [0..<num_crtc (mode_config (dev w))] ?w1"
  note f1 = fold_clear_connectors [of "[0..<?n]" hk w, simplified]
  note f2 = fold_clear_crtcs [of "[0..<num_crtc (mode_config (dev w))]" hk ?w1, simplified]
  note f3 = fold_clear_planes [of "[0..<num_total_plane (mode_config (dev w))]" hk ?w2,
      simplified]
  from f1 f2 f3 show ?thesis
    by (simp add: drm_atomic_state_default_clear_def Let_def)
qed

text \<open>
  The entries after a clear, and the destroy-state calls it makes.
\<close>

lemma default_clear_entries:
  assumes lc: "length (crtcs (txn w)) = num_crtc (mode_config (dev w))"
    and lp: "length (planes (txn w)) = num_total_plane (mode_config (dev w))"
    and c: "drm_atomic_state_default_clear hk w = w'"
  shows "(\<forall>en\<in>set (connectors (txn w')). cne_ptr en = None) \<and>
         (\<forall>en\<in>set (crtcs (txn w')). ce_ptr en = None) \<and>
         (\<forall>en\<in>set (planes (txn w')). pe_ptr en = None) \<and>
         (\<forall>j<length (connectors (txn w)). cne_ptr (connectors (txn w) ! j) \<noteq> None \<longrightarrow>
            cne_state (connectors (txn w') ! j) = None) \<and>
         (\<forall>j<length (crtcs (txn w)). ce_ptr (crtcs (txn w) ! j) \<noteq> None \<longrightarrow>
            ce_state (crtcs (txn w') ! j) = None \<and> ce_commit (crtcs (txn w') ! j) = None) \<and>
         (\<forall>j<length (planes (txn w)). pe_ptr (planes (txn w) ! j) \<noteq> None \<longrightarrow>
            pe_state (planes (txn w') ! j) = None) \<and>
         filter is_destroy (trace w') = filter is_destroy (trace w) @ owed_destroys (txn w) \<and>
         drm_atomic_state_default_clear hk w' = w'"
proof -
  let ?n = "length (connectors (txn w))"
  let ?w1 = "fold (clear_connector_entry hk) [0..<?n] w"
  let ?w2 = "fold (clear_crtc_entry hk) [0..<num_crtc (mode_config (dev w))] ?w1"
  let ?w3 = "fold (clear_plane_entry hk) [0..<num_total_plane (mode_config (dev w))] ?w2"
  note f1 = fold_clear_connectors [of "[0..<?n]" hk w, simplified]
  note f2 = fold_clear_crtcs [of "[0..<num_crtc (mode_config (dev w))]" hk ?w1, simplified]
  note f3 = fold_clear_planes [of "[0..<num_total_plane (mode_config (dev w))]" hk ?w2,
      simplified]
  have w': "w' = ?w3"
    using c f1 by (simp add: drm_atomic_state_default_clear_def Let_def)
  have conn: "connectors (txn w') = connectors (txn ?w1)" "length (connectors (txn w')) = ?n"
    using w' f1 f2 f3 by simp_all
  have crtc: "crtcs (txn w') = crtcs (txn ?w2)" "crtcs (txn ?w1) = crtcs (txn w)"
    "length (crtcs (txn w')) = length (crtcs (txn w))"
    using w' f1 f2 f3 by simp_all
  have plane: "planes (txn ?w2) = planes (txn w)"
    "length (planes (txn w')) = length (planes (txn w))"
    using w' f1 f2 f3 by simp_all
  have dev: "dev w' = dev w" using w' f1 f2 f3 by simp
  have p1: "\<forall>j<?n. cne_ptr (connectors (txn w') ! j) = None \<and>
              (cne_ptr (connectors (txn w) ! j) \<noteq> None \<longrightarrow>
                 cne_state (connectors (txn w') ! j) = None)"
    using conn f1 by simp
  have p2: "\<forall>j<length (crtcs (txn w)). ce_ptr (crtcs (txn w') ! j) = None \<and>
              (ce_ptr (crtcs (txn w) ! j) \<noteq> None \<longrightarrow>
                 ce_state (crtcs (txn w') ! j) = None \<and>
                 ce_commit (crtcs (txn w') ! j) = None)"
    using crtc f2 lc by simp
  have p3: "\<forall>j<length (planes (txn w)). pe_ptr (planes (txn w') ! j) = None \<and>
              (pe_ptr (planes (txn w) ! j) \<noteq> None \<longrightarrow>
                 pe_state (planes (txn w') ! j) = None)"
    using w' plane f3 lp by simp
  have tr: "filter is_destroy (trace w') = filter is_destroy (trace w) @ owed_destroys (txn w)"
  proof -
    have "filter is_destroy (trace w') =
        filter is_destroy (trace w) @
        concat (map (\<lambda>i. connector_destroys (connectors (txn w) ! i)) [0..<?n]) @
        concat (map (\<lambda>i. crtc_destroys (crtcs (txn w) ! i)) [0..<length (crtcs (txn w))]) @
        concat (map (\<lambda>i. plane_destroys (planes (txn w) ! i)) [0..<length (planes (txn w))])"
      using w' f1 f2 f3 crtc plane lc lp by simp
    then show ?thesis
      by (simp only: concat_map_nth_upt owed_destroys_def)
  qed
  have z1: "\<forall>en\<in>set (connectors (txn w')). cne_ptr en = None"
    using p1 conn(2) by (auto simp: in_set_conv_nth)
  have z2: "\<forall>en\<in>set (crtcs (txn w')). ce_ptr en = None"
    using p2 crtc(3) by (auto simp: in_set_conv_nth)
  have z3: "\<forall>en\<in>set (planes (txn w')). pe_ptr en = None"
    using p3 plane(2) by (auto simp: in_set_conv_nth)
  have idem: "drm_atomic_state_default_clear hk w' = w'"
  proof -
    have a: "fold (clear_connector_entry hk) [0..<length (connectors (txn w'))] w' = w'"
      using p1 conn(2) by (intro fold_clear_connectors_id) simp
    have b: "fold (clear_crtc_entry hk) [0..<num_crtc (mode_config (dev w'))] w' = w'"
      using p2 lc dev by (intro fold_clear_crtcs_id) simp
    have c: "fold (clear_plane_entry hk) [0..<num_total_plane (mode_config (dev w'))] w' = w'"
      using p3 lp dev by (intro fold_clear_planes_id) simp
    show ?thesis
      by (simp add: drm_atomic_state_default_clear_def Let_def a b c)
  qed
  from z1 z2 z3 p1 p2 p3 tr idem show ?thesis by simp
qed

lemma clear_connector_entry_trace:
  "trace (clear_connector_entry hk i w) =
     trace w @ connector_releases (connectors (txn w) ! i)"
  "commit_mem (clear_connector_entry hk i w) = commit_mem w"
  by (simp_all add: clear_connector_entry_def connector_releases_def Let_def
        split: option.splits)

lemma fold_clear_connectors_trace:
  assumes "distinct is"
  shows "trace (fold (clear_connector_entry hk) is w) =
           trace w @ concat (map (\<lambda>i. connector_releases (connectors (txn w) ! i)) is) \<and>
         commit_mem (fold (clear_connector_entry hk) is w) = commit_mem w"
  using assms
proof (induction "is" arbitrary: w)
  case Nil
  then show ?case by simp
next
  case (Cons i "is")
  let ?w1 = "clear_connector_entry hk i w"
  note e = clear_connector_entry_effect [of hk i w]
  from Cons.prems have d: "distinct is" and ni: "i \<notin> set is" by simp_all
  note ih = Cons.IH [OF d, of ?w1]
  have m: "map (\<lambda>j. connector_releases (connectors (txn ?w1) ! j)) is =
           map (\<lambda>j. connector_releases (connectors (txn w) ! j)) is"
    using e ni by (intro map_cong) auto
  show ?case
    using ih m by (simp add: clear_connector_entry_trace)
qed

lemma clear_plane_entry_trace:
  "trace (clear_plane_entry hk i w) = trace w @ plane_destroys (planes (txn w) ! i)"
  "commit_mem (clear_plane_entry hk i w) = commit_mem w"
  by (simp_all add: clear_plane_entry_def plane_destroys_def Let_def split: option.splits)

lemma fold_clear_planes_trace:
  assumes "distinct is"
  shows "trace (fold (clear_plane_entry hk) is w) =
           trace w @ concat (map (\<lambda>i. plane_destroys (planes (txn w) ! i)) is) \<and>
         commit_mem (fold (clear_plane_entry hk) is w) = commit_mem w"
  using assms
proof (induction "is" arbitrary: w)
  case Nil
  then show ?case by simp
next
  case (Cons i "is")
  let ?w1 = "clear_plane_entry hk i w"
  note e = clear_plane_entry_effect [of hk i w]
  from Cons.prems have d: "distinct is" and ni: "i \<notin> set is" by simp_all
  note ih = Cons.IH [OF d, of ?w1]
  have m: "map (\<lambda>j. plane_destroys (planes (txn ?w1) ! j)) is =
           map (\<lambda>j. plane_destroys (planes (txn w) ! j)) is"
    using e ni by (intro map_cong) auto
  show ?case
    using ih m by (simp add: clear_plane_entry_trace)
qed

lemma clear_crtc_entry_trace:
  "trace (clear_crtc_entry hk i w) =
     trace w @ crtc_releases (commit_mem w) (crtcs (txn w) ! i)"
  by (simp add: clear_crtc_entry_def crtc_releases_def drm_crtc_commit_put_def Let_def
        split: option.splits)

lemma clear_crtc_entry_commit_other:
  assumes "m \<notin> set (pending_commit (crtcs (txn w) ! i))"
  shows "commit_mem (clear_crtc_entry hk i w) m = commit_mem w m"
proof (cases "ce_ptr (crtcs (txn w) ! i)")
  case None
  then show ?thesis by (simp add: clear_crtc_entry_def)
next
  case c: (Some c)
  show ?thesis
  proof (cases "ce_commit (crtcs (txn w) ! i)")
    case None
    with c show ?thesis by (simp add: clear_crtc_entry_def Let_def)
  next
    case (Some m')
    with assms c have "m' \<noteq> m" by (simp add: pending_commit_def)
    with c Some show ?thesis
      by (simp add: clear_crtc_entry_def drm_crtc_commit_put_def Let_def
            split: option.splits)
  qed
qed

lemma clear_crtc_entry_commit_put:
  assumes "m \<in> set (pending_commit (crtcs (txn w) ! i))"
  shows "commit_event (commit_mem (clear_crtc_entry hk i w) m) = None \<and>
     commit_ref (commit_mem (clear_crtc_entry hk i w) m) = commit_ref (commit_mem w m) - 1"
proof -
  show ?thesis
  proof (cases "ce_ptr (crtcs (txn w) ! i)")
    case None
    with assms show ?thesis by (simp add: pending_commit_def)
  next
    case c: (Some c)
    show ?thesis
    proof (cases "ce_commit (crtcs (txn w) ! i)")
      case None
      with assms c show ?thesis by (simp add: pending_commit_def)
    next
      case (Some m')
      with assms c have "m' = m" by (simp add: pending_commit_def)
      with c Some show ?thesis
        by (simp add: clear_crtc_entry_def drm_crtc_commit_put_def Let_def
              split: option.splits)
    qed
  qed
qed

lemma crtc_releases_cong:
  "(\<And>m. m \<in> set (pending_commit en) \<Longrightarrow> cm m = cm' m) \<Longrightarrow>
     crtc_releases cm en = crtc_releases cm' en"
proof (cases "ce_ptr en")
  case None
  then show ?thesis by (simp add: crtc_releases_def)
next
  case c: (Some c)
  assume a: "\<And>m. m \<in> set (pending_commit en) \<Longrightarrow> cm m = cm' m"
  show ?thesis
  proof (cases "ce_commit en")
    case None
    with c show ?thesis by (simp add: crtc_releases_def)
  next
    case (Some m)
    with c have "m \<in> set (pending_commit en)" by (simp add: pending_commit_def)
    from a [OF this] c Some show ?thesis by (simp add: crtc_releases_def)
  qed
qed

lemma fold_clear_crtcs_trace:
  assumes "distinct is"
    and "distinct (concat (map (\<lambda>i. pending_commit (crtcs (txn w) ! i)) is))"
  shows "trace (fold (clear_crtc_entry hk) is w) =
           trace w @ concat (map (\<lambda>i. crtc_releases (commit_mem w) (crtcs (txn w) ! i)) is) \<and>
         (\<forall>m. m \<notin> set (concat (map (\<lambda>i. pending_commit (crtcs (txn w) ! i)) is)) \<longrightarrow>
            commit_mem (fold (clear_crtc_entry hk) is w) m = commit_mem w m) \<and>
         (\<forall>m \<in> set (concat (map (\<lambda>i. pending_commit (crtcs (txn w) ! i)) is)).
            commit_event (commit_mem (fold (clear_crtc_entry hk) is w) m) = None \<and>
            commit_ref (commit_mem (fold (clear_crtc_entry hk) is w) m) =
              commit_ref (commit_mem w m) - 1)"
  using assms
proof (induction "is" arbitrary: w)
  case Nil
  then show ?case by simp
next
  case (Cons i "is")
  let ?w1 = "clear_crtc_entry hk i w"
  let ?pc = "\<lambda>v j. pending_commit (crtcs (txn v) ! j)"
  note e = clear_crtc_entry_effect [of hk i w]
  from Cons.prems have d: "distinct is" and ni: "i \<notin> set is" by simp_all
  have same: "\<And>j. j \<in> set is \<Longrightarrow> crtcs (txn ?w1) ! j = crtcs (txn w) ! j"
    using e ni by auto
  have pm: "map (?pc ?w1) is = map (?pc w) is"
    using same by (intro map_cong) auto
  from Cons.prems(2) have dr: "distinct (concat (map (?pc w) is))"
    and di: "set (?pc w i) \<inter> set (concat (map (?pc w) is)) = {}"
    by simp_all
  note ih = Cons.IH [OF d, of ?w1, unfolded pm, OF dr]
  have rest: "\<And>m. m \<in> set (concat (map (?pc w) is)) \<Longrightarrow>
                commit_mem ?w1 m = commit_mem w m"
    using di by (intro clear_crtc_entry_commit_other) auto
  have rm: "map (\<lambda>j. crtc_releases (commit_mem ?w1) (crtcs (txn ?w1) ! j)) is =
            map (\<lambda>j. crtc_releases (commit_mem w) (crtcs (txn w) ! j)) is"
  proof (intro map_cong refl)
    fix j assume j: "j \<in> set is"
    have "crtc_releases (commit_mem ?w1) (crtcs (txn w) ! j) =
          crtc_releases (commit_mem w) (crtcs (txn w) ! j)"
      using j by (intro crtc_releases_cong rest) auto
    with same [OF j] show "crtc_releases (commit_mem ?w1) (crtcs (txn ?w1) ! j) =
          crtc_releases (commit_mem w) (crtcs (txn w) ! j)" by simp
  qed
  have t: "trace (fold (clear_crtc_entry hk) (i # is) w) =
      trace w @ concat (map (\<lambda>i. crtc_releases (commit_mem w) (crtcs (txn w) ! i)) (i # is))"
    using ih rm by (simp add: clear_crtc_entry_trace)
  have o: "\<forall>m. m \<notin> set (concat (map (?pc w) (i # is))) \<longrightarrow>
            commit_mem (fold (clear_crtc_entry hk) (i # is) w) m = commit_mem w m"
    using ih by (simp add: clear_crtc_entry_commit_other)
  have p: "\<forall>m \<in> set (concat (map (?pc w) (i # is))).
            commit_event (commit_mem (fold (clear_crtc_entry hk) (i # is) w) m) = None \<and>
            commit_ref (commit_mem (fold (clear_crtc_entry hk) (i # is) w) m) =
              commit_ref (commit_mem w m) - 1"
  proof
    fix m assume "m \<in> set (concat (map (?pc w) (i # is)))"
    then consider (here) "m \<in> set (?pc w i)" | (later) "m \<in> set (concat (map (?pc w) is))"
      by auto
    then show "commit_event (commit_mem (fold (clear_crtc_entry hk) (i # is) w) m) = None \<and>
            commit_ref (commit_mem (fold (clear_crtc_entry hk) (i # is) w) m) =
              commit_ref (commit_mem w m) - 1"
    proof cases
      case here
      with di have "m \<notin> set (concat (map (?pc w) is))" by auto
      with ih have "commit_mem (fold (clear_crtc_entry hk) is ?w1) m = commit_mem ?w1 m"
        by blast
      with clear_crtc_entry_commit_put [OF here, of hk] show ?thesis by simp
    next
      case later
      from ih later
      have "commit_event (commit_mem (fold (clear_crtc_entry hk) is ?w1) m) = None \<and>
            commit_ref (commit_mem (fold (clear_crtc_entry hk) is ?w1) m) =
              commit_ref (commit_mem ?w1 m) - 1"
        by blast
      with rest [OF later] show ?thesis by simp
    qed
  qed
  from t o p show ?case by blast
qed

lemma default_clear_trace:
  assumes lc: "length (crtcs (txn w)) = num_crtc (mode_config (dev w))"
    and lp: "length (planes (txn w)) = num_total_plane (mode_config (dev w))"
    and dc: "distinct (pending_commits (txn w))"
  shows "trace (drm_atomic_state_default_clear hk w) = trace w @ owed_releases w \<and>
         (\<forall>m. m \<notin> set (pending_commits (txn w)) \<longrightarrow>
            commit_mem (drm_atomic_state_default_clear hk w) m = commit_mem w m) \<and>
         (\<forall>m \<in> set (pending_commits (txn w)).
            commit_event (commit_mem (drm_atomic_state_default_clear hk w) m) = None \<and>
            commit_ref (commit_mem (drm_atomic_state_default_clear hk w) m) =
              commit_ref (commit_mem w m) - 1)"
proof -
  let ?n = "length (connectors (txn w))"
  let ?nc = "num_crtc (mode_config (dev w))"
  let ?np = "num_total_plane (mode_config (dev w))"
  let ?w1 = "fold (clear_connector_entry hk) [0..<?n] w"
  let ?w2 = "fold (clear_crtc_entry hk) [0..<?nc] ?w1"
  let ?w3 = "fold (clear_plane_entry hk) [0..<?np] ?w2"
  note f1 = fold_clear_connectors [of "[0..<?n]" hk w, simplified]
  note f2 = fold_clear_crtcs [of "[0..<?nc]" hk ?w1, simplified]
  note t1 = fold_clear_connectors_trace [of "[0..<?n]" hk w, simplified]
  have c1: "crtcs (txn ?w1) = crtcs (txn w)" using f1 by simp
  have p2: "planes (txn ?w2) = planes (txn w)" using f1 f2 by simp
  have pc: "concat (map (\<lambda>i. pending_commit (crtcs (txn ?w1) ! i)) [0..<?nc]) =
            pending_commits (txn w)"
    unfolding c1 lc [symmetric] pending_commits_def by (rule concat_map_nth_upt)
  have d2: "distinct (concat (map (\<lambda>i. pending_commit (crtcs (txn ?w1) ! i)) [0..<?nc]))"
    unfolding pc by (rule dc)
  note t2 = fold_clear_crtcs_trace [of "[0..<?nc]" ?w1 hk, OF distinct_upt d2, unfolded pc]
  note t3 = fold_clear_planes_trace [of "[0..<?np]" hk ?w2, OF distinct_upt]
  have w': "drm_atomic_state_default_clear hk w = ?w3"
    using f1 by (simp add: drm_atomic_state_default_clear_def Let_def)
  have r1: "concat (map (\<lambda>i. connector_releases (connectors (txn w) ! i)) [0..<?n]) =
            concat (map connector_releases (connectors (txn w)))"
    by (rule concat_map_nth_upt)
  have r2: "concat (map (\<lambda>i. crtc_releases (commit_mem ?w1) (crtcs (txn ?w1) ! i)) [0..<?nc]) =
            concat (map (crtc_releases (commit_mem w)) (crtcs (txn w)))"
    unfolding c1 lc [symmetric] using t1 by (simp only: concat_map_nth_upt)
  have r2': "concat (map (\<lambda>i. crtc_releases (commit_mem w) (crtcs (txn ?w1) ! i)) [0..<?nc]) =
            concat (map (crtc_releases (commit_mem w)) (crtcs (txn w)))"
    unfolding c1 lc [symmetric] by (rule concat_map_nth_upt)
  have r3: "concat (map (\<lambda>i. plane_destroys (planes (txn ?w2) ! i)) [0..<?np]) =
            concat (map plane_destroys (planes (txn w)))"
    unfolding p2 lp [symmetric] by (rule concat_map_nth_upt)
  have tr: "trace ?w3 = trace w @ owed_releases w"
    using t1 t2 t3 by (simp add: owed_releases_def r1 r2 r2' r3)
  have cm: "commit_mem ?w3 = commit_mem ?w2" "commit_mem ?w1 = commit_mem w"
    using t1 t3 by simp_all
  from tr t2 show ?thesis
    unfolding w' cm by blast
qed

lemma clear_entry_ext:
  "ext (clear_connector_entry hk i w) =
     fold (run_destroy hk) (connector_destroys (connectors (txn w) ! i)) (ext w)"
  "ext (clear_crtc_entry hk i w) =
     fold (run_destroy hk) (crtc_destroys (crtcs (txn w) ! i)) (ext w)"
  "ext (clear_plane_entry hk i w) =
     fold (run_destroy hk) (plane_destroys (planes (txn w) ! i)) (ext w)"
  by (simp_all add: clear_connector_entry_def clear_crtc_entry_def clear_plane_entry_def
        connector_destroys_def crtc_destroys_def plane_destroys_def drm_crtc_commit_put_def
        Let_def split: option.splits)

lemma fold_clear_connectors_ext:
  assumes "distinct is"
  shows "ext (fold (clear_connector_entry hk) is w) =
         fold (run_destroy hk)
           (concat (map (\<lambda>i. connector_destroys (connectors (txn w) ! i)) is)) (ext w)"
  using assms
proof (induction "is" arbitrary: w)
  case Nil
  then show ?case by simp
next
  case (Cons i "is")
  let ?w1 = "clear_connector_entry hk i w"
  note e = clear_connector_entry_effect [of hk i w]
  from Cons.prems have d: "distinct is" and ni: "i \<notin> set is" by simp_all
  have m: "map (\<lambda>j. connector_destroys (connectors (txn ?w1) ! j)) is =
           map (\<lambda>j. connector_destroys (connectors (txn w) ! j)) is"
    using e ni by (intro map_cong) auto
  from Cons.IH [OF d, of ?w1] m show ?case by (simp add: clear_entry_ext)
qed

lemma fold_clear_crtcs_ext:
  assumes "distinct is"
  shows "ext (fold (clear_crtc_entry hk) is w) =
         fold (run_destroy hk)
           (concat (map (\<lambda>i. crtc_destroys (crtcs (txn w) ! i)) is)) (ext w)"
  using assms
proof (induction "is" arbitrary: w)
  case Nil
  then show ?case by simp
next
  case (Cons i "is")
  let ?w1 = "clear_crtc_entry hk i w"
  note e = clear_crtc_entry_effect [of hk i w]
  from Cons.prems have d: "distinct is" and ni: "i \<notin> set is" by simp_all
  have m: "map (\<lambda>j. crtc_destroys (crtcs (txn ?w1) ! j)) is =
           map (\<lambda>j. crtc_destroys (crtcs (txn w) ! j)) is"
    using e ni by (intro map_cong) auto
  from Cons.IH [OF d, of ?w1] m show ?case by (simp add: clear_entry_ext)
qed

lemma fold_clear_planes_ext:
  assumes "distinct is"
  shows "ext (fold (clear_plane_entry hk) is w) =
         fold (run_destroy hk)
           (concat (map (\<lambda>i. plane_destroys (planes (txn w) ! i)) is)) (ext w)"
  using assms
proof (induction "is" arbitrary: w)
  case Nil
  then show ?case by simp
next
  case (Cons i "is")
  let ?w1 = "clear_plane_entry hk i w"
  note e = clear_plane_entry_effect [of hk i w]
  from Cons.prems have d: "distinct is" and ni: "i \<notin> set is" by simp_all
  have m: "map (\<lambda>j. plane_destroys (planes (txn ?w1) ! j)) is =
           map (\<lambda>j. plane_destroys (planes (txn w) ! j)) is"
    using e ni by (intro map_cong) auto
  from Cons.IH [OF d, of ?w1] m show ?case by (simp add: clear_entry_ext)
qed

lemma not_kfree_releases:
  "filter (\<lambda>c. \<not> is_kfree c) (connector_releases en) = connector_releases en"
  "filter (\<lambda>c. \<not> is_kfree c) (crtc_releases cm ce) = crtc_destroys ce"
  "filter (\<lambda>c. \<not> is_kfree c) (plane_destroys pe) = plane_destroys pe"
  by (simp_all add: connector_releases_def crtc_releases_def crtc_destroys_def
        plane_destroys_def split: option.splits)

lemma not_kfree_concat:
  "filter (\<lambda>c. \<not> is_kfree c) (concat (map connector_releases xs)) =
     concat (map connector_releases xs)"
  "filter (\<lambda>c. \<not> is_kfree c) (concat (map plane_destroys ys)) =
     concat (map plane_destroys ys)"
  by (induction xs, simp_all add: not_kfree_releases)
     (induction ys, simp_all add: not_kfree_releases)

lemma fold_clear_crtcs_calls:
  assumes "distinct is"
  shows "filter (\<lambda>c. \<not> is_kfree c) (trace (fold (clear_crtc_entry hk) is w)) =
         filter (\<lambda>c. \<not> is_kfree c) (trace w) @
         concat (map (\<lambda>i. crtc_destroys (crtcs (txn w) ! i)) is)"
  using assms
proof (induction "is" arbitrary: w)
  case Nil
  then show ?case by simp
next
  case (Cons i "is")
  let ?w1 = "clear_crtc_entry hk i w"
  note e = clear_crtc_entry_effect [of hk i w]
  from Cons.prems have d: "distinct is" and ni: "i \<notin> set is" by simp_all
  have m: "map (\<lambda>j. crtc_destroys (crtcs (txn ?w1) ! j)) is =
           map (\<lambda>j. crtc_destroys (crtcs (txn w) ! j)) is"
    using e ni by (intro map_cong) auto
  from Cons.IH [OF d, of ?w1] m show ?case
    by (simp add: clear_crtc_entry_trace not_kfree_releases)
qed

lemma pending_commit_single:
  assumes "m \<in> set (pending_commit en)"
  shows "pending_commit en = [m]"
proof (cases "ce_ptr en")
  case None
  with assms show ?thesis by (simp add: pending_commit_def)
next
  case c: (Some c)
  show ?thesis
  proof (cases "ce_commit en")
    case None
    with assms c show ?thesis by (simp add: pending_commit_def)
  next
    case (Some m')
    with assms c show ?thesis by (simp add: pending_commit_def)
  qed
qed

lemma clear_crtc_entry_commit_ref:
  "commit_ref (commit_mem (clear_crtc_entry hk i w) m) =
     commit_ref (commit_mem w m) - int (count_list (pending_commit (crtcs (txn w) ! i)) m)"
proof (cases "m \<in> set (pending_commit (crtcs (txn w) ! i))")
  case True
  then have "pending_commit (crtcs (txn w) ! i) = [m]"
    by (rule pending_commit_single)
  with clear_crtc_entry_commit_put [OF True, of hk] show ?thesis by simp
next
  case False
  then have "count_list (pending_commit (crtcs (txn w) ! i)) m = 0"
    by (simp add: count_list_0_iff)
  with clear_crtc_entry_commit_other [OF False, of hk] show ?thesis by simp
qed

lemma fold_clear_crtcs_commits:
  assumes "distinct is"
  shows "(\<forall>m. commit_ref (commit_mem (fold (clear_crtc_entry hk) is w) m) =
              commit_ref (commit_mem w m) -
              int (count_list (concat (map (\<lambda>i. pending_commit (crtcs (txn w) ! i)) is)) m)) \<and>
         (\<forall>m \<in> set (concat (map (\<lambda>i. pending_commit (crtcs (txn w) ! i)) is)).
            commit_event (commit_mem (fold (clear_crtc_entry hk) is w) m) = None) \<and>
         (\<forall>m. m \<notin> set (concat (map (\<lambda>i. pending_commit (crtcs (txn w) ! i)) is)) \<longrightarrow>
            commit_mem (fold (clear_crtc_entry hk) is w) m = commit_mem w m)"
  using assms
proof (induction "is" arbitrary: w)
  case Nil
  then show ?case by simp
next
  case (Cons i "is")
  let ?w1 = "clear_crtc_entry hk i w"
  let ?pc = "\<lambda>v j. pending_commit (crtcs (txn v) ! j)"
  let ?f = "fold (clear_crtc_entry hk) is ?w1"
  note e = clear_crtc_entry_effect [of hk i w]
  from Cons.prems have d: "distinct is" and ni: "i \<notin> set is" by simp_all
  have pm: "map (?pc ?w1) is = map (?pc w) is"
    using e ni by (intro map_cong) auto
  note ih = Cons.IH [OF d, of ?w1, unfolded pm]
  from ih have ih1: "\<And>m. commit_ref (commit_mem ?f m) =
      commit_ref (commit_mem ?w1 m) - int (count_list (concat (map (?pc w) is)) m)"
    and ih2: "\<And>m. m \<in> set (concat (map (?pc w) is)) \<Longrightarrow> commit_event (commit_mem ?f m) = None"
    and ih3: "\<And>m. m \<notin> set (concat (map (?pc w) is)) \<Longrightarrow> commit_mem ?f m = commit_mem ?w1 m"
    by blast+
  have r: "\<forall>m. commit_ref (commit_mem ?f m) =
              commit_ref (commit_mem w m) - int (count_list (concat (map (?pc w) (i # is))) m)"
    by (simp add: ih1 clear_crtc_entry_commit_ref)
  have ev: "\<forall>m \<in> set (concat (map (?pc w) (i # is))). commit_event (commit_mem ?f m) = None"
  proof
    fix m assume a: "m \<in> set (concat (map (?pc w) (i # is)))"
    show "commit_event (commit_mem ?f m) = None"
    proof (cases "m \<in> set (concat (map (?pc w) is))")
      case True
      then show ?thesis by (rule ih2)
    next
      case False
      with a have h: "m \<in> set (?pc w i)" by auto
      from ih3 [OF False] clear_crtc_entry_commit_put [OF h, of hk] show ?thesis by simp
    qed
  qed
  have ot: "\<forall>m. m \<notin> set (concat (map (?pc w) (i # is))) \<longrightarrow> commit_mem ?f m = commit_mem w m"
  proof (intro allI impI)
    fix m assume a: "m \<notin> set (concat (map (?pc w) (i # is)))"
    then have 1: "m \<notin> set (concat (map (?pc w) is))" and 2: "m \<notin> set (?pc w i)" by auto
    from ih3 [OF 1] clear_crtc_entry_commit_other [OF 2, of hk]
    show "commit_mem ?f m = commit_mem w m" by simp
  qed
  from r ev ot show ?case by simp
qed

lemma default_clear_outside:
  assumes lc: "length (crtcs (txn w)) = num_crtc (mode_config (dev w))"
    and lp: "length (planes (txn w)) = num_total_plane (mode_config (dev w))"
  shows "filter (\<lambda>c. \<not> is_kfree c) (trace (drm_atomic_state_default_clear hk w)) =
           filter (\<lambda>c. \<not> is_kfree c) (trace w) @ owed_drops (txn w) \<and>
         ext (drm_atomic_state_default_clear hk w) =
           fold (run_destroy hk) (owed_destroys (txn w)) (ext w) \<and>
         (\<forall>m. commit_ref (commit_mem (drm_atomic_state_default_clear hk w) m) =
              commit_ref (commit_mem w m) - int (count_list (pending_commits (txn w)) m)) \<and>
         (\<forall>m \<in> set (pending_commits (txn w)).
            commit_event (commit_mem (drm_atomic_state_default_clear hk w) m) = None) \<and>
         (\<forall>m. m \<notin> set (pending_commits (txn w)) \<longrightarrow>
            commit_mem (drm_atomic_state_default_clear hk w) m = commit_mem w m)"
proof -
  let ?n = "length (connectors (txn w))"
  let ?nc = "num_crtc (mode_config (dev w))"
  let ?np = "num_total_plane (mode_config (dev w))"
  let ?w1 = "fold (clear_connector_entry hk) [0..<?n] w"
  let ?w2 = "fold (clear_crtc_entry hk) [0..<?nc] ?w1"
  let ?w3 = "fold (clear_plane_entry hk) [0..<?np] ?w2"
  let ?P = "\<lambda>c. \<not> is_kfree c"
  note f1 = fold_clear_connectors [of "[0..<?n]" hk w, simplified]
  note f2 = fold_clear_crtcs [of "[0..<?nc]" hk ?w1, simplified]
  have c1: "crtcs (txn ?w1) = crtcs (txn w)" using f1 by simp
  have p2: "planes (txn ?w2) = planes (txn w)" using f1 f2 by simp
  have w': "drm_atomic_state_default_clear hk w = ?w3"
    using f1 by (simp add: drm_atomic_state_default_clear_def Let_def)
  have t1: "trace ?w1 = trace w @ concat (map connector_releases (connectors (txn w)))"
    and m1: "commit_mem ?w1 = commit_mem w"
    using fold_clear_connectors_trace [of "[0..<?n]" hk w] by (simp_all add: concat_map_nth_upt)
  have x1: "ext ?w1 = fold (run_destroy hk)
              (concat (map connector_destroys (connectors (txn w)))) (ext w)"
    using fold_clear_connectors_ext [of "[0..<?n]" hk w] by (simp add: concat_map_nth_upt)
  have t2: "filter ?P (trace ?w2) =
              filter ?P (trace ?w1) @ concat (map crtc_destroys (crtcs (txn w)))"
    using fold_clear_crtcs_calls [of "[0..<?nc]" hk ?w1, OF distinct_upt]
    unfolding c1 lc [symmetric] by (simp only: concat_map_nth_upt)
  have x2: "ext ?w2 = fold (run_destroy hk) (concat (map crtc_destroys (crtcs (txn w)))) (ext ?w1)"
    using fold_clear_crtcs_ext [of "[0..<?nc]" hk ?w1, OF distinct_upt]
    unfolding c1 lc [symmetric] by (simp only: concat_map_nth_upt)
  have pc: "concat (map (\<lambda>i. pending_commit (crtcs (txn ?w1) ! i)) [0..<?nc]) =
            pending_commits (txn w)"
    unfolding c1 lc [symmetric] pending_commits_def by (rule concat_map_nth_upt)
  note m2 = fold_clear_crtcs_commits [of "[0..<?nc]" hk ?w1, OF distinct_upt,
      unfolded pc m1]
  have t3: "trace ?w3 = trace ?w2 @ concat (map plane_destroys (planes (txn w)))"
    and m3: "commit_mem ?w3 = commit_mem ?w2"
    using fold_clear_planes_trace [of "[0..<?np]" hk ?w2, OF distinct_upt]
    unfolding p2 lp [symmetric] by (simp_all only: concat_map_nth_upt)
  have x3: "ext ?w3 = fold (run_destroy hk) (concat (map plane_destroys (planes (txn w)))) (ext ?w2)"
    using fold_clear_planes_ext [of "[0..<?np]" hk ?w2, OF distinct_upt]
    unfolding p2 lp [symmetric] by (simp only: concat_map_nth_upt)
  have tr: "filter ?P (trace ?w3) = filter ?P (trace w) @ owed_drops (txn w)"
    by (simp add: t3 t2 t1 owed_drops_def not_kfree_concat)
  have ex: "ext ?w3 = fold (run_destroy hk) (owed_destroys (txn w)) (ext w)"
    by (simp add: x3 x2 x1 owed_destroys_def)
  from m2 have ma: "\<forall>m. commit_ref (commit_mem ?w2 m) =
              commit_ref (commit_mem w m) - int (count_list (pending_commits (txn w)) m)"
    and mb: "\<forall>m \<in> set (pending_commits (txn w)). commit_event (commit_mem ?w2 m) = None"
    and mc: "\<forall>m. m \<notin> set (pending_commits (txn w)) \<longrightarrow> commit_mem ?w2 m = commit_mem w m"
    by blast+
  from tr ex ma mb mc show ?thesis
    unfolding w' m3 by (intro conjI)
qed

text \<open>
  C4.  For a transaction whose CRTC and plane tables have the device's object counts,
  \<open>drm_atomic_state_default_clear\<close> leaves no entry with an object pointer in any of the
  three tables; every entry that had one has its snapshot (and, for a CRTC, its pending
  commit record) reset.  It makes exactly one destroy-state call per populated entry, on
  that entry's object and snapshot, and the state outside this file is what these calls
  of the destroy hooks make of it, in table order.  Apart from the frees of commit
  records and of their events, the calls it makes are exactly the destroy-state calls and
  one drop of the connector reference for each populated connector entry.  Every commit
  record loses one reference for each populated CRTC entry that holds it, a record held
  by such an entry loses its event, and no other record is touched.  When the populated
  CRTC entries hold different commit records (a record is allocated for one CRTC), the
  complete list of calls is the owed one, with the free of each pending record's event
  and of the record itself when its last reference goes.  Clearing the cleared
  transaction again changes nothing, so it makes no further call.
\<close>

theorem default_clear_releases_once:
  assumes lc: "length (crtcs (txn w)) = num_crtc (mode_config (dev w))"
    and lp: "length (planes (txn w)) = num_total_plane (mode_config (dev w))"
    and c: "drm_atomic_state_default_clear hk w = w'"
  shows "(\<forall>en\<in>set (connectors (txn w')). cne_ptr en = None) \<and>
         (\<forall>en\<in>set (crtcs (txn w')). ce_ptr en = None) \<and>
         (\<forall>en\<in>set (planes (txn w')). pe_ptr en = None) \<and>
         (\<forall>j<length (connectors (txn w)). cne_ptr (connectors (txn w) ! j) \<noteq> None \<longrightarrow>
            cne_state (connectors (txn w') ! j) = None) \<and>
         (\<forall>j<length (crtcs (txn w)). ce_ptr (crtcs (txn w) ! j) \<noteq> None \<longrightarrow>
            ce_state (crtcs (txn w') ! j) = None \<and> ce_commit (crtcs (txn w') ! j) = None) \<and>
         (\<forall>j<length (planes (txn w)). pe_ptr (planes (txn w) ! j) \<noteq> None \<longrightarrow>
            pe_state (planes (txn w') ! j) = None) \<and>
         filter is_destroy (trace w') = filter is_destroy (trace w) @ owed_destroys (txn w) \<and>
         ext w' = fold (run_destroy hk) (owed_destroys (txn w)) (ext w) \<and>
         filter (\<lambda>c. \<not> is_kfree c) (trace w') =
           filter (\<lambda>c. \<not> is_kfree c) (trace w) @ owed_drops (txn w) \<and>
         (\<forall>m. commit_ref (commit_mem w' m) =
              commit_ref (commit_mem w m) - int (count_list (pending_commits (txn w)) m)) \<and>
         (\<forall>m\<in>set (pending_commits (txn w)). commit_event (commit_mem w' m) = None) \<and>
         (\<forall>m. m \<notin> set (pending_commits (txn w)) \<longrightarrow> commit_mem w' m = commit_mem w m) \<and>
         (distinct (pending_commits (txn w)) \<longrightarrow> trace w' = trace w @ owed_releases w) \<and>
         drm_atomic_state_default_clear hk w' = w'"
proof -
  note a = default_clear_entries [OF lc lp c]
  from a have a1: "\<forall>en\<in>set (connectors (txn w')). cne_ptr en = None"
    and a2: "\<forall>en\<in>set (crtcs (txn w')). ce_ptr en = None"
    and a3: "\<forall>en\<in>set (planes (txn w')). pe_ptr en = None"
    and a4: "\<forall>j<length (connectors (txn w)). cne_ptr (connectors (txn w) ! j) \<noteq> None \<longrightarrow>
            cne_state (connectors (txn w') ! j) = None"
    and a5: "\<forall>j<length (crtcs (txn w)). ce_ptr (crtcs (txn w) ! j) \<noteq> None \<longrightarrow>
            ce_state (crtcs (txn w') ! j) = None \<and> ce_commit (crtcs (txn w') ! j) = None"
    and a6: "\<forall>j<length (planes (txn w)). pe_ptr (planes (txn w) ! j) \<noteq> None \<longrightarrow>
            pe_state (planes (txn w') ! j) = None"
    and a7: "filter is_destroy (trace w') = filter is_destroy (trace w) @ owed_destroys (txn w)"
    and a8: "drm_atomic_state_default_clear hk w' = w'"
    by blast+
  note o = default_clear_outside [OF lc lp, of hk, unfolded c]
  from o have o1: "filter (\<lambda>c. \<not> is_kfree c) (trace w') =
           filter (\<lambda>c. \<not> is_kfree c) (trace w) @ owed_drops (txn w)"
    and o2: "ext w' = fold (run_destroy hk) (owed_destroys (txn w)) (ext w)"
    and o3: "\<forall>m. commit_ref (commit_mem w' m) =
              commit_ref (commit_mem w m) - int (count_list (pending_commits (txn w)) m)"
    and o4: "\<forall>m\<in>set (pending_commits (txn w)). commit_event (commit_mem w' m) = None"
    and o5: "\<forall>m. m \<notin> set (pending_commits (txn w)) \<longrightarrow> commit_mem w' m = commit_mem w m"
    by blast+
  have b: "distinct (pending_commits (txn w)) \<longrightarrow> trace w' = trace w @ owed_releases w"
  proof
    assume dc: "distinct (pending_commits (txn w))"
    from default_clear_trace [OF lc lp dc, of hk, unfolded c]
    show "trace w' = trace w @ owed_releases w" by blast
  qed
  from a1 a2 a3 a4 a5 a6 a7 o2 o1 o3 o4 o5 b a8 show ?thesis by (intro conjI)
qed

text \<open>
  On the concrete device, with CRTC 0 (and a pending commit record with an event and one
  reference), plane 1 and connector 0 in the transaction: clear makes the six owed calls,
  empties the CRTC table, leaves the commit record without event and without reference,
  and a second clear changes nothing.
\<close>

theorem default_clear_releases_once_witness:
  "length (crtcs (txn world_populated)) = num_crtc (mode_config (dev world_populated)) \<and>
   length (planes (txn world_populated)) = num_total_plane (mode_config (dev world_populated)) \<and>
   pending_commits (txn world_populated) = [20] \<and>
   map ce_ptr (crtcs (txn (drm_atomic_state_default_clear hooks0 world_populated))) =
     [None, None] \<and>
   trace (drm_atomic_state_default_clear hooks0 world_populated) =
     [Connector_destroy_state 0 (Some 12), Connector_unreference 0,
      Crtc_destroy_state 0 (Some 10), Kfree_event 30, Kfree_commit 20,
      Plane_destroy_state 1 (Some 11)] \<and>
   commit_event (commit_mem (drm_atomic_state_default_clear hooks0 world_populated) 20) = None \<and>
   commit_ref (commit_mem (drm_atomic_state_default_clear hooks0 world_populated) 20) = 0 \<and>
   drm_atomic_state_default_clear hooks0
     (drm_atomic_state_default_clear hooks0 world_populated) =
   drm_atomic_state_default_clear hooks0 world_populated"
proof -
  let ?w' = "drm_atomic_state_default_clear hooks0 world_populated"
  have lc: "length (crtcs (txn world_populated)) =
            num_crtc (mode_config (dev world_populated))"
    and lp: "length (planes (txn world_populated)) =
             num_total_plane (mode_config (dev world_populated))"
    by (simp_all add: world_populated_def world0_def dev0_def config0_def)
  have pc: "pending_commits (txn world_populated) = [20]"
    by (simp add: world_populated_def world0_def pending_commits_def pending_commit_def
          empty_crtc_entry_def)
  have dc: "distinct (pending_commits (txn world_populated))" by (simp add: pc)
  have o: "trace world_populated @ owed_releases world_populated =
     [Connector_destroy_state 0 (Some 12), Connector_unreference 0,
      Crtc_destroy_state 0 (Some 10), Kfree_event 30, Kfree_commit 20,
      Plane_destroy_state 1 (Some 11)]"
    by (simp add: world_populated_def world0_def owed_releases_def connector_releases_def
          crtc_releases_def plane_destroys_def empty_crtc_entry_def empty_plane_entry_def)
  have r: "commit_ref (commit_mem world_populated 20) = 1"
    by (simp add: world_populated_def)
  have l2: "length (crtcs (txn ?w')) = Suc (Suc 0)"
    by (simp add: default_clear_length) (simp add: world_populated_def world0_def)
  note t = default_clear_releases_once [OF lc lp refl, of hooks0]
  from t have "\<forall>en\<in>set (crtcs (txn ?w')). ce_ptr en = None" by blast
  from ptrs_none [OF this] l2
  have m: "map ce_ptr (crtcs (txn ?w')) = [None, None]" by simp
  from t dc have "trace ?w' = trace world_populated @ owed_releases world_populated" by blast
  with o have tr: "trace ?w' =
     [Connector_destroy_state 0 (Some 12), Connector_unreference 0,
      Crtc_destroy_state 0 (Some 10), Kfree_event 30, Kfree_commit 20,
      Plane_destroy_state 1 (Some 11)]" by simp
  from t have "\<forall>m\<in>set (pending_commits (txn world_populated)).
      commit_event (commit_mem ?w' m) = None"
    and "\<forall>m. commit_ref (commit_mem ?w' m) =
      commit_ref (commit_mem world_populated m) -
      int (count_list (pending_commits (txn world_populated)) m)" by blast+
  with pc r have cm: "commit_event (commit_mem ?w' 20) = None"
    "commit_ref (commit_mem ?w' 20) = 0" by simp_all
  from t have idem: "drm_atomic_state_default_clear hooks0 ?w' = ?w'" by blast
  from lc lp pc m tr cm idem show ?thesis by (intro conjI)
qed


subsection \<open>Check-only and the commit entry points\<close>


lemma run_hook_trace: "run_hook f w = (r, w') \<Longrightarrow> trace w' = trace w"
  by (auto simp: run_hook_def split: prod.splits)

lemma check_planes_result:
  "check_planes hk w is = (ret, w1) \<Longrightarrow>
     (ret = 0 \<longrightarrow> w1 = w) \<and> (w1 = w \<or> w1 = w\<lparr>fault := True\<rparr>)"
  by (induction "is") (auto simp: Let_def split: option.splits if_splits)

lemma check_crtcs_result:
  "check_crtcs w is = (ret, w1) \<Longrightarrow>
     (ret = 0 \<longrightarrow> w1 = w) \<and> (w1 = w \<or> w1 = w\<lparr>fault := True\<rparr>)"
  by (induction "is") (auto simp: Let_def split: option.splits if_splits)

lemma plane_check_cong:
  "drm_atomic_plane_check hk (w\<lparr>trace := t, fault := b\<rparr>) p s = drm_atomic_plane_check hk w p s"
  by (simp add: drm_atomic_plane_check_def plane_switching_crtc_def Let_def
           cong: option.case_cong if_cong)

lemma crtc_check_cong:
  "drm_atomic_crtc_check (w\<lparr>trace := t, fault := b\<rparr>) c s = drm_atomic_crtc_check w c s"
  by (simp add: drm_atomic_crtc_check_def Let_def cong: option.case_cong if_cong)

lemma check_planes_cong:
  "fst (check_planes hk (w\<lparr>trace := t, fault := b\<rparr>) is) = fst (check_planes hk w is)"
  by (induction "is") (auto simp: Let_def plane_check_cong split: option.splits)

lemma check_crtcs_cong:
  "fst (check_crtcs (w\<lparr>trace := t, fault := b\<rparr>) is) = fst (check_crtcs w is)"
  by (induction "is") (auto simp: Let_def crtc_check_cong split: option.splits)

lemma crtcs_need_modeset_cong:
  "crtcs_need_modeset (w\<lparr>trace := t, fault := b\<rparr>) is = crtcs_need_modeset w is"
  by (induction "is") (auto split: option.splits)

lemma crtcs_need_modeset_trace:
  "crtcs_need_modeset (w\<lparr>trace := t\<rparr>) is = crtcs_need_modeset w is"
  by (induction "is") (auto split: option.splits)

lemma call_atomic_check_pure:
  assumes "check_hook_pure hk" and "call_atomic_check hk w = (ret, w1)"
  shows "\<exists>t. w1 = w\<lparr>trace := t\<rparr> \<and> commit_flags t = commit_flags (trace w)"
proof (cases "atomic_check hk")
  case None
  with assms show ?thesis by (auto simp: call_atomic_check_def intro: exI [of _ "trace w"])
next
  case (Some f)
  let ?v = "(log Atomic_check w)\<lparr>trace := []\<rparr>"
  from Some assms have "snd (f ?v) = ?v" by (simp add: check_hook_pure_def)
  then obtain r where "f ?v = (r, ?v)" by (cases "f ?v") simp
  with assms Some have "w1 = w\<lparr>trace := trace w @ [Atomic_check]\<rparr>"
    by (simp add: call_atomic_check_def run_hook_def log_def)
  then show ?thesis
    by (intro exI [of _ "trace w @ [Atomic_check]"])
       (simp add: commit_flags_def commit_flag_def)
qed

lemma call_atomic_check_cong:
  "fst (call_atomic_check hk (w\<lparr>trace := t\<rparr>)) = fst (call_atomic_check hk w)"
  by (auto simp: call_atomic_check_def run_hook_def log_def split: option.splits prod.splits)

text \<open>Check-only with a check hook that has no side effects: the result and the world.\<close>

lemma check_only_result:
  assumes p: "check_hook_pure hk" and c: "drm_atomic_check_only hk w = (ret, w1)"
  shows "\<exists>t b. w1 = w\<lparr>trace := t, fault := b\<rparr> \<and> commit_flags t = commit_flags (trace w) \<and>
           (fst (check_planes hk w [0..<num_total_plane (mode_config (dev w))]) = 0 \<and>
            fst (check_crtcs w [0..<num_crtc (mode_config (dev w))]) = 0 \<longrightarrow> b = fault w) \<and>
           ret =
             (if fst (check_planes hk w [0..<num_total_plane (mode_config (dev w))]) \<noteq> 0
              then fst (check_planes hk w [0..<num_total_plane (mode_config (dev w))])
              else if fst (check_crtcs w [0..<num_crtc (mode_config (dev w))]) \<noteq> 0
              then fst (check_crtcs w [0..<num_crtc (mode_config (dev w))])
              else if fst (call_atomic_check hk w) \<noteq> 0 then fst (call_atomic_check hk w)
              else if \<not> allow_modeset (txn w) \<and>
                      crtcs_need_modeset w [0..<num_crtc (mode_config (dev w))]
              then - EINVAL else 0)"
proof -
  let ?np = "[0..<num_total_plane (mode_config (dev w))]"
  let ?nc = "[0..<num_crtc (mode_config (dev w))]"
  obtain rp wp where cp: "check_planes hk w ?np = (rp, wp)" by fastforce
  note rp = check_planes_result [OF cp]
  show ?thesis
  proof (cases "rp = 0")
    case False
    with c cp have "ret = rp" "w1 = wp" by (simp_all add: drm_atomic_check_only_def)
    with rp False cp show ?thesis
      by (intro exI [of _ "trace w"] exI [of _ "fault wp"]) auto
  next
    case True
    with rp have wp: "wp = w" by simp
    obtain rc wc where cc: "check_crtcs w ?nc = (rc, wc)" by fastforce
    note rc = check_crtcs_result [OF cc]
    show ?thesis
    proof (cases "rc = 0")
      case False
      with c cp cc True wp have "ret = rc" "w1 = wc" by (simp_all add: drm_atomic_check_only_def)
      with rc False True cc cp show ?thesis
        by (intro exI [of _ "trace w"] exI [of _ "fault wc"]) auto
    next
      case rc0: True
      with rc have wc: "wc = w" by simp
      obtain rh wh where ch: "call_atomic_check hk w = (rh, wh)" by fastforce
      from call_atomic_check_pure [OF p ch] obtain t where
        wh: "wh = w\<lparr>trace := t\<rparr>" and cf: "commit_flags t = commit_flags (trace w)" by blast
      have nm: "crtcs_need_modeset wh [0..<num_crtc (mode_config (dev wh))] =
                crtcs_need_modeset w ?nc" "allow_modeset (txn wh) = allow_modeset (txn w)"
        using wh by (simp_all add: crtcs_need_modeset_trace)
      from c cp cc True wp rc0 wc ch nm have "w1 = wh" and
        "ret = (if rh \<noteq> 0 then rh
                else if \<not> allow_modeset (txn w) \<and> crtcs_need_modeset w ?nc then - EINVAL
                else 0)"
        by (auto simp: drm_atomic_check_only_def split: if_splits)
      with wh cf True rc0 cc ch cp show ?thesis
        by (intro exI [of _ t] exI [of _ "fault w"]) auto
    qed
  qed
qed

lemma check_only_again:
  assumes p: "check_hook_pure hk"
    and b: "b = fault w \<or>
            fst (check_planes hk w [0..<num_total_plane (mode_config (dev w))]) \<noteq> 0 \<or>
            fst (check_crtcs w [0..<num_crtc (mode_config (dev w))]) \<noteq> 0"
  shows "fst (drm_atomic_check_only hk (w\<lparr>trace := t, fault := b\<rparr>)) =
         fst (drm_atomic_check_only hk w)"
proof -
  let ?w' = "w\<lparr>trace := t, fault := b\<rparr>"
  let ?np = "[0..<num_total_plane (mode_config (dev w))]"
  let ?nc = "[0..<num_crtc (mode_config (dev w))]"
  obtain r1 w1 where c1: "drm_atomic_check_only hk w = (r1, w1)" by fastforce
  obtain r2 w2 where c2: "drm_atomic_check_only hk ?w' = (r2, w2)" by fastforce
  have d: "dev ?w' = dev w" "txn ?w' = txn w" by simp_all
  have e: "fst (check_planes hk ?w' ?np) = fst (check_planes hk w ?np)"
    "fst (check_crtcs ?w' ?nc) = fst (check_crtcs w ?nc)"
    "crtcs_need_modeset ?w' ?nc = crtcs_need_modeset w ?nc"
    by (rule check_planes_cong, rule check_crtcs_cong, rule crtcs_need_modeset_cong)
  from check_only_result [OF p c1] have q1: "r1 =
             (if fst (check_planes hk w ?np) \<noteq> 0 then fst (check_planes hk w ?np)
              else if fst (check_crtcs w ?nc) \<noteq> 0 then fst (check_crtcs w ?nc)
              else if fst (call_atomic_check hk w) \<noteq> 0 then fst (call_atomic_check hk w)
              else if \<not> allow_modeset (txn w) \<and> crtcs_need_modeset w ?nc
              then - EINVAL else 0)" by blast
  from check_only_result [OF p c2] have "r2 =
             (if fst (check_planes hk ?w' [0..<num_total_plane (mode_config (dev ?w'))]) \<noteq> 0
              then fst (check_planes hk ?w' [0..<num_total_plane (mode_config (dev ?w'))])
              else if fst (check_crtcs ?w' [0..<num_crtc (mode_config (dev ?w'))]) \<noteq> 0
              then fst (check_crtcs ?w' [0..<num_crtc (mode_config (dev ?w'))])
              else if fst (call_atomic_check hk ?w') \<noteq> 0 then fst (call_atomic_check hk ?w')
              else if \<not> allow_modeset (txn ?w') \<and>
                      crtcs_need_modeset ?w' [0..<num_crtc (mode_config (dev ?w'))]
              then - EINVAL else 0)" by blast
  then have q2: "r2 =
             (if fst (check_planes hk w ?np) \<noteq> 0 then fst (check_planes hk w ?np)
              else if fst (check_crtcs w ?nc) \<noteq> 0 then fst (check_crtcs w ?nc)
              else if fst (call_atomic_check hk ?w') \<noteq> 0 then fst (call_atomic_check hk ?w')
              else if \<not> allow_modeset (txn w) \<and> crtcs_need_modeset w ?nc
              then - EINVAL else 0)"
    unfolding d e .
  have "r2 = r1"
  proof (cases "fst (check_planes hk w ?np) \<noteq> 0 \<or> fst (check_crtcs w ?nc) \<noteq> 0")
    case True
    with q1 q2 show ?thesis by auto
  next
    case False
    with b have "b = fault w" by blast
    then have "?w' = w\<lparr>trace := t\<rparr>" by simp
    then have "fst (call_atomic_check hk ?w') = fst (call_atomic_check hk w)"
      by (simp only: call_atomic_check_cong)
    with q2 have "r2 =
             (if fst (check_planes hk w ?np) \<noteq> 0 then fst (check_planes hk w ?np)
              else if fst (check_crtcs w ?nc) \<noteq> 0 then fst (check_crtcs w ?nc)
              else if fst (call_atomic_check hk w) \<noteq> 0 then fst (call_atomic_check hk w)
              else if \<not> allow_modeset (txn w) \<and> crtcs_need_modeset w ?nc
              then - EINVAL else 0)" by (simp only:)
    with q1 show ?thesis by (simp only:)
  qed
  with c1 c2 show ?thesis by simp
qed

lemma check_only_pure:
  assumes p: "check_hook_pure hk" and c: "drm_atomic_check_only hk w = (ret, w1)"
  shows "unchanged w w1 \<and> commit_flags (trace w1) = commit_flags (trace w) \<and>
         fst (drm_atomic_check_only hk w1) = ret"
proof -
  from check_only_result [OF p c] obtain t b where
    w1: "w1 = w\<lparr>trace := t, fault := b\<rparr>" and cf: "commit_flags t = commit_flags (trace w)"
    and bf: "fst (check_planes hk w [0..<num_total_plane (mode_config (dev w))]) = 0 \<and>
            fst (check_crtcs w [0..<num_crtc (mode_config (dev w))]) = 0 \<longrightarrow> b = fault w"
    by blast
  from bf have "b = fault w \<or>
            fst (check_planes hk w [0..<num_total_plane (mode_config (dev w))]) \<noteq> 0 \<or>
            fst (check_crtcs w [0..<num_crtc (mode_config (dev w))]) \<noteq> 0" by blast
  from check_only_again [OF p this, of t] c w1 have "fst (drm_atomic_check_only hk w1) = ret"
    by simp
  with w1 cf show ?thesis by (simp add: unchanged_def)
qed


lemma unchanged_trans: "unchanged a b \<Longrightarrow> unchanged b c \<Longrightarrow> unchanged a c"
  unfolding unchanged_def
proof -
  assume 1: "b = a\<lparr>trace := trace b, fault := fault b\<rparr>"
    and 2: "c = b\<lparr>trace := trace c, fault := fault c\<rparr>"
  have "c = (a\<lparr>trace := trace b, fault := fault b\<rparr>)\<lparr>trace := trace c, fault := fault c\<rparr>"
    by (subst 2, subst 1) (rule refl)
  then show "c = a\<lparr>trace := trace c, fault := fault c\<rparr>" by simp
qed

lemma call_atomic_check_flags:
  "call_atomic_check hk w = (r, w') \<Longrightarrow> commit_flags (trace w') = commit_flags (trace w)"
  by (auto simp: call_atomic_check_def run_hook_def log_def commit_flags_def commit_flag_def
           split: option.splits prod.splits)

lemma check_only_flags:
  assumes c: "drm_atomic_check_only hk w = (ret, w1)"
  shows "commit_flags (trace w1) = commit_flags (trace w)"
proof -
  let ?np = "[0..<num_total_plane (mode_config (dev w))]"
  let ?nc = "[0..<num_crtc (mode_config (dev w))]"
  obtain rp wp where cp: "check_planes hk w ?np = (rp, wp)" by fastforce
  from check_planes_result [OF cp] have tp: "trace wp = trace w" and wp: "rp = 0 \<longrightarrow> wp = w"
    by auto
  show ?thesis
  proof (cases "rp = 0")
    case False
    with c cp have "w1 = wp" by (simp add: drm_atomic_check_only_def)
    with tp show ?thesis by simp
  next
    case True
    with wp have wpw: "wp = w" by simp
    obtain rc wc where cc: "check_crtcs w ?nc = (rc, wc)" by fastforce
    from check_crtcs_result [OF cc] have tc: "trace wc = trace w" and wc: "rc = 0 \<longrightarrow> wc = w"
      by auto
    show ?thesis
    proof (cases "rc = 0")
      case False
      with c cp cc True wpw have "w1 = wc" by (simp add: drm_atomic_check_only_def)
      with tc show ?thesis by simp
    next
      case rc0: True
      with wc have wcw: "wc = w" by simp
      obtain rh wh where ch: "call_atomic_check hk w = (rh, wh)" by fastforce
      from c cp cc True wpw rc0 wcw ch have "w1 = wh"
        by (auto simp: drm_atomic_check_only_def split: if_splits)
      with call_atomic_check_flags [OF ch] show ?thesis by simp
    qed
  qed
qed

lemma call_atomic_commit_flags:
  "commit_flags (trace (snd (call_atomic_commit hk nb w))) = commit_flags (trace w) @ [nb]"
  by (auto simp: call_atomic_commit_def run_hook_def log_def commit_flags_def commit_flag_def
           split: prod.splits)

text \<open>
  Claim C5. Both commit entry points run check-only first. The check itself never calls the
  global commit hook. When it returns an error, commit and nonblocking commit return that
  error and the world that check-only left: the commit hook is not called, and the
  transaction is neither freed nor handed over. When it returns 0, they call the commit hook
  on the world that check-only left, with the flag false for commit and true for
  nonblocking commit, and return what the hook returns.
\<close>

theorem commit_checks_first:
  assumes c: "drm_atomic_check_only hk w = (ret, w1)"
  shows "commit_flags (trace w1) = commit_flags (trace w) \<and>
     (ret \<noteq> 0 \<longrightarrow>
        drm_atomic_commit hk w = (ret, w1) \<and> drm_atomic_nonblocking_commit hk w = (ret, w1)) \<and>
     (ret = 0 \<longrightarrow>
        drm_atomic_commit hk w =
          run_hook (atomic_commit hk False) (log (Atomic_commit False) w1) \<and>
        drm_atomic_nonblocking_commit hk w =
          run_hook (atomic_commit hk True) (log (Atomic_commit True) w1) \<and>
        commit_flags (trace (snd (drm_atomic_commit hk w))) = commit_flags (trace w) @ [False] \<and>
        commit_flags (trace (snd (drm_atomic_nonblocking_commit hk w))) =
          commit_flags (trace w) @ [True])"
proof -
  note f = check_only_flags [OF c]
  have a: "ret \<noteq> 0 \<longrightarrow>
        drm_atomic_commit hk w = (ret, w1) \<and> drm_atomic_nonblocking_commit hk w = (ret, w1)"
    using c by (simp add: drm_atomic_commit_def drm_atomic_nonblocking_commit_def)
  have b: "ret = 0 \<longrightarrow> drm_atomic_commit hk w = call_atomic_commit hk False w1 \<and>
        drm_atomic_nonblocking_commit hk w = call_atomic_commit hk True w1"
    using c by (simp add: drm_atomic_commit_def drm_atomic_nonblocking_commit_def)
  from f a b show ?thesis
    by (simp add: call_atomic_commit_flags) (simp add: call_atomic_commit_def)
qed

lemmas check_eval =
  drm_atomic_check_only_def call_atomic_check_def drm_atomic_crtc_check_def
  drm_atomic_plane_check_def plane_switching_crtc_def drm_atomic_crtc_needs_modeset_def
  world_populated_def world_active_disabled_def world0_def dev0_def config0_def
  crtc_state0_def plane_state0_def hooks0_def hooks_check_def upd_crtc_state_def
  empty_crtc_entry_def empty_plane_entry_def run_hook_def log_def Let_def upt_rec

lemma check_ok: "drm_atomic_check_only hooks0 world_populated = (0, world_populated)"
  by (simp add: check_eval)

lemma check_bad:
  "drm_atomic_check_only hooks0 world_active_disabled = (- EINVAL, world_active_disabled)"
  by (simp add: check_eval)

text \<open>
  On the concrete device: a transaction whose CRTC state is active but not enabled is
  rejected by both entry points without a commit call; the populated transaction passes the
  check and reaches the hook with the flag of the entry point.
\<close>

theorem commit_checks_first_witness:
  "drm_atomic_check_only hooks0 world_active_disabled = (- EINVAL, world_active_disabled) \<and>
   drm_atomic_commit hooks0 world_active_disabled = (- EINVAL, world_active_disabled) \<and>
   drm_atomic_nonblocking_commit hooks0 world_active_disabled =
     (- EINVAL, world_active_disabled) \<and>
   commit_flags (trace world_active_disabled) = [] \<and>
   drm_atomic_check_only hooks0 world_populated = (0, world_populated) \<and>
   commit_flags (trace (snd (drm_atomic_commit hooks0 world_populated))) = [False] \<and>
   commit_flags (trace (snd (drm_atomic_nonblocking_commit hooks0 world_populated))) = [True]"
proof -
  have t: "commit_flags (trace world_active_disabled) = []"
    "commit_flags (trace world_populated) = []"
    by (simp_all add: commit_flags_def world_active_disabled_def world_populated_def world0_def
          upd_crtc_state_def)
  note bad = commit_checks_first [OF check_bad] and ok = commit_checks_first [OF check_ok]
  from bad have b: "drm_atomic_commit hooks0 world_active_disabled =
      (- EINVAL, world_active_disabled)"
    "drm_atomic_nonblocking_commit hooks0 world_active_disabled =
      (- EINVAL, world_active_disabled)" by simp_all
  from ok have "commit_flags (trace (snd (drm_atomic_commit hooks0 world_populated))) =
      commit_flags (trace world_populated) @ [False]"
    "commit_flags (trace (snd (drm_atomic_nonblocking_commit hooks0 world_populated))) =
      commit_flags (trace world_populated) @ [True]" by blast+
  with t have g: "commit_flags (trace (snd (drm_atomic_commit hooks0 world_populated))) = [False]"
    "commit_flags (trace (snd (drm_atomic_nonblocking_commit hooks0 world_populated))) = [True]"
    by simp_all
  from b g t check_bad check_ok show ?thesis by (intro conjI)
qed

lemma check_only_frame:
  "unchanged w (snd (drm_atomic_check_only hk w)) \<or>
   (\<exists>f. atomic_check hk = Some f \<and>
        unchanged (snd (f (w\<lparr>trace := []\<rparr>))) (snd (drm_atomic_check_only hk w)))"
proof -
  let ?np = "[0..<num_total_plane (mode_config (dev w))]"
  let ?nc = "[0..<num_crtc (mode_config (dev w))]"
  obtain ret w1 where c: "drm_atomic_check_only hk w = (ret, w1)" by fastforce
  obtain rp wp where cp: "check_planes hk w ?np = (rp, wp)" by fastforce
  note rp = check_planes_result [OF cp]
  have u: "\<And>v. v = w \<or> v = w\<lparr>fault := True\<rparr> \<Longrightarrow> unchanged w v"
    by (auto simp: unchanged_def)
  show ?thesis
  proof (cases "rp = 0")
    case False
    with c cp have "w1 = wp" by (simp add: drm_atomic_check_only_def)
    with rp u c show ?thesis by simp
  next
    case True
    with rp have wp: "wp = w" by simp
    obtain rc wc where cc: "check_crtcs w ?nc = (rc, wc)" by fastforce
    note rc = check_crtcs_result [OF cc]
    show ?thesis
    proof (cases "rc = 0")
      case False
      with c cp cc True wp have "w1 = wc" by (simp add: drm_atomic_check_only_def)
      with rc u c show ?thesis by simp
    next
      case rc0: True
      with rc have wc: "wc = w" by simp
      obtain rh wh where ch: "call_atomic_check hk w = (rh, wh)" by fastforce
      from c cp cc True wp rc0 wc ch have w1: "w1 = wh"
        by (auto simp: drm_atomic_check_only_def split: if_splits)
      show ?thesis
      proof (cases "atomic_check hk")
        case None
        with ch have "wh = w" by (simp add: call_atomic_check_def)
        with w1 c show ?thesis by (simp add: unchanged_def)
      next
        case (Some f)
        with ch have "wh = (snd (f (w\<lparr>trace := []\<rparr>)))\<lparr>trace := trace w @ [Atomic_check]\<rparr>"
          by (auto simp: call_atomic_check_def run_hook_def log_def split: prod.splits)
        then have "unchanged (snd (f (w\<lparr>trace := []\<rparr>))) wh"
          by (simp add: unchanged_def)
        with Some w1 c show ?thesis by simp
      qed
    qed
  qed
qed

lemma check_only_times_pure:
  assumes p: "check_hook_pure hk" and c: "check_only_times hk n w = (rets, w')"
  shows "rets = replicate n (fst (drm_atomic_check_only hk w)) \<and> unchanged w w'"
  using c
proof (induction n arbitrary: w rets)
  case 0
  then show ?case by (simp add: unchanged_def)
next
  case (Suc n)
  obtain ret w1 where c1: "drm_atomic_check_only hk w = (ret, w1)" by fastforce
  obtain rs w2 where c2: "check_only_times hk n w1 = (rs, w2)" by fastforce
  from Suc.prems c1 c2 have r: "rets = ret # rs" "w' = w2" by simp_all
  note a = check_only_pure [OF p c1]
  from Suc.IH [OF c2 [unfolded r(2) [symmetric]]] a
  have "rs = replicate n ret" "unchanged w1 w'" by simp_all
  with a r c1 show ?case by (auto intro: unchanged_trans)
qed

text \<open>
  Claim C6, as amended.  Check-only itself writes nothing: after a call, the device, its
  current object states, the transaction and every state snapshot are as they were before
  the call or, when the driver's global check hook was called, as that hook left them.
  With a global check hook that returns the world it was given, \<open>n\<close> calls in a row
  return \<open>n\<close> times the result of the first call, and the device, its current object
  states, the transaction and every state snapshot are at the end what they were at the
  start.
\<close>

theorem check_only_idempotent:
  assumes c: "check_only_times hk n w = (rets, w')"
  shows "(unchanged w (snd (drm_atomic_check_only hk w)) \<or>
          (\<exists>f. atomic_check hk = Some f \<and>
               unchanged (snd (f (w\<lparr>trace := []\<rparr>))) (snd (drm_atomic_check_only hk w)))) \<and>
         (check_hook_pure hk \<longrightarrow>
            rets = replicate n (fst (drm_atomic_check_only hk w)) \<and> unchanged w w')"
  using check_only_frame [of w hk] check_only_times_pure [OF _ c] by blast

text \<open>
  On the concrete device, with a check hook that accepts everything: three checks of the
  populated transaction pass, two checks of the rejected one fail alike, and both worlds
  are unchanged.
\<close>

theorem check_only_idempotent_witness:
  "check_hook_pure hooks_check \<and>
   fst (check_only_times hooks_check 3 world_populated) = [0, 0, 0] \<and>
   fst (check_only_times hooks_check 2 world_active_disabled) = [- EINVAL, - EINVAL] \<and>
   unchanged world_populated (snd (check_only_times hooks_check 3 world_populated)) \<and>
   unchanged world_active_disabled (snd (check_only_times hooks_check 2 world_active_disabled))"
proof -
  have p: "check_hook_pure hooks_check"
    by (simp add: check_hook_pure_def hooks_check_def hooks0_def)
  have a: "fst (drm_atomic_check_only hooks_check world_populated) = 0"
    by (simp add: check_eval)
  have b: "fst (drm_atomic_check_only hooks_check world_active_disabled) = - EINVAL"
    by (simp add: check_eval)
  from check_only_idempotent [of hooks_check 3 world_populated
        "fst (check_only_times hooks_check 3 world_populated)"
        "snd (check_only_times hooks_check 3 world_populated)"] p a
  have x: "fst (check_only_times hooks_check 3 world_populated) = [0, 0, 0]"
    "unchanged world_populated (snd (check_only_times hooks_check 3 world_populated))"
    by (simp_all add: numeral_3_eq_3)
  from check_only_idempotent [of hooks_check 2 world_active_disabled
        "fst (check_only_times hooks_check 2 world_active_disabled)"
        "snd (check_only_times hooks_check 2 world_active_disabled)"] p b
  have y: "fst (check_only_times hooks_check 2 world_active_disabled) = [- EINVAL, - EINVAL]"
    "unchanged world_active_disabled (snd (check_only_times hooks_check 2 world_active_disabled))"
    by (simp_all add: numeral_2_eq_2)
  from p x y show ?thesis by (intro conjI)
qed

text \<open>
  The claim as stated fails for a driver whose check hook writes to the transaction: the
  hook activates the state of CRTC 0, which is not enabled, so the first check of the
  populated transaction passes and the second is rejected by the CRTC check.
\<close>

theorem check_only_idempotent_counterexample:
  "fst (check_only_times hooks_activate 2 world_populated) = [0, - EINVAL]"
  by (simp add: check_eval hooks_activate_def numeral_2_eq_2)

subsection \<open>The ioctl: no clear and no back-off below the retry loop\<close>

lemma retry_calls_simps:
  "retry_calls (xs @ ys) = retry_calls xs @ retry_calls ys"
  "retry_calls (c # cs) = (if is_retry_call c then c # retry_calls cs else retry_calls cs)"
  "retry_calls [] = []"
  by (simp_all add: retry_calls_def)

lemma run_hook_trace_snd: "trace (snd (run_hook f w)) = trace w"
  by (simp add: run_hook_def split_def)

lemmas quiet_simps = retry_calls_simps is_retry_call_def run_hook_trace_snd split_def Let_def

lemma upd_plane_fields:
  "txn (upd_plane p f w) = txn w" "crtc_mem (upd_plane p f w) = crtc_mem w"
  "plane_mem (upd_plane p f w) = plane_mem w" "conn_mem (upd_plane p f w) = conn_mem w"
  "event_mem (upd_plane p f w) = event_mem w" "trace (upd_plane p f w) = trace w"
  "ext (upd_plane p f w) = ext w" "mode_config (dev (upd_plane p f w)) = mode_config (dev w)"
  by (simp_all add: upd_plane_def)

lemma modeset_lock_quiet:
  "retry_calls (trace (snd (drm_modeset_lock hk l w))) = retry_calls (trace w)"
  by (simp add: drm_modeset_lock_def quiet_simps)

lemma get_crtc_state_quiet:
  "retry_calls (trace (snd (drm_atomic_get_crtc_state hk w crtc))) = retry_calls (trace w)"
  by (simp add: drm_atomic_get_crtc_state_def modeset_lock_quiet quiet_simps
           split: option.splits)

lemma get_plane_state_quiet:
  "retry_calls (trace (snd (drm_atomic_get_plane_state hk w plane))) = retry_calls (trace w)"
  by (simp add: drm_atomic_get_plane_state_def modeset_lock_quiet get_crtc_state_quiet
        quiet_simps split: option.splits sum.splits)

lemma grow_connectors_quiet:
  "trace (snd (grow_connectors hk w k)) = trace w"
  by (simp add: grow_connectors_def quiet_simps split: bool.splits)

lemma get_connector_state_quiet:
  "retry_calls (trace (snd (drm_atomic_get_connector_state hk w connector))) =
   retry_calls (trace w)"
  by (simp add: drm_atomic_get_connector_state_def modeset_lock_quiet get_crtc_state_quiet
        grow_connectors_quiet quiet_simps split: option.splits sum.splits bool.splits)

lemma set_crtc_for_plane_link_quiet:
  "retry_calls (trace (snd (set_crtc_for_plane_link hk w plane_state plane crtc))) =
   retry_calls (trace w)"
  by (simp add: set_crtc_for_plane_link_def get_crtc_state_quiet quiet_simps
           split: option.splits sum.splits)

lemma set_crtc_for_plane_quiet:
  "retry_calls (trace (snd (drm_atomic_set_crtc_for_plane hk w plane_state crtc))) =
   retry_calls (trace w)"
  by (simp add: drm_atomic_set_crtc_for_plane_def set_crtc_for_plane_link_quiet
        get_crtc_state_quiet quiet_simps split: option.splits sum.splits)

lemma set_fb_for_plane_quiet:
  "retry_calls (trace (drm_atomic_set_fb_for_plane w plane_state fb)) = retry_calls (trace w)"
  by (simp add: drm_atomic_set_fb_for_plane_def quiet_simps split: option.splits)

lemma set_crtc_for_connector_unlink_quiet:
  "retry_calls (trace (set_crtc_for_connector_unlink w conn_state)) = retry_calls (trace w)"
  by (simp add: set_crtc_for_connector_unlink_def quiet_simps split: option.splits)

lemma set_crtc_for_connector_quiet:
  "retry_calls (trace (snd (drm_atomic_set_crtc_for_connector hk w conn_state crtc))) =
   retry_calls (trace w)"
  by (simp add: drm_atomic_set_crtc_for_connector_def set_crtc_for_connector_unlink_quiet
        get_crtc_state_quiet quiet_simps split: option.splits sum.splits)

lemma quiet_if:
  "retry_calls (trace (snd a)) = t \<Longrightarrow> retry_calls (trace (snd b)) = t \<Longrightarrow>
   retry_calls (trace (snd (if c then a else b))) = t"
  by simp

lemma plane_set_property_quiet:
  "retry_calls (trace (snd (drm_atomic_plane_set_property hk w plane state property val))) =
   retry_calls (trace w)"
  unfolding drm_atomic_plane_set_property_def Let_def
  by (intro quiet_if)
     (simp_all add: set_fb_for_plane_quiet set_crtc_for_plane_quiet quiet_simps
        split: option.splits)

lemma property_blob_quiet:
  "retry_calls (trace (property_unreference_blob w blob)) = retry_calls (trace w)"
  "retry_calls (trace (property_reference_blob w blob)) = retry_calls (trace w)"
  by (simp_all add: property_unreference_blob_def property_reference_blob_def quiet_simps
        split: option.splits)

lemma set_mode_prop_for_crtc_quiet:
  "retry_calls (trace (snd (drm_atomic_set_mode_prop_for_crtc hk w state blob))) =
   retry_calls (trace w)"
  by (simp add: drm_atomic_set_mode_prop_for_crtc_def property_blob_quiet quiet_simps
        split: option.splits)

lemma replace_property_blob_quiet:
  "retry_calls (trace (snd (drm_atomic_replace_property_blob w state field new_blob))) =
   retry_calls (trace w)"
  by (simp add: drm_atomic_replace_property_blob_def property_blob_quiet quiet_simps)

lemma replace_property_blob_from_id_quiet:
  "retry_calls (trace (snd (snd (drm_atomic_replace_property_blob_from_id hk w state field bid
      expected_size)))) = retry_calls (trace w)"
  by (simp add: drm_atomic_replace_property_blob_from_id_def replace_property_blob_quiet
        property_blob_quiet quiet_simps split: option.splits)

lemma set_color_blob_quiet:
  "retry_calls (trace (snd (set_color_blob hk w state field val expected_size))) =
   retry_calls (trace w)"
  by (simp add: set_color_blob_def replace_property_blob_from_id_quiet quiet_simps)

lemma crtc_set_property_quiet:
  "retry_calls (trace (snd (drm_atomic_crtc_set_property hk w crtc state property val))) =
   retry_calls (trace w)"
  unfolding drm_atomic_crtc_set_property_def Let_def
  by (intro quiet_if)
     (simp_all add: set_mode_prop_for_crtc_quiet set_color_blob_quiet property_blob_quiet
        set_out_fence_for_crtc_def quiet_simps split: option.splits)

lemma connector_set_property_quiet:
  "retry_calls (trace (snd (drm_atomic_connector_set_property hk w connector state property
      val))) = retry_calls (trace w)"
  unfolding drm_atomic_connector_set_property_def Let_def
  by (intro quiet_if)
     (simp_all add: set_crtc_for_connector_quiet quiet_simps split: option.splits)

lemma atomic_set_prop_quiet:
  "retry_calls (trace (snd (atomic_set_prop hk w obj prop prop_value))) = retry_calls (trace w)"
  by (simp add: atomic_set_prop_def get_connector_state_quiet get_crtc_state_quiet
        get_plane_state_quiet connector_set_property_quiet crtc_set_property_quiet
        plane_set_property_quiet quiet_simps
        split: option.splits sum.splits mode_object.splits)

lemma set_props_quiet:
  "retry_calls (trace (snd (snd (set_props hk obj n copied_props w)))) = retry_calls (trace w)"
  by (induction n arbitrary: copied_props w)
     (simp_all add: atomic_set_prop_quiet quiet_simps split: option.splits)

lemma note_old_fb_quiet:
  "trace (snd (note_old_fb arg obj count_props pmask w)) = trace w"
  by (simp add: note_old_fb_def upd_plane_fields split: option.splits mode_object.splits)

lemma set_objs_quiet:
  "retry_calls (trace (snd (snd (set_objs hk arg n copied_objs copied_props pmask w)))) =
   retry_calls (trace w)"
  by (induction n arbitrary: copied_objs copied_props pmask w)
     (simp_all add: set_props_quiet note_old_fb_quiet quiet_simps split: option.splits)

lemma create_vblank_event_quiet:
  "trace (snd (create_vblank_event hk w data)) = trace w"
  by (simp add: create_vblank_event_def quiet_simps split: bool.splits)

lemma setup_out_fence_quiet:
  "retry_calls (trace (snd (snd (setup_out_fence hk w f fence)))) = retry_calls (trace w)"
  by (simp add: setup_out_fence_def quiet_simps)

lemma prepare_event_quiet:
  "trace (snd (prepare_event hk arg fence_ptr crtc_state w)) = trace w"
  by (simp add: prepare_event_def create_vblank_event_quiet quiet_simps split: option.splits)

lemma reserve_event_quiet:
  "retry_calls (trace (snd (reserve_event hk crtc_state w))) = retry_calls (trace w)"
  by (simp add: reserve_event_def quiet_simps split: option.splits)

lemma prepare_out_fence_quiet:
  "retry_calls (trace (fst (snd (prepare_out_fence hk crtc crtc_state fence_ptr w fence_state
      num_fences)))) = retry_calls (trace w)"
  by (simp add: prepare_out_fence_def setup_out_fence_quiet quiet_simps
        split: option.splits bool.splits)

lemma prepare_crtc_quiet:
  "retry_calls (trace (fst (snd (prepare_crtc hk arg file_priv crtc crtc_state w fence_state
      num_fences)))) = retry_calls (trace w)"
  by (simp add: prepare_crtc_def get_out_fence_for_crtc_def prepare_event_quiet
        reserve_event_quiet prepare_out_fence_quiet quiet_simps
        split: option.splits bool.splits)

lemma prepare_crtcs_quiet:
  "retry_calls (trace (fst (snd (prepare_crtcs hk arg file_priv is w fence_state
      num_fences)))) = retry_calls (trace w)"
  by (induction "is" arbitrary: w fence_state num_fences)
     (simp_all add: prepare_crtc_quiet quiet_simps split: option.splits)

lemma prepare_crtc_signaling_quiet:
  "retry_calls (trace (fst (snd (prepare_crtc_signaling hk arg file_priv w fence_state
      num_fences)))) = retry_calls (trace w)"
  by (simp add: prepare_crtc_signaling_def prepare_crtcs_quiet)

lemma check_planes_trace: "trace (snd (check_planes hk w is)) = trace w"
  by (induction "is") (simp_all add: Let_def split: option.splits)

lemma check_crtcs_trace: "trace (snd (check_crtcs w is)) = trace w"
  by (induction "is") (simp_all add: Let_def split: option.splits)

lemma check_only_quiet:
  "retry_calls (trace (snd (drm_atomic_check_only hk w))) = retry_calls (trace w)"
  by (simp add: drm_atomic_check_only_def call_atomic_check_def check_planes_trace
        check_crtcs_trace quiet_simps split: option.splits)

lemma commit_quiet:
  "retry_calls (trace (snd (drm_atomic_commit hk w))) = retry_calls (trace w)"
  "retry_calls (trace (snd (drm_atomic_nonblocking_commit hk w))) = retry_calls (trace w)"
  by (simp_all add: drm_atomic_commit_def drm_atomic_nonblocking_commit_def
        call_atomic_commit_def check_only_quiet quiet_simps)

lemma atomic_steps_quiet:
  "retry_calls (trace (fst (snd (atomic_steps hk arg file_priv w)))) = retry_calls (trace w)"
  by (simp add: atomic_steps_def set_objs_quiet prepare_crtc_signaling_quiet check_only_quiet
        commit_quiet split_def)

lemma fold_quiet:
  "(\<And>x v. retry_calls (trace (f x v)) = retry_calls (trace v)) \<Longrightarrow>
   retry_calls (trace (fold f xs w)) = retry_calls (trace w)"
  by (induction xs arbitrary: w) simp_all

lemma clean_old_fb_quiet:
  "retry_calls (trace (drm_atomic_clean_old_fb w pmask ret)) = retry_calls (trace w)"
  unfolding drm_atomic_clean_old_fb_def
  by (rule fold_quiet)
     (simp add: clean_old_fb_plane_def upd_plane_fields quiet_simps split: option.splits)

lemma complete_crtc_signaling_quiet:
  "retry_calls (trace (complete_crtc_signaling hk w fence_state num_fences install_fds)) =
   retry_calls (trace w)"
proof -
  have a: "\<And>xs v. retry_calls (trace (fold install_fd xs v)) = retry_calls (trace v)"
    by (rule fold_quiet) (simp add: install_fd_def quiet_simps split: option.splits)
  have b: "\<And>xs v. retry_calls (trace (fold cancel_event xs v)) = retry_calls (trace v)"
    by (rule fold_quiet) (simp add: cancel_event_def quiet_simps split: option.splits)
  have c: "\<And>xs v. retry_calls (trace (fold (release_fence hk) xs v)) = retry_calls (trace v)"
    by (rule fold_quiet) (simp add: release_fence_def quiet_simps split: option.splits)
  show ?thesis
    by (simp add: complete_crtc_signaling_def a b c quiet_simps split: option.splits)
qed

text \<open>
  Claim C2. One pass of the ioctl ends at the label \<open>out\<close> with a result. If the result
  is the deadlock signal, the ioctl clears the transaction, backs off the lock context and
  runs the pass again from the start. With any other result it returns: a non-zero result
  is returned as it is after the transaction has been freed and the locks dropped, and a
  zero result is returned after the locks are dropped (a test-only transaction is freed
  first). Nothing below the loop clears or backs off: from the start of the pass to the
  decision no clear hook, no destroy-state call and no back-off is made.
\<close>

theorem ioctl_retries_on_deadlock_only:
  assumes s: "atomic_steps hk arg file_priv w = (ret, w1, pmask, fence_state, num_fences)"
    and o: "w3 = complete_crtc_signaling hk (drm_atomic_clean_old_fb w1 pmask ret)
                   fence_state num_fences (ret = 0)"
  shows "(ret = - EDEADLK \<longrightarrow>
            atomic_retry hk arg file_priv w =
            atomic_retry hk arg file_priv
              (drm_modeset_backoff hk (drm_atomic_state_clear hk w3))) \<and>
         (ret \<noteq> - EDEADLK \<and> ret \<noteq> 0 \<longrightarrow>
            atomic_retry hk arg file_priv w =
            Some (ret, drm_modeset_drop_locks hk (drm_atomic_state_free hk w3))) \<and>
         (ret = 0 \<longrightarrow>
            atomic_retry hk arg file_priv w =
            Some (0, drm_modeset_drop_locks hk
                       (if flag_set arg DRM_MODE_ATOMIC_TEST_ONLY
                        then drm_atomic_state_free hk w3 else w3))) \<and>
         retry_calls (trace w3) = retry_calls (trace w)"
proof -
  have q: "retry_calls (trace w3) = retry_calls (trace w)"
    using atomic_steps_quiet [of hk arg file_priv w] s o
    by (simp add: complete_crtc_signaling_quiet clean_old_fb_quiet)
  have r: "atomic_retry hk arg file_priv w =
     (if ret = - EDEADLK
      then atomic_retry hk arg file_priv (drm_modeset_backoff hk (drm_atomic_state_clear hk w3))
      else Some (ret, drm_modeset_drop_locks hk
             (if ret \<noteq> 0 \<or> flag_set arg DRM_MODE_ATOMIC_TEST_ONLY
              then drm_atomic_state_free hk w3 else w3)))"
    by (subst atomic_retry.simps) (simp add: s o Let_def)
  from q r show ?thesis by simp
qed

lemmas ioctl_eval =
  atomic_steps_def atomic_set_prop_def drm_atomic_get_crtc_state_def
  drm_atomic_get_existing_crtc_state_def drm_modeset_lock_def
  drm_atomic_crtc_set_property_def prepare_crtc_signaling_def prepare_crtc_def
  prepare_event_def get_out_fence_for_crtc_def flag_set_def
  drm_atomic_commit_def drm_atomic_check_only_def call_atomic_check_def
  drm_atomic_crtc_check_def drm_atomic_crtc_needs_modeset_def
  drm_atomic_clean_old_fb_def complete_crtc_signaling_def cancel_event_def
  drm_atomic_state_clear_def drm_atomic_state_default_clear_def clear_crtc_entry_def
  clear_plane_entry_def clear_connector_entry_def drm_modeset_backoff_def
  drm_modeset_drop_locks_def drm_atomic_state_free_def drm_atomic_state_default_release_def
  set_crtc_entry_def set_plane_entry_def upd_crtc_state_def
  hooks_contended_def hooks0_def arg_one_def world_contended_def dev0_def config0_def
  crtc_state0_def empty_crtc_entry_def empty_plane_entry_def log_def run_hook_def
  note_old_fb_def Let_def upt_rec index_bit_def numeral_2_eq_2

lemma first_pass:
  "atomic_steps hooks_contended arg_one \<lparr>atomic = True\<rparr> world_contended =
     (- EDEADLK,
      world_contended\<lparr>trace := [Modeset_lock (Crtc_mutex 0) (- EDEADLK)]\<rparr>, 0, None, 0)"
  by (simp add: ioctl_eval)


lemma second_pass:
  "atomic_steps hooks_contended arg_one \<lparr>atomic = True\<rparr>
     (world_contended\<lparr>trace := [Modeset_lock (Crtc_mutex 0) (- EDEADLK), Modeset_backoff],
        ext := 1\<rparr>) =
   (- EINVAL,
    world_contended\<lparr>
      txn := (txn world_contended)\<lparr>crtcs :=
        [\<lparr>ce_ptr = Some 0, ce_state = Some 10, ce_commit = None, ce_out_fence_ptr = None\<rparr>,
         empty_crtc_entry]\<rparr>,
      crtc_mem := (crtc_mem world_contended)(10 := crtc_state0\<lparr>active := True\<rparr>),
      next_addr := 11,
      trace := [Modeset_lock (Crtc_mutex 0) (- EDEADLK), Modeset_backoff,
                Modeset_lock (Crtc_mutex 0) 0, Crtc_duplicate_state 0 (Some 10)],
      ext := 1\<rparr>, 0, None, 0)"
  by (simp add: ioctl_eval)

text \<open>
  On the contended device the first pass fails with the deadlock signal in the lock of
  CRTC 0, deep inside the property loop. The ioctl backs off once and runs the pass again;
  the second pass is rejected by the check (the CRTC would be active but not enabled), so
  the ioctl frees the transaction, drops the locks and returns that error.
\<close>

theorem ioctl_retries_on_deadlock_only_witness:
  "map_option fst (atomic_retry hooks_contended arg_one \<lparr>atomic = True\<rparr> world_contended) =
     Some (- EINVAL) \<and>
   map_option (\<lambda>r. trace (snd r))
     (atomic_retry hooks_contended arg_one \<lparr>atomic = True\<rparr> world_contended) =
     Some [Modeset_lock (Crtc_mutex 0) (- EDEADLK), Modeset_backoff,
           Modeset_lock (Crtc_mutex 0) 0, Crtc_duplicate_state 0 (Some 10),
           Crtc_destroy_state 0 (Some 10), Release_arrays, Modeset_drop_locks]"
proof -
  let ?w1 = "world_contended\<lparr>trace := [Modeset_lock (Crtc_mutex 0) (- EDEADLK)]\<rparr>"
  let ?w2 = "world_contended\<lparr>trace := [Modeset_lock (Crtc_mutex 0) (- EDEADLK),
                 Modeset_backoff], ext := 1\<rparr>"
  have o1: "?w1 = complete_crtc_signaling hooks_contended
                    (drm_atomic_clean_old_fb ?w1 0 (- EDEADLK)) None 0 (- EDEADLK = (0::int))"
    by (simp add: ioctl_eval)
  have b: "drm_modeset_backoff hooks_contended (drm_atomic_state_clear hooks_contended ?w1) = ?w2"
    by (simp add: ioctl_eval)
  from ioctl_retries_on_deadlock_only [OF first_pass o1] b
  have r1: "atomic_retry hooks_contended arg_one \<lparr>atomic = True\<rparr> world_contended =
            atomic_retry hooks_contended arg_one \<lparr>atomic = True\<rparr> ?w2"
    by simp
  let ?w3 = "world_contended\<lparr>
      txn := (txn world_contended)\<lparr>crtcs :=
        [\<lparr>ce_ptr = Some 0, ce_state = Some 10, ce_commit = None, ce_out_fence_ptr = None\<rparr>,
         empty_crtc_entry]\<rparr>,
      crtc_mem := (crtc_mem world_contended)(10 := crtc_state0\<lparr>active := True\<rparr>),
      next_addr := 11,
      trace := [Modeset_lock (Crtc_mutex 0) (- EDEADLK), Modeset_backoff,
                Modeset_lock (Crtc_mutex 0) 0, Crtc_duplicate_state 0 (Some 10)],
      ext := 1\<rparr>"
  from ioctl_retries_on_deadlock_only [OF second_pass refl]
  have r2: "atomic_retry hooks_contended arg_one \<lparr>atomic = True\<rparr> ?w2 =
     Some (- EINVAL, drm_modeset_drop_locks hooks_contended
        (drm_atomic_state_free hooks_contended
          (complete_crtc_signaling hooks_contended
            (drm_atomic_clean_old_fb ?w3 0 (- EINVAL)) None 0 False)))"
    by simp
  show ?thesis
    unfolding r1 r2 by (simp add: ioctl_eval)
qed

end
